(* ===== verification/Cuvid_Prelude.thy ===== *)
theory Cuvid_Prelude
  imports Main "HOL-Library.Word"
begin

text \<open>
  Shared vocabulary of the CuvidDecode development: the machine types of the
  NVDEC/CUVID structures the decoder fills in, the generic lemmas on lists that
  the frame-queue and session proofs share (counting slot states after an array
  update, bounded ring buffers read as lists), and the named collections that
  carry the component proofs.
\<close>

named_theorems fq_simps "equations of the frame-queue operations"
named_theorems session_simps "equations of the CuvidDecode session operations"

subsection \<open>Machine types\<close>

text \<open>
  \<open>short\<close> is the C \<open>short\<close> of \<open>CUVIDDECODECREATEINFO::display_area\<close>;
  \<open>ulong\<close> is the Windows \<open>unsigned long\<close> (32 bits under LLP64) of
  \<open>ulWidth\<close>, \<open>ulHeight\<close>, \<open>flags\<close>; \<open>uint32\<close> is \<open>uint32_t\<close> and
  \<open>unsigned int\<close> of \<open>payload_size\<close>, \<open>coded_width\<close>, \<open>coded_height\<close>.
  Timestamps (\<open>int64_t\<close>, \<open>CUvideotimestamp\<close>) are kept as \<open>int\<close>.
\<close>

type_synonym short = "16 word"
type_synonym ulong = "32 word"
type_synonym uint32 = "32 word"

subsection \<open>Counting after an array update\<close>

lemma count_list_update [simp]:
  "i < length xs \<Longrightarrow>
   count_list (xs[i := y]) x =
     count_list xs x - (if xs ! i = x then 1 else 0) + (if y = x then 1 else 0)"
proof (induction xs arbitrary: i)
  case Nil
  then show ?case by simp
next
  case (Cons a xs)
  show ?case
  proof (cases i)
    case 0
    then show ?thesis by simp
  next
    case (Suc j)
    with Cons.prems have j: "j < length xs" by simp
    have "0 < count_list xs (xs ! j)" using j
      by (metis count_list_0_iff gr0I nth_mem)
    with Cons.IH [OF j] Suc show ?thesis
      by auto
  qed
qed

lemma count_list_replicate [simp]:
  "count_list (replicate n x) y = (if x = y then n else 0)"
  by (induction n) auto

lemma count_list_pos_nth:
  "i < length xs \<Longrightarrow> xs ! i = x \<Longrightarrow> 0 < count_list xs x"
  by (metis count_list_0_iff gr0I nth_mem)

text \<open>
  A list of distinct indices that all point at the same value \<open>x\<close> is no longer
  than the number of occurrences of \<open>x\<close>.
\<close>

lemma distinct_indices_le_count:
  assumes "distinct ks" and "\<forall>k \<in> set ks. k < length xs \<and> xs ! k = x"
  shows "length ks \<le> count_list xs x"
proof -
  have "set ks \<subseteq> {k. k < length xs \<and> xs ! k = x}"
    using assms(2) by blast
  then have "card (set ks) \<le> card {k. k < length xs \<and> xs ! k = x}"
    by (rule card_mono [rotated]) simp
  moreover have "count_list xs x = card {k. k < length xs \<and> xs ! k = x}"
    by (simp add: count_list_eq_length_filter length_filter_conv_card eq_commute)
  ultimately show ?thesis
    using assms(1) by (simp add: distinct_card)
qed

lemma count_list_three_states:
  assumes "\<forall>y \<in> set xs. y = a \<or> y = b \<or> y = c" and "a \<noteq> b" "a \<noteq> c" "b \<noteq> c"
  shows "count_list xs a + count_list xs b + count_list xs c = length xs"
  using assms by (induction xs) auto

subsection \<open>Bounded rings read as lists\<close>

text \<open>
  A ring of modulus \<open>m\<close> stored in \<open>xs\<close>, with read position \<open>r\<close> and
  \<open>n\<close> entries, holds the list \<open>ring_list xs m r n\<close>, oldest first.
\<close>

definition ring_list :: "'a list \<Rightarrow> nat \<Rightarrow> nat \<Rightarrow> nat \<Rightarrow> 'a list" where
  "ring_list xs m r n = map (\<lambda>j. xs ! ((r + j) mod m)) [0..<n]"

lemma length_ring_list [simp]: "length (ring_list xs m r n) = n"
  by (simp add: ring_list_def)

lemma ring_list_0 [simp]: "ring_list xs m r 0 = []"
  by (simp add: ring_list_def)

text \<open>Writing at the slot after the last entry appends, if the ring is not full.\<close>

lemma mod_shift_distinct:
  fixes r j n m :: nat
  assumes "(r + j) mod m = (r + n) mod m" and "j < n" and "n < m"
  shows False
proof -
  obtain s where "r + n = r + j + m * s"
    using mod_eq_nat2E [OF assms(1)] assms(2) by auto
  with assms(2,3) show False by (cases s) auto
qed

lemma ring_list_push:
  assumes "n < m" and "length xs = m"
  shows "ring_list (xs[(r + n) mod m := x]) m r (Suc n) = ring_list xs m r n @ [x]"
proof -
  have "0 < m" using assms(1) by simp
  have neq: "(r + n) mod m \<noteq> (r + j) mod m" if "j < n" for j
    using mod_shift_distinct [of r j m n] that assms(1) by metis
  have "(r + n) mod m < length xs" using \<open>0 < m\<close> assms(2) by simp
  with neq show ?thesis
    by (auto simp: ring_list_def intro!: map_cong)
qed

text \<open>Reading at the read position takes the head and advances the ring.\<close>

lemma ring_list_pop:
  assumes "0 < n" and "0 < m"
  shows "ring_list xs m r n = xs ! (r mod m) # ring_list xs m (Suc r mod m) (n - 1)"
proof -
  have "[0..<n] = 0 # map Suc [0..<n - 1]"
    using assms(1) by (simp add: upt_conv_Cons map_Suc_upt)
  moreover have "(Suc r mod m + j) mod m = (r + Suc j) mod m" for j
    by (simp add: mod_add_left_eq)
  ultimately show ?thesis
    by (simp add: ring_list_def)
qed

lemma ring_list_in_range:
  assumes "0 < m" and "length xs = m"
  shows "set (ring_list xs m r n) \<subseteq> set xs"
  using assms by (auto simp: ring_list_def)


section \<open>Machine conversions\<close>

lemma sint_short_in_range:
  "- 32768 \<le> x \<Longrightarrow> x < 32768 \<Longrightarrow> sint (word_of_int x :: short) = x"
  by (simp add: int_word_sint)

lemma unat_ulong_in_range:
  "0 \<le> x \<Longrightarrow> x < 2 ^ 32 \<Longrightarrow> unat (word_of_int x :: ulong) = nat x"
  by (simp add: unat_eq_nat_uint uint_word_of_int)

end
