(* ===== verification/Frame_Queue.thy ===== *)
theory Frame_Queue
  imports Cuvid_Prelude
begin

text \<open>
  The frame slot pool (\<open>CUVIDFrameQueue\<close>, reached from \<open>CuvidDecode\<close> through
  \<open>m_pFrameQueue\<close>). Its class is declared outside the translated sources, so the
  pool is modelled from the specification (section 4.1 of the spec): a fixed array of
  slots, each \<open>Free\<close>, \<open>Reserved\<close> or \<open>Ready\<close>; a bounded display ring
  holding the published pictures in publish order (read position and count, as the
  frame queue keeps them); a count of free slots; the end-of-decode flag.
  Blocking is a value: \<open>waitUntilFrameAvailable\<close> answers \<open>MustWait\<close> where
  the caller would block, \<open>dequeue\<close> answers \<open>NothingReady\<close>.
  The theory holds the operations, the pool invariant and its preservation, and an
  abstract specification (slot states, a FIFO list, the ended flag) that the ring
  implementation refines.
\<close>

section \<open>Data\<close>

datatype slot_state = Free | Reserved | Ready

text \<open>\<open>CUVIDPARSERDISPINFO\<close>: the picture published for display.\<close>

record disp_info =
  picture_index :: int
  progressive_frame :: int
  top_field_first :: int
  repeat_first_field :: int
  disp_timestamp :: int

definition empty_disp_info :: disp_info where
  "empty_disp_info =
     \<lparr>picture_index = 0, progressive_frame = 0, top_field_first = 0,
      repeat_first_field = 0, disp_timestamp = 0\<rparr>"

record frame_queue =
  capacity :: nat
  frame_width :: int
  frame_height :: int
  slot_states :: "slot_state list"
  display_ring :: "disp_info list"
  read_position :: nat
  frames_in_queue :: nat
  available :: nat
  end_of_decode :: bool

datatype pool_error = AllocationError | InvalidState | InvalidIndex

datatype 'q wait_result = StreamEnded | MustWait | Acquired 'q

datatype 'q take_result = Taken disp_info 'q | NothingReady | EndOfStream

section \<open>Operations\<close>

text \<open>\<open>init(width, height)\<close>: all slots free, the ring empty.\<close>

definition fq_init :: "nat \<Rightarrow> int \<Rightarrow> int \<Rightarrow> pool_error + frame_queue" where
  "fq_init cap w h =
     (if cap = 0 then Inl AllocationError
      else Inr \<lparr>capacity = cap, frame_width = w, frame_height = h,
                slot_states = replicate cap Free,
                display_ring = replicate cap empty_disp_info,
                read_position = 0, frames_in_queue = 0, available = cap,
                end_of_decode = False\<rparr>)"

text \<open>A picture index of the engine (a C \<open>int\<close>) names a slot when it is in range.\<close>

definition slot_index :: "nat \<Rightarrow> int \<Rightarrow> nat option" where
  "slot_index cap i = (if 0 \<le> i \<and> nat i < cap then Some (nat i) else None)"

text \<open>
  \<open>reserve\<close>, called \<open>waitUntilFrameAvailable\<close> by the decoder: an ended pool
  answers at once; a free slot becomes \<open>Reserved\<close>; a slot still reserved or
  ready makes the caller wait.
\<close>

definition waitUntilFrameAvailable ::
  "int \<Rightarrow> frame_queue \<Rightarrow> pool_error + frame_queue wait_result" where
  "waitUntilFrameAvailable i q =
     (if end_of_decode q then Inr StreamEnded
      else case slot_index (capacity q) i of
        None \<Rightarrow> Inl InvalidIndex
      | Some k \<Rightarrow>
          (if slot_states q ! k = Free
           then Inr (Acquired (q\<lparr>slot_states := (slot_states q)[k := Reserved],
                                 available := available q - 1\<rparr>))
           else Inr MustWait))"

text \<open>\<open>publish\<close>, called \<open>enqueue\<close>: the reserved slot becomes ready and its
  display record is written behind the last entry of the ring.\<close>

definition enqueue :: "disp_info \<Rightarrow> frame_queue \<Rightarrow> pool_error + frame_queue" where
  "enqueue d q =
     (case slot_index (capacity q) (picture_index d) of
        None \<Rightarrow> Inl InvalidIndex
      | Some k \<Rightarrow>
          (if slot_states q ! k \<noteq> Reserved then Inl InvalidState
           else Inr (q\<lparr>slot_states := (slot_states q)[k := Ready],
                       display_ring := (display_ring q)
                         [(read_position q + frames_in_queue q) mod capacity q := d],
                       frames_in_queue := Suc (frames_in_queue q)\<rparr>)))"

text \<open>\<open>take_ready\<close>, called \<open>dequeue\<close>: the oldest published picture, else
  end of stream once the pool has ended, else nothing yet.\<close>

definition dequeue :: "frame_queue \<Rightarrow> frame_queue take_result" where
  "dequeue q =
     (if 0 < frames_in_queue q
      then Taken (display_ring q ! read_position q)
                 (q\<lparr>read_position := Suc (read_position q) mod capacity q,
                    frames_in_queue := frames_in_queue q - 1\<rparr>)
      else if end_of_decode q then EndOfStream else NothingReady)"

text \<open>\<open>release\<close>, called \<open>releaseFrame\<close>: a ready slot becomes free.\<close>

definition releaseFrame :: "int \<Rightarrow> frame_queue \<Rightarrow> pool_error + frame_queue" where
  "releaseFrame i q =
     (case slot_index (capacity q) i of
        None \<Rightarrow> Inl InvalidIndex
      | Some k \<Rightarrow>
          (if slot_states q ! k \<noteq> Ready then Inl InvalidState
           else Inr (q\<lparr>slot_states := (slot_states q)[k := Free],
                       available := Suc (available q)\<rparr>)))"

text \<open>\<open>mark_ended\<close>, called \<open>endDecode\<close>.\<close>

definition endDecode :: "frame_queue \<Rightarrow> frame_queue" where
  "endDecode q = q\<lparr>end_of_decode := True\<rparr>"

definition isEndOfDecode :: "frame_queue \<Rightarrow> bool" where
  "isEndOfDecode q = end_of_decode q"

declare fq_init_def [fq_simps] waitUntilFrameAvailable_def [fq_simps] enqueue_def [fq_simps]
  dequeue_def [fq_simps] releaseFrame_def [fq_simps] endDecode_def [fq_simps]
  slot_index_def [fq_simps]

section \<open>The ring read as a list, and the invariant\<close>

definition queued :: "frame_queue \<Rightarrow> disp_info list" where
  "queued q = ring_list (display_ring q) (capacity q) (read_position q) (frames_in_queue q)"

definition queued_slots :: "frame_queue \<Rightarrow> nat list" where
  "queued_slots q = map (\<lambda>d. nat (picture_index d)) (queued q)"

definition ready_entry :: "frame_queue \<Rightarrow> disp_info \<Rightarrow> bool" where
  "ready_entry q d \<longleftrightarrow>
     0 \<le> picture_index d \<and> nat (picture_index d) < capacity q \<and>
     slot_states q ! nat (picture_index d) = Ready"

text \<open>
  The pool invariant: the arrays have the capacity, the free count is the number of
  free slots, and the ring holds distinct ready slots.
\<close>

definition fq_inv :: "frame_queue \<Rightarrow> bool" where
  "fq_inv q \<longleftrightarrow>
     0 < capacity q \<and>
     length (slot_states q) = capacity q \<and>
     length (display_ring q) = capacity q \<and>
     read_position q < capacity q \<and>
     available q = count_list (slot_states q) Free \<and>
     list_all (ready_entry q) (queued q) \<and>
     distinct (queued_slots q)"

section \<open>Abstract specification of the pool\<close>

text \<open>
  What the pool promises, without the ring: the slot states, the published pictures
  as a FIFO list, and the ended flag. \<open>fq_abs\<close> reads a concrete pool this way.
\<close>

record pool_spec =
  spec_states :: "slot_state list"
  spec_fifo :: "disp_info list"
  spec_ended :: bool

definition spec_reserve :: "int \<Rightarrow> pool_spec \<Rightarrow> pool_error + pool_spec wait_result" where
  "spec_reserve i p =
     (if spec_ended p then Inr StreamEnded
      else case slot_index (length (spec_states p)) i of
        None \<Rightarrow> Inl InvalidIndex
      | Some k \<Rightarrow>
          (if spec_states p ! k = Free
           then Inr (Acquired (p\<lparr>spec_states := (spec_states p)[k := Reserved]\<rparr>))
           else Inr MustWait))"

definition spec_publish :: "disp_info \<Rightarrow> pool_spec \<Rightarrow> pool_error + pool_spec" where
  "spec_publish d p =
     (case slot_index (length (spec_states p)) (picture_index d) of
        None \<Rightarrow> Inl InvalidIndex
      | Some k \<Rightarrow>
          (if spec_states p ! k \<noteq> Reserved then Inl InvalidState
           else Inr (p\<lparr>spec_states := (spec_states p)[k := Ready],
                       spec_fifo := spec_fifo p @ [d]\<rparr>)))"

definition spec_take :: "pool_spec \<Rightarrow> pool_spec take_result" where
  "spec_take p =
     (case spec_fifo p of
        d # ds \<Rightarrow> Taken d (p\<lparr>spec_fifo := ds\<rparr>)
      | [] \<Rightarrow> (if spec_ended p then EndOfStream else NothingReady))"

definition spec_release :: "int \<Rightarrow> pool_spec \<Rightarrow> pool_error + pool_spec" where
  "spec_release i p =
     (case slot_index (length (spec_states p)) i of
        None \<Rightarrow> Inl InvalidIndex
      | Some k \<Rightarrow>
          (if spec_states p ! k \<noteq> Ready then Inl InvalidState
           else Inr (p\<lparr>spec_states := (spec_states p)[k := Free]\<rparr>)))"

definition spec_mark_ended :: "pool_spec \<Rightarrow> pool_spec" where
  "spec_mark_ended p = p\<lparr>spec_ended := True\<rparr>"

definition fq_abs :: "frame_queue \<Rightarrow> pool_spec" where
  "fq_abs q = \<lparr>spec_states = slot_states q, spec_fifo = queued q, spec_ended = end_of_decode q\<rparr>"

section \<open>Sequences of pool operations\<close>

text \<open>
  One pool call per element, as the feeder, the engine callbacks and the consumer
  issue them. A call that would block (\<open>MustWait\<close>, \<open>NothingReady\<close>) leaves
  the pool as it is; the first error stops the run; the pictures taken are returned
  in the order they were taken.
\<close>

datatype pool_op = Reserve int | Publish disp_info | Take | Release int | MarkEnded

fun pool_run :: "pool_op list \<Rightarrow> frame_queue \<Rightarrow> pool_error + frame_queue \<times> disp_info list" where
  "pool_run [] q = Inr (q, [])"
| "pool_run (Reserve i # ops) q =
     (case waitUntilFrameAvailable i q of
        Inl e \<Rightarrow> Inl e
      | Inr (Acquired q') \<Rightarrow> pool_run ops q'
      | Inr _ \<Rightarrow> pool_run ops q)"
| "pool_run (Publish d # ops) q =
     (case enqueue d q of Inl e \<Rightarrow> Inl e | Inr q' \<Rightarrow> pool_run ops q')"
| "pool_run (Take # ops) q =
     (case dequeue q of
        Taken d q' \<Rightarrow> map_sum id (\<lambda>(q'', ds). (q'', d # ds)) (pool_run ops q')
      | _ \<Rightarrow> pool_run ops q)"
| "pool_run (Release i # ops) q =
     (case releaseFrame i q of Inl e \<Rightarrow> Inl e | Inr q' \<Rightarrow> pool_run ops q')"
| "pool_run (MarkEnded # ops) q = pool_run ops (endDecode q)"

fun published :: "pool_op list \<Rightarrow> disp_info list" where
  "published [] = []"
| "published (Publish d # ops) = d # published ops"
| "published (_ # ops) = published ops"

text \<open>
  The consumer's obligation (section 4.1): it releases only a slot it has taken, so
  never one whose picture is still waiting in the ring.
\<close>

fun releases_taken :: "pool_op list \<Rightarrow> frame_queue \<Rightarrow> bool" where
  "releases_taken [] q = True"
| "releases_taken (Reserve i # ops) q =
     (case waitUntilFrameAvailable i q of
        Inr (Acquired q') \<Rightarrow> releases_taken ops q'
      | _ \<Rightarrow> releases_taken ops q)"
| "releases_taken (Publish d # ops) q =
     (case enqueue d q of Inl _ \<Rightarrow> True | Inr q' \<Rightarrow> releases_taken ops q')"
| "releases_taken (Take # ops) q =
     (case dequeue q of Taken d q' \<Rightarrow> releases_taken ops q' | _ \<Rightarrow> releases_taken ops q)"
| "releases_taken (Release i # ops) q =
     (nat i \<notin> set (queued_slots q) \<and>
      (case releaseFrame i q of Inl _ \<Rightarrow> True | Inr q' \<Rightarrow> releases_taken ops q'))"
| "releases_taken (MarkEnded # ops) q = releases_taken ops (endDecode q)"

section \<open>Basic facts of the pool\<close>

lemma slot_index_Some_iff:
  "slot_index cap i = Some k \<longleftrightarrow> 0 \<le> i \<and> nat i < cap \<and> k = nat i"
  by (auto simp: slot_index_def)

lemma slot_state_cases3: "y = Free \<or> y = Reserved \<or> y = Ready"
  by (cases y) auto

lemma queued_fields [simp]:
  "queued (q\<lparr>slot_states := s\<rparr>) = queued q"
  "queued (q\<lparr>available := a\<rparr>) = queued q"
  "queued (q\<lparr>end_of_decode := b\<rparr>) = queued q"
  by (simp_all add: queued_def)

lemma queued_slots_fields [simp]:
  "queued_slots (q\<lparr>slot_states := s\<rparr>) = queued_slots q"
  "queued_slots (q\<lparr>available := a\<rparr>) = queued_slots q"
  "queued_slots (q\<lparr>end_of_decode := b\<rparr>) = queued_slots q"
  by (simp_all add: queued_slots_def)

lemma fq_inv_slot_counts:
  assumes "fq_inv q"
  shows "count_list (slot_states q) Free + count_list (slot_states q) Reserved
           + count_list (slot_states q) Ready = capacity q"
proof -
  have "\<forall>y \<in> set (slot_states q). y = Free \<or> y = Reserved \<or> y = Ready"
    by (simp add: slot_state_cases3)
  then show ?thesis
    using count_list_three_states [of "slot_states q" Free Reserved Ready] assms
    by (simp add: fq_inv_def)
qed

lemma fq_inv_queue_le_ready:
  assumes "fq_inv q"
  shows "frames_in_queue q \<le> count_list (slot_states q) Ready"
proof -
  have "distinct (queued_slots q)" using assms by (simp add: fq_inv_def)
  moreover have "\<forall>k \<in> set (queued_slots q). k < length (slot_states q) \<and> slot_states q ! k = Ready"
    using assms by (auto simp: fq_inv_def queued_slots_def list_all_iff ready_entry_def)
  ultimately have "length (queued_slots q) \<le> count_list (slot_states q) Ready"
    by (rule distinct_indices_le_count)
  then show ?thesis by (simp add: queued_slots_def queued_def)
qed

lemma fq_inv_not_full:
  assumes "fq_inv q" and "k < capacity q" and "slot_states q ! k = Reserved"
  shows "frames_in_queue q < capacity q"
proof -
  have "0 < count_list (slot_states q) Reserved"
    using assms by (intro count_list_pos_nth) (auto simp: fq_inv_def)
  with fq_inv_slot_counts [OF assms(1)] fq_inv_queue_le_ready [OF assms(1)]
  show ?thesis by linarith
qed

lemma queued_not_state:
  assumes "fq_inv q" and "slot_states q ! k \<noteq> Ready"
  shows "k \<notin> set (queued_slots q)"
  using assms by (auto simp: fq_inv_def queued_slots_def list_all_iff ready_entry_def)

lemma list_all_ready_update:
  assumes "list_all (ready_entry q) ds" and "\<forall>d \<in> set ds. nat (picture_index d) \<noteq> k"
    and "capacity q' = capacity q" and "slot_states q' = (slot_states q)[k := s]"
  shows "list_all (ready_entry q') ds"
  using assms by (auto simp: list_all_iff ready_entry_def)

lemma fq_init_inv:
  "fq_init cap w h = Inr q \<Longrightarrow> fq_inv q"
  by (auto simp: fq_init_def fq_inv_def queued_def queued_slots_def split: if_splits)

lemma ready_entry_cong:
  "capacity q' = capacity q \<Longrightarrow> slot_states q' = slot_states q \<Longrightarrow> ready_entry q' = ready_entry q"
  by (simp add: ready_entry_def fun_eq_iff)

lemma notin_queued_slots:
  "k \<notin> set (queued_slots q) \<Longrightarrow> \<forall>d \<in> set (queued q). nat (picture_index d) \<noteq> k"
  by (auto simp: queued_slots_def)

lemma waitUntilFrameAvailable_Acquired:
  "waitUntilFrameAvailable i q = Inr (Acquired q') \<longleftrightarrow>
     \<not> end_of_decode q \<and> 0 \<le> i \<and> nat i < capacity q \<and> slot_states q ! nat i = Free \<and>
     q' = q\<lparr>slot_states := (slot_states q)[nat i := Reserved], available := available q - 1\<rparr>"
  by (auto simp: waitUntilFrameAvailable_def slot_index_def)

lemma enqueue_Inr:
  "enqueue d q = Inr q' \<longleftrightarrow>
     0 \<le> picture_index d \<and> nat (picture_index d) < capacity q \<and>
     slot_states q ! nat (picture_index d) = Reserved \<and>
     q' = q\<lparr>slot_states := (slot_states q)[nat (picture_index d) := Ready],
            display_ring := (display_ring q)
              [(read_position q + frames_in_queue q) mod capacity q := d],
            frames_in_queue := Suc (frames_in_queue q)\<rparr>"
  by (auto simp: enqueue_def slot_index_def)

lemma releaseFrame_Inr:
  "releaseFrame i q = Inr q' \<longleftrightarrow>
     0 \<le> i \<and> nat i < capacity q \<and> slot_states q ! nat i = Ready \<and>
     q' = q\<lparr>slot_states := (slot_states q)[nat i := Free], available := Suc (available q)\<rparr>"
  by (auto simp: releaseFrame_def slot_index_def)

section \<open>The ring holds the published pictures in order\<close>

lemma queued_enqueue:
  assumes "fq_inv q" and "enqueue d q = Inr q'"
  shows "queued q' = queued q @ [d]"
proof -
  from assms(2) have k: "nat (picture_index d) < capacity q"
    and r: "slot_states q ! nat (picture_index d) = Reserved"
    by (auto simp: enqueue_Inr)
  have "frames_in_queue q < capacity q"
    using fq_inv_not_full [OF assms(1) k r] .
  moreover have "length (display_ring q) = capacity q"
    using assms(1) by (simp add: fq_inv_def)
  ultimately show ?thesis
    using assms(2) by (auto simp: enqueue_Inr queued_def ring_list_push)
qed

lemma queued_dequeue:
  assumes "fq_inv q" and "dequeue q = Taken d q'"
  shows "queued q = d # queued q'"
proof -
  from assms(2) have n: "0 < frames_in_queue q" and d: "d = display_ring q ! read_position q"
    and q': "q' = q\<lparr>read_position := Suc (read_position q) mod capacity q,
                    frames_in_queue := frames_in_queue q - 1\<rparr>"
    by (auto simp: dequeue_def split: if_splits)
  have "0 < capacity q" and "read_position q < capacity q"
    using assms(1) by (simp_all add: fq_inv_def)
  then show ?thesis
    using ring_list_pop [OF n \<open>0 < capacity q\<close>, of "display_ring q" "read_position q"] d q'
    by (simp add: queued_def)
qed

section \<open>Every operation keeps the invariant\<close>

lemma waitUntilFrameAvailable_inv:
  assumes "fq_inv q" and "waitUntilFrameAvailable i q = Inr (Acquired q')"
  shows "fq_inv q'"
proof -
  let ?k = "nat i"
  from assms(2) have k: "?k < capacity q" and free: "slot_states q ! ?k = Free"
    and q': "q' = q\<lparr>slot_states := (slot_states q)[?k := Reserved], available := available q - 1\<rparr>"
    by (simp_all add: waitUntilFrameAvailable_Acquired)
  have len: "length (slot_states q) = capacity q"
    using assms(1) by (simp add: fq_inv_def)
  have notq: "\<forall>d \<in> set (queued q). nat (picture_index d) \<noteq> ?k"
    using queued_not_state [OF assms(1), of ?k] free by (intro notin_queued_slots) simp
  have "list_all (ready_entry q') (queued q)"
  proof (rule list_all_ready_update [OF _ notq])
    show "list_all (ready_entry q) (queued q)" using assms(1) by (simp add: fq_inv_def)
  qed (simp_all add: q')
  moreover have "queued q' = queued q" "queued_slots q' = queued_slots q"
    "capacity q' = capacity q" "length (slot_states q') = capacity q"
    "display_ring q' = display_ring q" "read_position q' = read_position q"
    using q' len by simp_all
  moreover have "available q' = count_list (slot_states q') Free"
  proof -
    have "available q = count_list (slot_states q) Free" using assms(1) by (simp add: fq_inv_def)
    then show ?thesis using q' len k free by simp
  qed
  ultimately show ?thesis
    using assms(1) unfolding fq_inv_def by simp
qed

lemma enqueue_inv:
  assumes "fq_inv q" and "enqueue d q = Inr q'"
  shows "fq_inv q'"
proof -
  let ?k = "nat (picture_index d)"
  from assms(2) have k: "?k < capacity q" and res: "slot_states q ! ?k = Reserved"
    and nn: "0 \<le> picture_index d"
    and q': "q' = q\<lparr>slot_states := (slot_states q)[?k := Ready],
            display_ring := (display_ring q)
              [(read_position q + frames_in_queue q) mod capacity q := d],
            frames_in_queue := Suc (frames_in_queue q)\<rparr>"
    by (simp_all add: enqueue_Inr)
  have len: "length (slot_states q) = capacity q" "length (display_ring q) = capacity q"
    using assms(1) by (simp_all add: fq_inv_def)
  have notq: "?k \<notin> set (queued_slots q)"
    using queued_not_state [OF assms(1)] res by simp
  have old: "list_all (ready_entry q') (queued q)"
  proof (rule list_all_ready_update)
    show "list_all (ready_entry q) (queued q)" using assms(1) by (simp add: fq_inv_def)
    show "\<forall>d \<in> set (queued q). nat (picture_index d) \<noteq> ?k"
      using notq by (rule notin_queued_slots)
  qed (simp_all add: q')
  have new: "ready_entry q' d"
    using k nn len q' by (simp add: ready_entry_def)
  have "queued q' = queued q @ [d]" by (rule queued_enqueue [OF assms])
  with old new notq have "list_all (ready_entry q') (queued q')"
    and "distinct (queued_slots q')"
    using assms(1) by (simp_all add: queued_slots_def fq_inv_def)
  moreover have "capacity q' = capacity q" "length (slot_states q') = capacity q"
    "length (display_ring q') = capacity q" "read_position q' = read_position q"
    "available q' = available q"
    using len q' by simp_all
  moreover have "count_list (slot_states q') Free = count_list (slot_states q) Free"
    using len k res q' by simp
  ultimately show ?thesis
    using assms(1) unfolding fq_inv_def by simp
qed

lemma dequeue_inv:
  assumes "fq_inv q" and "dequeue q = Taken d q'"
  shows "fq_inv q'"
proof -
  have eq: "queued q = d # queued q'" by (rule queued_dequeue [OF assms])
  from assms(2) have q': "q' = q\<lparr>read_position := Suc (read_position q) mod capacity q,
                    frames_in_queue := frames_in_queue q - 1\<rparr>"
    by (auto simp: dequeue_def split: if_splits)
  have "list_all (ready_entry q) (queued q')" and "distinct (queued_slots q')"
    using assms(1) eq q' by (auto simp: fq_inv_def queued_slots_def)
  moreover have "ready_entry q' = ready_entry q"
    using q' by (intro ready_entry_cong) simp_all
  moreover have "capacity q' = capacity q" "slot_states q' = slot_states q"
    "display_ring q' = display_ring q" "available q' = available q"
    using q' by simp_all
  moreover have "read_position q' < capacity q"
    using assms(1) q' by (simp add: fq_inv_def)
  ultimately show ?thesis
    using assms(1) unfolding fq_inv_def by simp
qed

lemma releaseFrame_inv:
  assumes "fq_inv q" and "releaseFrame i q = Inr q'" and "nat i \<notin> set (queued_slots q)"
  shows "fq_inv q'"
proof -
  from assms(2) have k: "nat i < capacity q" and rdy: "slot_states q ! nat i = Ready"
    and q': "q' = q\<lparr>slot_states := (slot_states q)[nat i := Free], available := Suc (available q)\<rparr>"
    by (simp_all add: releaseFrame_Inr)
  have len: "length (slot_states q) = capacity q"
    using assms(1) by (simp add: fq_inv_def)
  have "list_all (ready_entry q') (queued q)"
  proof (rule list_all_ready_update [OF _ notin_queued_slots [OF assms(3)]])
    show "list_all (ready_entry q) (queued q)" using assms(1) by (simp add: fq_inv_def)
  qed (simp_all add: q')
  moreover have "queued q' = queued q" "queued_slots q' = queued_slots q"
    "capacity q' = capacity q" "length (slot_states q') = capacity q"
    "display_ring q' = display_ring q" "read_position q' = read_position q"
    using q' len by simp_all
  moreover have "available q' = count_list (slot_states q') Free"
  proof -
    have "available q = count_list (slot_states q) Free" using assms(1) by (simp add: fq_inv_def)
    then show ?thesis using q' len k rdy by simp
  qed
  ultimately show ?thesis
    using assms(1) unfolding fq_inv_def by simp
qed

lemma endDecode_inv: "fq_inv q \<Longrightarrow> fq_inv (endDecode q)"
proof -
  have "ready_entry (endDecode q) = ready_entry q"
    by (intro ready_entry_cong) (simp_all add: endDecode_def)
  then show "fq_inv q \<Longrightarrow> fq_inv (endDecode q)"
    by (simp add: fq_inv_def endDecode_def queued_def queued_slots_def)
qed

section \<open>The ring refines the abstract pool\<close>

lemma fq_inv_length: "fq_inv q \<Longrightarrow> length (slot_states q) = capacity q"
  by (simp add: fq_inv_def)

lemma waitUntilFrameAvailable_refines:
  assumes "fq_inv q"
  shows "map_sum id (map_wait_result fq_abs) (waitUntilFrameAvailable i q) = spec_reserve i (fq_abs q)"
  using fq_inv_length [OF assms]
  by (simp add: waitUntilFrameAvailable_def spec_reserve_def fq_abs_def split: option.split)

lemma enqueue_refines:
  assumes "fq_inv q"
  shows "map_sum id fq_abs (enqueue d q) = spec_publish d (fq_abs q)"
proof (cases "enqueue d q")
  case (Inl e)
  then show ?thesis
    using fq_inv_length [OF assms]
    by (auto simp: enqueue_def spec_publish_def fq_abs_def split: option.splits if_splits)
next
  case (Inr q')
  have "queued q' = queued q @ [d]" by (rule queued_enqueue [OF assms Inr])
  moreover from Inr have "0 \<le> picture_index d" "nat (picture_index d) < capacity q"
    "slot_states q ! nat (picture_index d) = Reserved"
    "slot_states q' = (slot_states q)[nat (picture_index d) := Ready]"
    "end_of_decode q' = end_of_decode q"
    by (auto simp: enqueue_Inr)
  ultimately show ?thesis
    using fq_inv_length [OF assms]
    by (simp add: Inr spec_publish_def fq_abs_def slot_index_def)
qed

lemma dequeue_refines:
  assumes "fq_inv q"
  shows "map_take_result fq_abs (dequeue q) = spec_take (fq_abs q)"
proof (cases "dequeue q")
  case (Taken d q')
  have "queued q = d # queued q'" by (rule queued_dequeue [OF assms Taken])
  moreover have "slot_states q' = slot_states q" "end_of_decode q' = end_of_decode q"
    using Taken by (auto simp: dequeue_def split: if_splits)
  ultimately show ?thesis
    using Taken by (simp add: spec_take_def fq_abs_def)
next
  case NothingReady
  then have "queued q = []" "\<not> end_of_decode q"
    by (auto simp: dequeue_def queued_def split: if_splits)
  with NothingReady show ?thesis by (simp add: spec_take_def fq_abs_def)
next
  case EndOfStream
  then have "queued q = []" "end_of_decode q"
    by (auto simp: dequeue_def queued_def split: if_splits)
  with EndOfStream show ?thesis by (simp add: spec_take_def fq_abs_def)
qed

lemma releaseFrame_refines:
  assumes "fq_inv q"
  shows "map_sum id fq_abs (releaseFrame i q) = spec_release i (fq_abs q)"
  using fq_inv_length [OF assms]
  by (simp add: releaseFrame_def spec_release_def fq_abs_def split: option.split)

lemma endDecode_refines: "fq_abs (endDecode q) = spec_mark_ended (fq_abs q)"
  by (simp add: endDecode_def spec_mark_ended_def fq_abs_def queued_def)

section \<open>Runs of pool operations\<close>

lemma queued_endDecode [simp]: "queued (endDecode q) = queued q"
  by (simp add: endDecode_def queued_def)

lemma queued_releaseFrame: "releaseFrame i q = Inr q' \<Longrightarrow> queued q' = queued q"
  by (auto simp: releaseFrame_Inr)

lemma queued_wait: "waitUntilFrameAvailable i q = Inr (Acquired q') \<Longrightarrow> queued q' = queued q"
  by (auto simp: waitUntilFrameAvailable_Acquired)

theorem pool_run_fifo:
  assumes "fq_inv q" and "releases_taken ops q" and "pool_run ops q = Inr (q', taken)"
  shows "taken @ queued q' = queued q @ published ops \<and> fq_inv q'"
  using assms
proof (induction ops q arbitrary: taken rule: pool_run.induct)
  case (1 q)
  then show ?case by simp
next
  case (2 i ops q)
  show ?case
  proof (cases "waitUntilFrameAvailable i q")
    case (Inl e)
    with "2.prems" show ?thesis by simp
  next
    case (Inr r)
    show ?thesis
    proof (cases r)
      case (Acquired q'')
      with Inr "2.prems" have "fq_inv q''" "queued q'' = queued q"
        by (auto intro: waitUntilFrameAvailable_inv dest: queued_wait)
      with Inr Acquired "2.IH"(3) [OF Inr Acquired] "2.prems" show ?thesis by simp
    next
      case StreamEnded
      with Inr "2.IH"(1) [OF Inr StreamEnded] "2.prems" show ?thesis by simp
    next
      case MustWait
      with Inr "2.IH"(2) [OF Inr MustWait] "2.prems" show ?thesis by simp
    qed
  qed
next
  case (3 d ops q)
  show ?case
  proof (cases "enqueue d q")
    case (Inl e)
    with "3.prems" show ?thesis by simp
  next
    case (Inr q'')
    with "3.prems" have "fq_inv q''" "queued q'' = queued q @ [d]"
      by (auto intro: enqueue_inv queued_enqueue)
    with Inr "3.IH" [OF Inr] "3.prems" show ?thesis by simp
  qed
next
  case (4 ops q)
  show ?case
  proof (cases "dequeue q")
    case (Taken d q'')
    with "4.prems" obtain taken' where t: "taken = d # taken'"
      and r: "pool_run ops q'' = Inr (q', taken')"
      by (auto simp: map_sum_def split: sum.splits)
    from Taken "4.prems" have "fq_inv q''" "queued q = d # queued q''"
      by (auto intro: dequeue_inv queued_dequeue)
    with Taken "4.IH"(1) [OF Taken, of taken'] "4.prems" t r show ?thesis by simp
  next
    case NothingReady
    with "4.IH"(2) [OF NothingReady] "4.prems" show ?thesis by simp
  next
    case EndOfStream
    with "4.IH"(3) [OF EndOfStream] "4.prems" show ?thesis by simp
  qed
next
  case (5 i ops q)
  show ?case
  proof (cases "releaseFrame i q")
    case (Inl e)
    with "5.prems" show ?thesis by simp
  next
    case (Inr q'')
    with "5.prems" have "fq_inv q''" "queued q'' = queued q"
      by (auto intro: releaseFrame_inv dest: queued_releaseFrame)
    with Inr "5.IH" [OF Inr] "5.prems" show ?thesis by simp
  qed
next
  case (6 ops q)
  then show ?case by (simp add: endDecode_inv)
qed

theorem fq_available_count:
  assumes "fq_inv q"
  shows "available q = capacity q - (count_list (slot_states q) Reserved + count_list (slot_states q) Ready)"
  using fq_inv_slot_counts [OF assms] assms by (simp add: fq_inv_def)

end
