(* ===== verification/Cuvid_State.thy ===== *)
theory Cuvid_State
  imports Frame_Queue
begin

text \<open>
  The data of \<open>CuvidDecode\<close> (src/NVEncCore/src/CuvidDecode.cpp): the CUDA result
  codes, the CUVID structures the decoder fills in or receives, the object's members
  as a record, and the two effects every method shares: \<open>AddMessage\<close> (the log,
  kept as the list of emitted messages) and the structured-exception guard
  \<open>__try { ... } __except(1)\<close> around calls into the driver.
  Calls into the driver are recorded, in order, in \<open>api_trace\<close>, so that ordering
  properties (destroy order, lock balance) are statements about the trace.
  What the driver answers is an input: \<open>cu_call\<close> is the outcome of one driver call,
  a result code or a structured exception.
\<close>

section \<open>Driver results and guarded calls\<close>

datatype CUresult =
    CUDA_SUCCESS
  | CUDA_ERROR_OUT_OF_MEMORY
  | CUDA_ERROR_NOT_FOUND
  | CUDA_ERROR_UNKNOWN
  | CUDA_ERROR_CODE nat

datatype cu_call = CallReturns CUresult | CallFaults

datatype log_level = NV_LOG_TRACE | NV_LOG_DEBUG | NV_LOG_INFO | NV_LOG_WARN | NV_LOG_ERROR

text \<open>
  Undefined behaviour and escaping C++ exceptions of the source are values, so that
  no branch of the model is hidden in an unspecified HOL term.
\<close>

datatype fault =
    NullFrameQueue       \<comment> \<open>\<open>m_pFrameQueue->\<dots>\<close> with \<open>m_pFrameQueue == nullptr\<close>\<close>
  | BufferOverrun        \<comment> \<open>\<open>memcpy\<close> past \<open>raw_seqhdr_data\<close> or past the source\<close>
  | BadAlloc             \<comment> \<open>\<open>new CUVIDFrameQueue\<close> throws \<open>std::bad_alloc\<close>\<close>

section \<open>CUVID structures\<close>

datatype cudaVideoChromaFormat =
    cudaVideoChromaFormat_Monochrome | cudaVideoChromaFormat_420
  | cudaVideoChromaFormat_422 | cudaVideoChromaFormat_444

datatype cudaVideoSurfaceFormat = cudaVideoSurfaceFormat_NV12

datatype cudaVideoCreateFlags = cudaVideoCreate_Default | cudaVideoCreate_PreferCUVID

type_synonym cudaVideoCodec = nat
type_synonym CUvideoctxlock = nat

text \<open>\<open>CUVIDEOFORMAT\<close>, as far as \<open>DecVideoSequence\<close> reads it.\<close>

record video_format =
  format_codec :: cudaVideoCodec
  coded_width :: uint32
  coded_height :: uint32
  chroma_format :: cudaVideoChromaFormat

text \<open>\<open>CUVIDPICPARAMS\<close>: only the target slot is read by the decoder object.\<close>

record pic_params =
  CurrPicIdx :: int

record display_rect =
  rect_left :: short
  rect_top :: short
  rect_right :: short
  rect_bottom :: short

text \<open>\<open>CUVIDDECODECREATEINFO\<close>, the fields \<open>InitDecode\<close> writes.\<close>

record decode_create_info =
  CodecType :: cudaVideoCodec
  ulWidth :: ulong
  ulHeight :: ulong
  ulNumDecodeSurfaces :: ulong
  ChromaFormat :: cudaVideoChromaFormat
  OutputFormat :: cudaVideoSurfaceFormat
  ulTargetWidth :: ulong
  ulTargetHeight :: ulong
  display_area :: display_rect
  ulNumOutputSurfaces :: ulong
  ulCreationFlags :: cudaVideoCreateFlags
  vidLock :: "CUvideoctxlock option"

text \<open>\<open>CUVIDEOFORMATEX\<close>: the sequence header buffer and its length.\<close>

record video_format_ex =
  raw_seqhdr_data :: "8 word list"
  seqhdr_data_length :: uint32

text \<open>\<open>CUVIDPARSERPARAMS\<close>; the three callback pointers are always the handlers of
  this object, so they are not fields here.\<close>

record parser_params =
  parser_codec :: cudaVideoCodec
  ulMaxNumDecodeSurfaces :: ulong
  ulMaxDisplayDelay :: ulong
  pExtVideoInfo :: video_format_ex

text \<open>\<open>CUVIDSOURCEDATAPACKET\<close>.\<close>

record source_packet =
  flags :: ulong
  payload_size :: ulong
  payload :: "8 word list"
  timestamp :: int

text \<open>\<open>InputVideoInfo\<close>, the fields \<open>InitDecode\<close> reads; \<open>codecExtra\<close> is
  \<open>None\<close> for a null pointer.\<close>

record input_video_info =
  width :: int
  height :: int
  codedWidth :: int
  codedHeight :: int
  dstWidth :: int
  dstHeight :: int
  crop_left :: int
  crop_up :: int
  crop_right :: int
  crop_bottom :: int
  codec :: cudaVideoCodec
  codecExtra :: "8 word list option"
  codecExtraSize :: nat

text \<open>A call into the driver, as recorded in the trace.\<close>

datatype api_call =
    Api_cuvidCreateVideoParser parser_params
  | Api_cuvidDestroyVideoParser
  | Api_cuvidCreateDecoder decode_create_info
  | Api_cuvidDestroyDecoder
  | Api_cuvidParseVideoData source_packet
  | Api_cuvidDecodePicture int
  | Api_cuvidCtxLock
  | Api_cuvidCtxUnlock

section \<open>The decoder object\<close>

text \<open>
  The members of \<open>CuvidDecode\<close>. Driver handles are kept as whether they are
  non-null; \<open>m_pPrintMes\<close> as whether a logger is attached.
\<close>

record cuvid_decode =
  m_pFrameQueue :: "frame_queue option"
  m_decodedFrames :: int
  m_videoParser :: bool
  m_videoDecoder :: bool
  m_ctxLock :: "CUvideoctxlock option"
  m_pPrintMes :: bool
  m_bIgnoreDynamicFormatChange :: bool
  m_bError :: bool
  m_videoDecodeCreateInfo :: decode_create_info
  m_videoFormatEx :: video_format_ex
  messages :: "(log_level \<times> string) list"
  api_trace :: "api_call list"

text \<open>\<open>memset(&x, 0, sizeof(x))\<close> of the two driver structures.\<close>

definition zero_create_info :: decode_create_info where
  "zero_create_info =
     \<lparr>CodecType = 0, ulWidth = 0, ulHeight = 0, ulNumDecodeSurfaces = 0,
      ChromaFormat = cudaVideoChromaFormat_Monochrome,
      OutputFormat = cudaVideoSurfaceFormat_NV12,
      ulTargetWidth = 0, ulTargetHeight = 0,
      display_area = \<lparr>rect_left = 0, rect_top = 0, rect_right = 0, rect_bottom = 0\<rparr>,
      ulNumOutputSurfaces = 0, ulCreationFlags = cudaVideoCreate_Default, vidLock = None\<rparr>"

definition seqhdr_capacity :: nat where
  "seqhdr_capacity = 1024"

definition zero_format_ex :: video_format_ex where
  "zero_format_ex = \<lparr>raw_seqhdr_data = replicate seqhdr_capacity 0, seqhdr_data_length = 0\<rparr>"

text \<open>The constructor \<open>CuvidDecode::CuvidDecode()\<close>.\<close>

definition CuvidDecode_new :: cuvid_decode where
  "CuvidDecode_new =
     \<lparr>m_pFrameQueue = None, m_decodedFrames = 0, m_videoParser = False,
      m_videoDecoder = False, m_ctxLock = None, m_pPrintMes = False,
      m_bIgnoreDynamicFormatChange = False, m_bError = False,
      m_videoDecodeCreateInfo = zero_create_info, m_videoFormatEx = zero_format_ex,
      messages = [], api_trace = []\<rparr>"

definition AddMessage :: "log_level \<Rightarrow> string \<Rightarrow> cuvid_decode \<Rightarrow> cuvid_decode" where
  "AddMessage lvl msg st = st\<lparr>messages := messages st @ [(lvl, msg)]\<rparr>"

definition api :: "api_call \<Rightarrow> cuvid_decode \<Rightarrow> cuvid_decode" where
  "api c st = st\<lparr>api_trace := api_trace st @ [c]\<rparr>"

text \<open>
  \<open>__try { r = call; } __except(1) { AddMessage(NV_LOG_ERROR, msg); r = CUDA_ERROR_UNKNOWN; }\<close>
\<close>

definition guarded :: "string \<Rightarrow> cu_call \<Rightarrow> cuvid_decode \<Rightarrow> CUresult \<times> cuvid_decode" where
  "guarded msg c st =
     (case c of
        CallReturns r \<Rightarrow> (r, st)
      | CallFaults \<Rightarrow> (CUDA_ERROR_UNKNOWN, AddMessage NV_LOG_ERROR msg st))"

text \<open>The frame queue's capacity, \<open>FrameQueue::cnMaximumSize\<close>.\<close>

definition cnMaximumSize :: nat where
  "cnMaximumSize = 20"

declare AddMessage_def [session_simps] api_def [session_simps] guarded_def [session_simps]

text \<open>
  The object invariant: a parser exists only with a frame queue behind it (the
  parser's callbacks dereference \<open>m_pFrameQueue\<close>), a decoder only with a parser,
  and the frame queue is a well-formed pool of \<open>cnMaximumSize\<close> slots.
\<close>

definition session_inv :: "cuvid_decode \<Rightarrow> bool" where
  "session_inv st \<longleftrightarrow>
     (case m_pFrameQueue st of
        None \<Rightarrow> \<not> m_videoParser st
      | Some q \<Rightarrow> fq_inv q \<and> capacity q = cnMaximumSize) \<and>
     (m_videoDecoder st \<longrightarrow> m_videoParser st)"

section \<open>Facts of the shared effects\<close>

lemma AddMessage_fields [simp]:
  "m_pFrameQueue (AddMessage l m st) = m_pFrameQueue st"
  "m_decodedFrames (AddMessage l m st) = m_decodedFrames st"
  "m_videoParser (AddMessage l m st) = m_videoParser st"
  "m_videoDecoder (AddMessage l m st) = m_videoDecoder st"
  "m_ctxLock (AddMessage l m st) = m_ctxLock st"
  "m_pPrintMes (AddMessage l m st) = m_pPrintMes st"
  "m_bIgnoreDynamicFormatChange (AddMessage l m st) = m_bIgnoreDynamicFormatChange st"
  "m_bError (AddMessage l m st) = m_bError st"
  "m_videoDecodeCreateInfo (AddMessage l m st) = m_videoDecodeCreateInfo st"
  "m_videoFormatEx (AddMessage l m st) = m_videoFormatEx st"
  "api_trace (AddMessage l m st) = api_trace st"
  "messages (AddMessage l m st) = messages st @ [(l, m)]"
  by (simp_all add: AddMessage_def)

lemma api_fields [simp]:
  "m_pFrameQueue (api c st) = m_pFrameQueue st"
  "m_decodedFrames (api c st) = m_decodedFrames st"
  "m_videoParser (api c st) = m_videoParser st"
  "m_videoDecoder (api c st) = m_videoDecoder st"
  "m_ctxLock (api c st) = m_ctxLock st"
  "m_pPrintMes (api c st) = m_pPrintMes st"
  "m_bIgnoreDynamicFormatChange (api c st) = m_bIgnoreDynamicFormatChange st"
  "m_bError (api c st) = m_bError st"
  "m_videoDecodeCreateInfo (api c st) = m_videoDecodeCreateInfo st"
  "m_videoFormatEx (api c st) = m_videoFormatEx st"
  "messages (api c st) = messages st"
  "api_trace (api c st) = api_trace st @ [c]"
  by (simp_all add: api_def)

text \<open>A guarded call changes nothing but the log, and turns a fault into
  \<open>CUDA_ERROR_UNKNOWN\<close> with an error message.\<close>

lemma guarded_frame:
  "guarded msg c st = (r, st') \<Longrightarrow>
     st' = st \<or> st' = AddMessage NV_LOG_ERROR msg st"
  by (auto simp: guarded_def split: cu_call.splits)

lemma guarded_fault:
  "guarded msg CallFaults st = (CUDA_ERROR_UNKNOWN, AddMessage NV_LOG_ERROR msg st)"
  by (simp add: guarded_def)

lemma session_inv_AddMessage [simp]: "session_inv (AddMessage l m st) = session_inv st"
  by (simp add: session_inv_def split: option.split)

lemma session_inv_api [simp]: "session_inv (api c st) = session_inv st"
  by (simp add: session_inv_def split: option.split)

lemma guarded_session_inv:
  "guarded msg c st = (r, st') \<Longrightarrow> session_inv st' = session_inv st"
  by (auto simp: guarded_def split: cu_call.splits)

lemma guarded_returns:
  "guarded msg (CallReturns r) st = (r, st)"
  by (simp add: guarded_def)

end
