(* ===== verification/Format_Negotiation.thy ===== *)
theory Format_Negotiation
  imports Cuvid_State
begin

text \<open>
  Format negotiation: the sequence callback \<open>CuvidDecode::DecVideoSequence\<close>
  (CuvidDecode.cpp lines 90--107). It compares the incoming \<open>CUVIDEOFORMAT\<close> with
  the cached \<open>m_videoDecodeCreateInfo\<close> on codec, coded width, coded height and
  chroma format; on a difference it logs, overwrites those four cached fields and,
  unless dynamic format changes are ignored, sets the sticky error flag; it answers
  0 to the parser on any difference and 1 otherwise.
\<close>

section \<open>Definitions\<close>

definition format_matches :: "video_format \<Rightarrow> decode_create_info \<Rightarrow> bool" where
  "format_matches f ci \<longleftrightarrow>
     format_codec f = CodecType ci \<and> coded_width f = ulWidth ci \<and>
     coded_height f = ulHeight ci \<and> chroma_format f = ChromaFormat ci"

definition adopt_format :: "video_format \<Rightarrow> decode_create_info \<Rightarrow> decode_create_info" where
  "adopt_format f ci =
     ci\<lparr>CodecType := format_codec f, ulWidth := coded_width f,
        ulHeight := coded_height f, ChromaFormat := chroma_format f\<rparr>"

definition DecVideoSequence :: "video_format \<Rightarrow> cuvid_decode \<Rightarrow> int \<times> cuvid_decode" where
  "DecVideoSequence f st0 =
     (let st1 = AddMessage NV_LOG_TRACE ''DecVideoSequence'' st0 in
      if \<not> format_matches f (m_videoDecodeCreateInfo st1) then
        (let st2 = AddMessage (if m_bIgnoreDynamicFormatChange st1 then NV_LOG_DEBUG else NV_LOG_ERROR)
                     ''dynamic video format changing detected'' st1;
             st3 = st2\<lparr>m_videoDecodeCreateInfo := adopt_format f (m_videoDecodeCreateInfo st2)\<rparr>;
             st4 = (if \<not> m_bIgnoreDynamicFormatChange st3 then st3\<lparr>m_bError := True\<rparr> else st3)
         in (0, st4))
      else (1, st1))"

declare DecVideoSequence_def [session_simps]

section \<open>Behaviour\<close>

lemma format_matches_adopt [simp]: "format_matches f (adopt_format f ci)"
  by (simp add: format_matches_def adopt_format_def)

lemma adopt_format_keeps [simp]:
  "ulTargetWidth (adopt_format f ci) = ulTargetWidth ci"
  "ulTargetHeight (adopt_format f ci) = ulTargetHeight ci"
  "display_area (adopt_format f ci) = display_area ci"
  "ulNumDecodeSurfaces (adopt_format f ci) = ulNumDecodeSurfaces ci"
  "OutputFormat (adopt_format f ci) = OutputFormat ci"
  by (simp_all add: adopt_format_def)

lemma adopt_format_same: "format_matches f ci \<Longrightarrow> adopt_format f ci = ci"
  by (simp add: format_matches_def adopt_format_def)

lemma DecVideoSequence_matching:
  "format_matches f (m_videoDecodeCreateInfo st) \<Longrightarrow>
   DecVideoSequence f st = (1, AddMessage NV_LOG_TRACE ''DecVideoSequence'' st)"
  by (simp add: DecVideoSequence_def)

lemma DecVideoSequence_frame:
  "m_pFrameQueue (snd (DecVideoSequence f st)) = m_pFrameQueue st \<and>
   m_decodedFrames (snd (DecVideoSequence f st)) = m_decodedFrames st \<and>
   m_videoParser (snd (DecVideoSequence f st)) = m_videoParser st \<and>
   m_videoDecoder (snd (DecVideoSequence f st)) = m_videoDecoder st \<and>
   api_trace (snd (DecVideoSequence f st)) = api_trace st \<and>
   m_bIgnoreDynamicFormatChange (snd (DecVideoSequence f st)) = m_bIgnoreDynamicFormatChange st \<and>
   m_videoFormatEx (snd (DecVideoSequence f st)) = m_videoFormatEx st"
  by (simp add: DecVideoSequence_def Let_def)

text \<open>
  C4: the sequence callback's whole contract. It answers 1 exactly when codec, coded
  width, coded height and chroma format all equal the cached descriptor; afterwards
  the cached descriptor always equals the incoming format on those four fields and
  is unchanged elsewhere (target size, display area); the error flag is set exactly
  when the format differs and changes are not tolerated, and is never cleared.
\<close>

theorem DecVideoSequence_contract:
  "fst (DecVideoSequence f st) = (if format_matches f (m_videoDecodeCreateInfo st) then 1 else 0) \<and>
   m_videoDecodeCreateInfo (snd (DecVideoSequence f st)) = adopt_format f (m_videoDecodeCreateInfo st) \<and>
   m_bError (snd (DecVideoSequence f st)) =
     (if format_matches f (m_videoDecodeCreateInfo st) then m_bError st
      else if m_bIgnoreDynamicFormatChange st then m_bError st else True)"
  by (auto simp: DecVideoSequence_def Let_def adopt_format_same)

end
