(* ===== verification/Decode_Callbacks.thy ===== *)
theory Decode_Callbacks
  imports Format_Negotiation
begin

text \<open>
  The parser callbacks of \<open>CuvidDecode\<close> and how the parser drives them.
  \<open>DecPictureDecode\<close> (CuvidDecode.cpp lines 72--88) waits on the frame queue for the
  target slot and then calls \<open>cuvidDecodePicture\<close>; \<open>DecPictureDisplay\<close> (lines
  109--115) publishes the picture to the frame queue and counts it. The static
  trampolines \<open>HandleVideoSequence\<close>, \<open>HandlePictureDecode\<close>,
  \<open>HandlePictureDisplay\<close> (lines 30--43) forward to the object.

  \<open>cuvidParseVideoData\<close> calls the callbacks synchronously, in the order the parser
  chooses; that order is an input (\<open>parser_callback list\<close>). The wait in
  \<open>DecPictureDecode\<close> is the one place where the calling thread blocks: the
  callback then stays pending as \<open>WaitingDecode\<close> (its trace message already
  written) until the slot is released, and \<open>run_pending\<close> stops there.
\<close>

section \<open>Definitions\<close>

datatype parser_callback =
    SequenceCallback video_format
  | DecodePictureCallback pic_params cu_call  \<comment> \<open>with the outcome of \<open>cuvidDecodePicture\<close>\<close>
  | DisplayPictureCallback disp_info

datatype pending = Callback parser_callback | WaitingDecode pic_params cu_call

datatype cb_status = CbBlocked cuvid_decode | CbReturn int cuvid_decode

text \<open>
  Lines 74--87 after the trace message: \<open>waitUntilFrameAvailable\<close> either blocks
  or returns; its answer is not looked at, and the picture is decoded in any case.
\<close>

definition decode_after_wait :: "pic_params \<Rightarrow> cu_call \<Rightarrow> cuvid_decode \<Rightarrow> fault + cb_status" where
  "decode_after_wait pp dec st =
     (case m_pFrameQueue st of
        None \<Rightarrow> Inl NullFrameQueue
      | Some q \<Rightarrow>
          (case waitUntilFrameAvailable (CurrPicIdx pp) q of
             Inr MustWait \<Rightarrow> Inr (CbBlocked st)
           | w \<Rightarrow>
               (let st1 = (case w of Inr (Acquired q') \<Rightarrow> st\<lparr>m_pFrameQueue := Some q'\<rparr> | _ \<Rightarrow> st);
                    (r, st2) = guarded ''cuvidDecodePicture error'' dec
                                 (api (Api_cuvidDecodePicture (CurrPicIdx pp)) st1);
                    st3 = (if r \<noteq> CUDA_SUCCESS then st2\<lparr>m_bError := True\<rparr> else st2)
                in Inr (CbReturn (if r = CUDA_SUCCESS then 1 else 0) st3))))"

definition DecPictureDecode :: "pic_params \<Rightarrow> cu_call \<Rightarrow> cuvid_decode \<Rightarrow> fault + cb_status" where
  "DecPictureDecode pp dec st =
     decode_after_wait pp dec (AddMessage NV_LOG_TRACE ''DecPictureDecode idx'' st)"

definition DecPictureDisplay :: "disp_info \<Rightarrow> cuvid_decode \<Rightarrow> fault + int \<times> cuvid_decode" where
  "DecPictureDisplay d st0 =
     (let st1 = AddMessage NV_LOG_TRACE ''DecPictureDisplay idx'' st0 in
      case m_pFrameQueue st1 of
        None \<Rightarrow> Inl NullFrameQueue
      | Some q \<Rightarrow>
          Inr (1, st1\<lparr>m_pFrameQueue := Some (case enqueue d q of Inl _ \<Rightarrow> q | Inr q' \<Rightarrow> q'),
                      m_decodedFrames := m_decodedFrames st1 + 1\<rparr>))"

text \<open>The trampolines: \<open>((CuvidDecode* )pUserData)->Dec\<dots>(p)\<close>.\<close>

definition handle_callback :: "parser_callback \<Rightarrow> cuvid_decode \<Rightarrow> fault + cb_status" where
  "handle_callback cb st =
     (case cb of
        SequenceCallback f \<Rightarrow> Inr (case DecVideoSequence f st of (r, st') \<Rightarrow> CbReturn r st')
      | DecodePictureCallback pp dec \<Rightarrow> DecPictureDecode pp dec st
      | DisplayPictureCallback d \<Rightarrow>
          (case DecPictureDisplay d st of Inl e \<Rightarrow> Inl e | Inr (r, st') \<Rightarrow> Inr (CbReturn r st')))"

definition step_pending :: "pending \<Rightarrow> cuvid_decode \<Rightarrow> fault + cb_status" where
  "step_pending p st =
     (case p of
        Callback cb \<Rightarrow> handle_callback cb st
      | WaitingDecode pp dec \<Rightarrow> decode_after_wait pp dec st)"

fun blocked_form :: "pending \<Rightarrow> pending" where
  "blocked_form (Callback (DecodePictureCallback pp dec)) = WaitingDecode pp dec"
| "blocked_form p = p"

text \<open>
  The callbacks of one \<open>cuvidParseVideoData\<close>, in order, until one blocks: the
  pending rest (empty when all returned) and the object's state.
\<close>

fun run_pending :: "pending list \<Rightarrow> cuvid_decode \<Rightarrow> fault + pending list \<times> cuvid_decode" where
  "run_pending [] st = Inr ([], st)"
| "run_pending (p # ps) st =
     (case step_pending p st of
        Inl e \<Rightarrow> Inl e
      | Inr (CbBlocked st') \<Rightarrow> Inr (blocked_form p # ps, st')
      | Inr (CbReturn _ st') \<Rightarrow> run_pending ps st')"

definition cb_state :: "cb_status \<Rightarrow> cuvid_decode" where
  "cb_state s = (case s of CbBlocked st \<Rightarrow> st | CbReturn _ st \<Rightarrow> st)"

text \<open>
  What a callback leaves alone: the driver handles, the lock, the logger, the
  tolerance flag, the header buffer, whether there is a frame queue; and the error
  flag, once set, stays set.
\<close>

definition cb_frame :: "cuvid_decode \<Rightarrow> cuvid_decode \<Rightarrow> bool" where
  "cb_frame st st' \<longleftrightarrow>
     m_videoParser st' = m_videoParser st \<and> m_videoDecoder st' = m_videoDecoder st \<and>
     m_ctxLock st' = m_ctxLock st \<and> m_pPrintMes st' = m_pPrintMes st \<and>
     m_bIgnoreDynamicFormatChange st' = m_bIgnoreDynamicFormatChange st \<and>
     m_videoFormatEx st' = m_videoFormatEx st \<and>
     (m_pFrameQueue st' = None \<longleftrightarrow> m_pFrameQueue st = None) \<and>
     (m_bError st \<longrightarrow> m_bError st')"

declare decode_after_wait_def [session_simps] DecPictureDecode_def [session_simps]
  DecPictureDisplay_def [session_simps] handle_callback_def [session_simps]
  step_pending_def [session_simps]

subsection \<open>Concrete states for the examples\<close>

definition ex_pool :: "slot_state list \<Rightarrow> bool \<Rightarrow> frame_queue" where
  "ex_pool ss ended =
     \<lparr>capacity = length ss, frame_width = 1920, frame_height = 1080, slot_states = ss,
      display_ring = replicate (length ss) empty_disp_info, read_position = 0,
      frames_in_queue = 0, available = count_list ss Free, end_of_decode = ended\<rparr>"

definition ex_session :: "frame_queue \<Rightarrow> cuvid_decode" where
  "ex_session q = CuvidDecode_new\<lparr>m_pFrameQueue := Some q, m_videoParser := True, m_videoDecoder := True\<rparr>"

text \<open>
  The driver calls a callback can make: \<open>cuvidDecodePicture\<close> only.
\<close>

definition decode_calls :: "api_call list \<Rightarrow> bool" where
  "decode_calls cs \<longleftrightarrow> (\<forall>c \<in> set cs. \<exists>i. c = Api_cuvidDecodePicture i)"

section \<open>Frame conditions and the object invariant\<close>

lemma waitUntilFrameAvailable_MustWait:
  "waitUntilFrameAvailable i q = Inr MustWait \<longleftrightarrow>
     \<not> end_of_decode q \<and> 0 \<le> i \<and> nat i < capacity q \<and> slot_states q ! nat i \<noteq> Free"
  by (auto simp: waitUntilFrameAvailable_def slot_index_def)

lemma decode_after_wait_session_inv:
  assumes "session_inv st" and "decode_after_wait pp dec st = Inr s"
  shows "session_inv (case s of CbBlocked st' \<Rightarrow> st' | CbReturn r st' \<Rightarrow> st')"
proof (cases "m_pFrameQueue st")
  case None
  with assms show ?thesis by (simp add: decode_after_wait_def)
next
  case (Some q)
  with assms(1) have q: "fq_inv q" "capacity q = cnMaximumSize"
    by (simp_all add: session_inv_def)
  show ?thesis
  proof (cases "waitUntilFrameAvailable (CurrPicIdx pp) q")
    case (Inl e)
    with Some assms show ?thesis
      by (auto simp: decode_after_wait_def guarded_def session_inv_def Let_def split: cu_call.splits)
  next
    case (Inr w)
    show ?thesis
    proof (cases w)
      case (Acquired q')
      with Inr q have "fq_inv q'" "capacity q' = cnMaximumSize"
        by (auto intro: waitUntilFrameAvailable_inv simp: waitUntilFrameAvailable_Acquired)
      with Some Inr Acquired assms show ?thesis
        by (auto simp: decode_after_wait_def guarded_def session_inv_def Let_def split: cu_call.splits)
    qed (use Some Inr assms in \<open>auto simp: decode_after_wait_def guarded_def session_inv_def Let_def split: cu_call.splits\<close>)
  qed
qed

lemma cb_frame_refl [simp]: "cb_frame st st"
  by (simp add: cb_frame_def)

lemma cb_frame_trans: "cb_frame a b \<Longrightarrow> cb_frame b c \<Longrightarrow> cb_frame a c"
  by (auto simp: cb_frame_def)

lemma cb_frame_AddMessage [simp]: "cb_frame st (AddMessage l m st)"
  by (simp add: cb_frame_def)

lemma decode_after_wait_frame:
  "decode_after_wait pp dec st = Inr s \<Longrightarrow> cb_frame st (cb_state s)"
  by (auto simp: decode_after_wait_def guarded_def cb_frame_def cb_state_def Let_def
           split: option.splits sum.splits wait_result.splits cu_call.splits if_splits)

lemma DecPictureDisplay_frame:
  "DecPictureDisplay d st = Inr (r, st') \<Longrightarrow> cb_frame st st'"
  by (auto simp: DecPictureDisplay_def cb_frame_def Let_def split: option.splits)

lemma DecVideoSequence_cb_frame: "DecVideoSequence f st = (r, st') \<Longrightarrow> cb_frame st st'"
  by (auto simp: DecVideoSequence_def cb_frame_def Let_def split: if_splits)

lemma DecPictureDisplay_session_inv:
  assumes "session_inv st" and "DecPictureDisplay d st = Inr (r, st')"
  shows "session_inv st'"
proof -
  from assms(2) obtain q where q: "m_pFrameQueue st = Some q"
    by (auto simp: DecPictureDisplay_def Let_def split: option.splits)
  with assms(1) have "fq_inv q" "capacity q = cnMaximumSize" by (simp_all add: session_inv_def)
  then have "fq_inv (case enqueue d q of Inl _ \<Rightarrow> q | Inr q' \<Rightarrow> q')"
    and "capacity (case enqueue d q of Inl _ \<Rightarrow> q | Inr q' \<Rightarrow> q') = cnMaximumSize"
    by (auto intro: enqueue_inv simp: enqueue_Inr split: sum.split)
  with assms q show ?thesis
    by (auto simp: DecPictureDisplay_def session_inv_def Let_def)
qed

lemma DecVideoSequence_session_inv:
  "DecVideoSequence f st = (r, st') \<Longrightarrow> session_inv st' = session_inv st"
  by (auto simp: DecVideoSequence_def session_inv_def Let_def split: if_splits option.splits)

lemma handle_callback_frame_inv:
  assumes "handle_callback cb st = Inr s"
  shows "cb_frame st (cb_state s) \<and> (session_inv st \<longrightarrow> session_inv (cb_state s))"
proof (cases cb)
  case (SequenceCallback f)
  with assms show ?thesis
    by (auto simp: handle_callback_def cb_state_def DecVideoSequence_cb_frame
                   DecVideoSequence_session_inv split: prod.splits)
next
  case (DecodePictureCallback pp dec)
  let ?st1 = "AddMessage NV_LOG_TRACE ''DecPictureDecode idx'' st"
  from DecodePictureCallback assms have dw: "decode_after_wait pp dec ?st1 = Inr s"
    by (simp add: handle_callback_def DecPictureDecode_def)
  have "cb_frame st (cb_state s)"
    using cb_frame_AddMessage decode_after_wait_frame [OF dw] by (rule cb_frame_trans)
  moreover have "session_inv st \<longrightarrow> session_inv (cb_state s)"
    using decode_after_wait_session_inv [of ?st1, OF _ dw] by (simp add: cb_state_def)
  ultimately show ?thesis by simp
next
  case (DisplayPictureCallback d)
  with assms obtain r st' where "DecPictureDisplay d st = Inr (r, st')" "s = CbReturn r st'"
    by (auto simp: handle_callback_def split: sum.splits)
  then show ?thesis
    by (auto simp: cb_state_def dest: DecPictureDisplay_frame DecPictureDisplay_session_inv)
qed

lemma step_pending_frame_inv:
  assumes "step_pending p st = Inr s"
  shows "cb_frame st (cb_state s) \<and> (session_inv st \<longrightarrow> session_inv (cb_state s))"
proof (cases p)
  case (Callback cb)
  with assms handle_callback_frame_inv show ?thesis by (simp add: step_pending_def)
next
  case (WaitingDecode pp dec)
  with assms decode_after_wait_session_inv [of st pp dec s] show ?thesis
    by (auto simp: step_pending_def cb_state_def dest: decode_after_wait_frame)
qed

lemma run_pending_frame_inv:
  "run_pending ps st = Inr (ps', st') \<Longrightarrow>
     cb_frame st st' \<and> (session_inv st \<longrightarrow> session_inv st')"
proof (induction ps st rule: run_pending.induct)
  case (1 st)
  then show ?case by simp
next
  case (2 p ps st)
  show ?case
  proof (cases "step_pending p st")
    case (Inl e)
    with "2.prems" show ?thesis by simp
  next
    case (Inr s)
    note fi = step_pending_frame_inv [OF Inr]
    show ?thesis
    proof (cases s)
      case (CbBlocked st1)
      with Inr "2.prems" fi show ?thesis by (auto simp: cb_state_def)
    next
      case (CbReturn r st1)
      with Inr "2.prems" have "run_pending ps st1 = Inr (ps', st')" by simp
      with "2.IH" [OF Inr CbReturn] fi CbReturn show ?thesis
        by (auto simp: cb_state_def intro: cb_frame_trans)
    qed
  qed
qed

section \<open>Driver calls and faults of the callbacks\<close>

lemma decode_calls_simps [simp]:
  "decode_calls []"
  "decode_calls (xs @ ys) = (decode_calls xs \<and> decode_calls ys)"
  "decode_calls [Api_cuvidDecodePicture i]"
  by (auto simp: decode_calls_def)

lemma decode_after_wait_trace_cases:
  "decode_after_wait pp dec st = Inr s \<Longrightarrow>
   api_trace (cb_state s) = api_trace st \<or>
   api_trace (cb_state s) = api_trace st @ [Api_cuvidDecodePicture (CurrPicIdx pp)]"
  by (auto simp: decode_after_wait_def guarded_def cb_state_def Let_def
           split: option.splits sum.splits wait_result.splits cu_call.splits if_splits)

lemma decode_after_wait_trace:
  "decode_after_wait pp dec st = Inr s \<Longrightarrow>
   \<exists>new. api_trace (cb_state s) = api_trace st @ new \<and> decode_calls new"
  by (drule decode_after_wait_trace_cases) (metis append_Nil2 decode_calls_simps(1,3))

lemma step_pending_trace:
  "step_pending p st = Inr s \<Longrightarrow>
   \<exists>new. api_trace (cb_state s) = api_trace st @ new \<and> decode_calls new"
proof (cases p)
  case (Callback cb)
  assume a: "step_pending p st = Inr s"
  show ?thesis
  proof (cases cb)
    case (SequenceCallback f)
    with Callback a have "cb_state s = snd (DecVideoSequence f st)"
      by (auto simp: step_pending_def handle_callback_def cb_state_def split: prod.splits)
    then have "api_trace (cb_state s) = api_trace st @ []"
      using DecVideoSequence_frame [of f st] by simp
    then show ?thesis by (metis decode_calls_simps(1))
  next
    case (DecodePictureCallback pp dec)
    with Callback a have "decode_after_wait pp dec (AddMessage NV_LOG_TRACE ''DecPictureDecode idx'' st) = Inr s"
      by (simp add: step_pending_def handle_callback_def DecPictureDecode_def)
    then show ?thesis by (auto dest: decode_after_wait_trace)
  next
    case (DisplayPictureCallback d)
    with Callback a show ?thesis
      by (auto simp: step_pending_def handle_callback_def cb_state_def DecPictureDisplay_def Let_def
               split: option.splits sum.splits)
  qed
next
  case (WaitingDecode pp dec)
  then show "step_pending p st = Inr s \<Longrightarrow> ?thesis"
    by (auto simp: step_pending_def dest: decode_after_wait_trace)
qed

lemma run_pending_trace:
  "run_pending ps st = Inr (ps', st') \<Longrightarrow>
   \<exists>new. api_trace st' = api_trace st @ new \<and> decode_calls new"
proof (induction ps st rule: run_pending.induct)
  case (1 st)
  then show ?case by (auto intro: exI [of _ "[]"])
next
  case (2 p ps st)
  show ?case
  proof (cases "step_pending p st")
    case (Inl e)
    with "2.prems" show ?thesis by simp
  next
    case (Inr s)
    from step_pending_trace [OF Inr] obtain n1
      where n1: "api_trace (cb_state s) = api_trace st @ n1" "decode_calls n1" by blast
    show ?thesis
    proof (cases s)
      case (CbBlocked st1)
      with Inr "2.prems" n1 show ?thesis by (auto simp: cb_state_def)
    next
      case (CbReturn r st1)
      with Inr "2.prems" have "run_pending ps st1 = Inr (ps', st')" by simp
      from "2.IH" [OF Inr CbReturn this] obtain n2
        where "api_trace st' = api_trace st1 @ n2" "decode_calls n2" by blast
      with n1 CbReturn show ?thesis
        by (intro exI [of _ "n1 @ n2"]) (simp add: cb_state_def)
    qed
  qed
qed

lemma step_pending_live:
  assumes "m_pFrameQueue st \<noteq> None"
  shows "\<exists>s. step_pending p st = Inr s"
proof (cases p)
  case (Callback cb)
  with assms show ?thesis
    by (cases cb) (auto simp: step_pending_def handle_callback_def DecPictureDecode_def
                              decode_after_wait_def DecPictureDisplay_def Let_def
                         split: prod.split sum.split wait_result.split)
next
  case (WaitingDecode pp dec)
  with assms show ?thesis
    by (auto simp: step_pending_def decode_after_wait_def Let_def
             split: prod.split sum.split wait_result.split)
qed

lemma run_pending_live:
  "m_pFrameQueue st \<noteq> None \<Longrightarrow> \<exists>r. run_pending ps st = Inr r"
proof (induction ps st rule: run_pending.induct)
  case (1 st)
  then show ?case by simp
next
  case (2 p ps st)
  obtain s where s: "step_pending p st = Inr s" using step_pending_live [OF "2.prems"] by blast
  have "m_pFrameQueue (cb_state s) \<noteq> None"
    using step_pending_frame_inv [OF s] "2.prems" by (simp add: cb_frame_def)
  with s "2.IH" show ?case by (cases s) (auto simp: cb_state_def)
qed

lemma step_pending_no_queue:
  assumes "m_pFrameQueue st = None"
  shows "step_pending p st = Inl NullFrameQueue \<or>
         (\<exists>r st'. step_pending p st = Inr (CbReturn r st') \<and> m_pFrameQueue st' = None)"
proof (cases p)
  case (Callback cb)
  with assms show ?thesis
    by (cases cb) (auto simp: step_pending_def handle_callback_def DecPictureDecode_def
                              decode_after_wait_def DecPictureDisplay_def DecVideoSequence_def Let_def)
next
  case (WaitingDecode pp dec)
  with assms show ?thesis by (simp add: step_pending_def decode_after_wait_def)
qed

lemma run_pending_no_queue:
  "m_pFrameQueue st = None \<Longrightarrow>
   run_pending ps st = Inl NullFrameQueue \<or>
   (\<exists>st'. run_pending ps st = Inr ([], st') \<and> m_pFrameQueue st' = None)"
proof (induction ps st rule: run_pending.induct)
  case (1 st)
  then show ?case by simp
next
  case (2 p ps st)
  from step_pending_no_queue [OF "2.prems", of p] show ?case
  proof
    assume "step_pending p st = Inl NullFrameQueue"
    then show ?thesis by simp
  next
    assume "\<exists>r st'. step_pending p st = Inr (CbReturn r st') \<and> m_pFrameQueue st' = None"
    then obtain r st' where s: "step_pending p st = Inr (CbReturn r st')" "m_pFrameQueue st' = None"
      by blast
    with "2.IH" [OF s(1) refl s(2)] show ?thesis by simp
  qed
qed

section \<open>Properties of the callbacks\<close>

text \<open>
  C1: the decode callback never lets the driver write into a slot that is still
  reserved or held for display: while the stream is live and the target slot is not
  free, the callback blocks, having issued no driver call and changed nothing but the
  trace message.
\<close>

theorem DecPictureDecode_blocks_on_used_slot:
  assumes "m_pFrameQueue st = Some q" and "\<not> end_of_decode q"
    and "slot_index (capacity q) (CurrPicIdx pp) = Some k" and "slot_states q ! k \<noteq> Free"
  shows "DecPictureDecode pp dec st = Inr (CbBlocked (AddMessage NV_LOG_TRACE ''DecPictureDecode idx'' st))"
proof -
  have "waitUntilFrameAvailable (CurrPicIdx pp) q = Inr MustWait"
    using assms(2-4) by (simp add: waitUntilFrameAvailable_def)
  then show ?thesis
    using assms(1) by (simp add: DecPictureDecode_def decode_after_wait_def)
qed

theorem DecPictureDecode_blocks_on_used_slot_witness:
  "m_pFrameQueue (ex_session (ex_pool [Free, Ready] False)) = Some (ex_pool [Free, Ready] False) \<and>
   \<not> end_of_decode (ex_pool [Free, Ready] False) \<and>
   slot_index (capacity (ex_pool [Free, Ready] False)) (CurrPicIdx \<lparr>CurrPicIdx = 1\<rparr>) = Some 1 \<and>
   slot_states (ex_pool [Free, Ready] False) ! 1 \<noteq> Free \<and>
   DecPictureDecode \<lparr>CurrPicIdx = 1\<rparr> (CallReturns CUDA_SUCCESS) (ex_session (ex_pool [Free, Ready] False)) =
     Inr (CbBlocked (AddMessage NV_LOG_TRACE ''DecPictureDecode idx'' (ex_session (ex_pool [Free, Ready] False))))"
proof -
  have h: "m_pFrameQueue (ex_session (ex_pool [Free, Ready] False)) = Some (ex_pool [Free, Ready] False)"
    "\<not> end_of_decode (ex_pool [Free, Ready] False)"
    "slot_index (capacity (ex_pool [Free, Ready] False)) (CurrPicIdx \<lparr>CurrPicIdx = 1\<rparr>) = Some 1"
    "slot_states (ex_pool [Free, Ready] False) ! 1 \<noteq> Free"
    by (simp_all add: ex_session_def ex_pool_def slot_index_def)
  show ?thesis using h DecPictureDecode_blocks_on_used_slot [OF h] by simp
qed

text \<open>
  C2: on a free target slot the decode callback first reserves the slot in the
  frame queue and then issues exactly one \<open>cuvidDecodePicture\<close> for it; it answers 1
  exactly when the driver call succeeded, and any failure (an error code or a
  structured exception) sets the sticky error flag.
\<close>

theorem DecPictureDecode_reserves_then_decodes:
  assumes "m_pFrameQueue st = Some q" and "\<not> end_of_decode q"
    and "slot_index (capacity q) (CurrPicIdx pp) = Some k" and "slot_states q ! k = Free"
  shows "\<exists>r st'. DecPictureDecode pp dec st = Inr (CbReturn r st') \<and>
     m_pFrameQueue st' = Some (q\<lparr>slot_states := (slot_states q)[k := Reserved],
                                 available := available q - 1\<rparr>) \<and>
     api_trace st' = api_trace st @ [Api_cuvidDecodePicture (CurrPicIdx pp)] \<and>
     r = (if dec = CallReturns CUDA_SUCCESS then 1 else 0) \<and>
     m_bError st' = (if dec = CallReturns CUDA_SUCCESS then m_bError st else True)"
proof -
  have "waitUntilFrameAvailable (CurrPicIdx pp) q =
          Inr (Acquired (q\<lparr>slot_states := (slot_states q)[k := Reserved], available := available q - 1\<rparr>))"
    using assms(2-4) by (simp add: waitUntilFrameAvailable_def)
  then show ?thesis
    using assms(1)
    by (cases dec) (auto simp: DecPictureDecode_def decode_after_wait_def guarded_def Let_def)
qed

theorem DecPictureDecode_reserves_then_decodes_witness:
  "m_pFrameQueue (ex_session (ex_pool [Free, Ready] False)) = Some (ex_pool [Free, Ready] False) \<and>
   \<not> end_of_decode (ex_pool [Free, Ready] False) \<and>
   slot_index (capacity (ex_pool [Free, Ready] False)) (CurrPicIdx \<lparr>CurrPicIdx = 0\<rparr>) = Some 0 \<and>
   slot_states (ex_pool [Free, Ready] False) ! 0 = Free \<and>
   (\<exists>r st'. DecPictureDecode \<lparr>CurrPicIdx = 0\<rparr> CallFaults (ex_session (ex_pool [Free, Ready] False)) = Inr (CbReturn r st') \<and>
      m_pFrameQueue st' = Some ((ex_pool [Free, Ready] False)\<lparr>slot_states := [Reserved, Ready], available := 0\<rparr>) \<and>
      api_trace st' = [Api_cuvidDecodePicture 0] \<and> r = 0 \<and> m_bError st')"
proof -
  have h: "m_pFrameQueue (ex_session (ex_pool [Free, Ready] False)) = Some (ex_pool [Free, Ready] False)"
    "\<not> end_of_decode (ex_pool [Free, Ready] False)"
    "slot_index (capacity (ex_pool [Free, Ready] False)) (CurrPicIdx \<lparr>CurrPicIdx = 0\<rparr>) = Some 0"
    "slot_states (ex_pool [Free, Ready] False) ! 0 = Free"
    by (simp_all add: ex_session_def ex_pool_def slot_index_def)
  show ?thesis
    using h DecPictureDecode_reserves_then_decodes [OF h, of CallFaults]
    by (simp add: ex_pool_def ex_session_def CuvidDecode_new_def)
qed

text \<open>
  C5: once the frame queue has ended, the decode callback ignores the wait's
  answer and still calls \<open>cuvidDecodePicture\<close> on the target slot, without
  reserving it, whatever state the slot is in (the witness: a slot held for display).
\<close>

theorem DecPictureDecode_ignores_end_of_decode:
  assumes "m_pFrameQueue st = Some q" and "end_of_decode q"
  shows "\<exists>r st'. DecPictureDecode pp dec st = Inr (CbReturn r st') \<and> m_pFrameQueue st' = Some q \<and>
           api_trace st' = api_trace st @ [Api_cuvidDecodePicture (CurrPicIdx pp)]"
  using assms
  by (cases dec) (auto simp: DecPictureDecode_def decode_after_wait_def waitUntilFrameAvailable_def
                             guarded_def Let_def)

theorem DecPictureDecode_ignores_end_of_decode_witness:
  "m_pFrameQueue (ex_session (ex_pool [Free, Ready] True)) = Some (ex_pool [Free, Ready] True) \<and>
   end_of_decode (ex_pool [Free, Ready] True) \<and>
   slot_states (ex_pool [Free, Ready] True) ! 1 = Ready \<and>
   (\<exists>r st'. DecPictureDecode \<lparr>CurrPicIdx = 1\<rparr> (CallReturns CUDA_SUCCESS)
               (ex_session (ex_pool [Free, Ready] True)) = Inr (CbReturn r st') \<and>
      m_pFrameQueue st' = Some (ex_pool [Free, Ready] True) \<and> api_trace st' = [Api_cuvidDecodePicture 1])"
proof -
  have h: "m_pFrameQueue (ex_session (ex_pool [Free, Ready] True)) = Some (ex_pool [Free, Ready] True)"
    "end_of_decode (ex_pool [Free, Ready] True)"
    by (simp_all add: ex_session_def ex_pool_def)
  show ?thesis
    using h DecPictureDecode_ignores_end_of_decode [OF h, of "\<lparr>CurrPicIdx = 1\<rparr>" "CallReturns CUDA_SUCCESS"]
    by (simp add: ex_pool_def ex_session_def CuvidDecode_new_def)
qed

text \<open>
  C6: a failed \<open>cuvidDecodePicture\<close> sets the sticky error flag but does not end
  the frame queue, so a consumer waiting on an empty queue keeps being told that
  nothing is ready instead of end of stream.
\<close>

theorem DecPictureDecode_failure_leaves_pool_live:
  assumes "m_pFrameQueue st = Some q" and "\<not> end_of_decode q"
    and "slot_index (capacity q) (CurrPicIdx pp) = Some k" and "slot_states q ! k = Free"
    and "dec \<noteq> CallReturns CUDA_SUCCESS" and "frames_in_queue q = 0"
  shows "\<exists>st' q'. DecPictureDecode pp dec st = Inr (CbReturn 0 st') \<and> m_bError st' \<and>
           m_pFrameQueue st' = Some q' \<and> \<not> end_of_decode q' \<and> dequeue q' = NothingReady"
proof -
  have "waitUntilFrameAvailable (CurrPicIdx pp) q =
          Inr (Acquired (q\<lparr>slot_states := (slot_states q)[k := Reserved], available := available q - 1\<rparr>))"
    using assms(2-4) by (simp add: waitUntilFrameAvailable_def)
  then show ?thesis
    using assms(1,2,5,6)
    by (cases dec) (auto simp: DecPictureDecode_def decode_after_wait_def guarded_def Let_def dequeue_def)
qed

text \<open>
  C3: the display callback always answers 1 and increments the decoded-frame
  counter; it appends the picture to the frame queue's FIFO exactly when its slot was
  reserved, and leaves the FIFO unchanged (the publish silently rejected) otherwise;
  the frame queue stays well-formed.
\<close>

theorem DecPictureDisplay_publishes:
  assumes "m_pFrameQueue st = Some q" and "fq_inv q"
  shows "\<exists>st' q'. DecPictureDisplay d st = Inr (1, st') \<and> m_pFrameQueue st' = Some q' \<and>
           m_decodedFrames st' = m_decodedFrames st + 1 \<and> fq_inv q' \<and>
           queued q' = (case slot_index (capacity q) (picture_index d) of
                          Some k \<Rightarrow> (if slot_states q ! k = Reserved then queued q @ [d] else queued q)
                        | None \<Rightarrow> queued q)"
proof (cases "enqueue d q")
  case (Inl e)
  then have "(case slot_index (capacity q) (picture_index d) of
                Some k \<Rightarrow> (if slot_states q ! k = Reserved then queued q @ [d] else queued q)
              | None \<Rightarrow> queued q) = queued q"
    by (auto simp: enqueue_def split: option.splits if_splits)
  with Inl assms show ?thesis by (simp add: DecPictureDisplay_def Let_def)
next
  case (Inr q')
  have "queued q' = queued q @ [d]" "fq_inv q'"
    using queued_enqueue [OF assms(2) Inr] enqueue_inv [OF assms(2) Inr] by simp_all
  moreover have "slot_index (capacity q) (picture_index d) = Some (nat (picture_index d))"
    "slot_states q ! nat (picture_index d) = Reserved"
    using Inr by (auto simp: enqueue_Inr slot_index_def)
  ultimately show ?thesis
    using Inr assms by (simp add: DecPictureDisplay_def Let_def)
qed

theorem DecPictureDecode_failure_leaves_pool_live_witness:
  "m_pFrameQueue (ex_session (ex_pool [Free, Ready] False)) = Some (ex_pool [Free, Ready] False) \<and>
   \<not> end_of_decode (ex_pool [Free, Ready] False) \<and>
   slot_index (capacity (ex_pool [Free, Ready] False)) (CurrPicIdx \<lparr>CurrPicIdx = 0\<rparr>) = Some 0 \<and>
   slot_states (ex_pool [Free, Ready] False) ! 0 = Free \<and> CallFaults \<noteq> CallReturns CUDA_SUCCESS \<and>
   frames_in_queue (ex_pool [Free, Ready] False) = 0 \<and>
   (\<exists>st' q'. DecPictureDecode \<lparr>CurrPicIdx = 0\<rparr> CallFaults (ex_session (ex_pool [Free, Ready] False)) =
       Inr (CbReturn 0 st') \<and> m_bError st' \<and> m_pFrameQueue st' = Some q' \<and> \<not> end_of_decode q' \<and>
       dequeue q' = NothingReady)"
proof -
  have h: "m_pFrameQueue (ex_session (ex_pool [Free, Ready] False)) = Some (ex_pool [Free, Ready] False)"
    "\<not> end_of_decode (ex_pool [Free, Ready] False)"
    "slot_index (capacity (ex_pool [Free, Ready] False)) (CurrPicIdx \<lparr>CurrPicIdx = 0\<rparr>) = Some 0"
    "slot_states (ex_pool [Free, Ready] False) ! 0 = Free" "CallFaults \<noteq> CallReturns CUDA_SUCCESS"
    "frames_in_queue (ex_pool [Free, Ready] False) = 0"
    by (simp_all add: ex_session_def ex_pool_def slot_index_def)
  show ?thesis using h DecPictureDecode_failure_leaves_pool_live [OF h] by simp
qed

theorem DecPictureDisplay_publishes_witness:
  "m_pFrameQueue (ex_session (ex_pool [Reserved, Free] False)) = Some (ex_pool [Reserved, Free] False) \<and>
   fq_inv (ex_pool [Reserved, Free] False) \<and>
   (\<exists>st' q'. DecPictureDisplay empty_disp_info (ex_session (ex_pool [Reserved, Free] False)) = Inr (1, st') \<and>
      m_pFrameQueue st' = Some q' \<and> m_decodedFrames st' = 1 \<and> fq_inv q' \<and> queued q' = [empty_disp_info])"
proof -
  have h: "m_pFrameQueue (ex_session (ex_pool [Reserved, Free] False)) = Some (ex_pool [Reserved, Free] False)"
    "fq_inv (ex_pool [Reserved, Free] False)"
    by (simp_all add: ex_session_def ex_pool_def fq_inv_def queued_def queued_slots_def)
  show ?thesis
    using h DecPictureDisplay_publishes [OF h, of empty_disp_info]
    by (simp add: ex_pool_def ex_session_def CuvidDecode_new_def slot_index_def empty_disp_info_def
                  queued_def)
qed

end
