(* ===== verification/Packet_Feeder.thy ===== *)
theory Packet_Feeder
  imports Complex_Main Decode_Callbacks
begin

unbundle bit_operations_syntax

text \<open>
  The packet feeder of \<open>CuvidDecode\<close>: \<open>DecodePacket\<close> (CuvidDecode.cpp lines
  258--283) builds a \<open>CUVIDSOURCEDATAPACKET\<close> from a compressed packet and hands it
  to \<open>cuvidParseVideoData\<close>; an empty packet is \<open>FlushParser\<close> (lines 239--256),
  which sends the end-of-stream packet and then ends the frame queue;
  \<open>DecVideoData\<close> (lines 56--70, reached through \<open>HandleVideoData\<close>, lines 25--28)
  parses a ready-made packet and sets the error flag when parsing fails.

  One \<open>cuvidParseVideoData\<close> is a \<open>parse_job\<close>: the callbacks the parser makes
  (still pending), the driver's final answer, and which method called it, which says
  what happens once the callbacks have all returned. \<open>run_job\<close> runs the callbacks
  until one blocks (\<open>FeedBlocked\<close>, to be resumed when a slot is released) or to the
  end (\<open>FeedDone\<close> with the method's result).
\<close>

section \<open>Definitions\<close>

record AVRational =
  av_num :: int
  av_den :: int

definition AV_NOPTS_VALUE :: int where
  "AV_NOPTS_VALUE = - (2 ^ 63)"

definition CUVID_NATIVE_TIMEBASE :: AVRational where
  "CUVID_NATIVE_TIMEBASE = \<lparr>av_num = 1, av_den = 10000000\<rparr>"

definition CUVID_PKT_ENDOFSTREAM :: ulong where
  "CUVID_PKT_ENDOFSTREAM = 1"

definition CUVID_PKT_TIMESTAMP :: ulong where
  "CUVID_PKT_TIMESTAMP = 2"

text \<open>
  \<open>av_rescale_q(a, bq, cq)\<close> of libavutil is
  \<open>av_rescale_rnd(a, bq.num * cq.den, cq.num * bq.den, AV_ROUND_NEAR_INF)\<close>.
  \<open>av_rescale_rnd(a, b, c)\<close> answers \<open>INT64_MIN\<close> when \<open>c \<le> 0\<close> or \<open>b < 0\<close>;
  a negative \<open>a\<close> is rescaled as \<open>-(uint64_t)av_rescale_rnd(-FFMAX(a, -INT64_MAX), \<dots>)\<close>
  with the same rounding; a non-negative one is \<open>(a * b + c / 2) / c\<close>, computed
  without overflow, and \<open>INT64_MIN\<close> when that is not representable in 64 bits.
  \<open>rescale_near_inf\<close> is the exact rounding, halves away from zero, on unbounded
  integers; \<open>av_rescale_rnd\<close> adds the guards and the 64-bit range.
\<close>

definition INT64_MAX :: int where
  "INT64_MAX = 2 ^ 63 - 1"

definition INT64_MIN :: int where
  "INT64_MIN = - (2 ^ 63)"

definition rescale_near_inf :: "int \<Rightarrow> int \<Rightarrow> int \<Rightarrow> int" where
  "rescale_near_inf a b c =
     (if a * b < 0 then - ((- (a * b) + c div 2) div c) else (a * b + c div 2) div c)"

definition av_rescale_rnd :: "int \<Rightarrow> int \<Rightarrow> int \<Rightarrow> int" where
  "av_rescale_rnd a b c =
     (if c \<le> 0 \<or> b < 0 then INT64_MIN
      else (let r = rescale_near_inf (max a (- INT64_MAX)) b c
            in if \<bar>r\<bar> \<le> INT64_MAX then r else INT64_MIN))"

definition av_rescale_q :: "int \<Rightarrow> AVRational \<Rightarrow> AVRational \<Rightarrow> int" where
  "av_rescale_q a bq cq = av_rescale_rnd a (av_num bq * av_den cq) (av_num cq * av_den bq)"

text \<open>The reference for that rounding: the exact quotient, rounded to the nearest
  integer with halves away from zero.\<close>

definition round_near_inf :: "rat \<Rightarrow> int" where
  "round_near_inf x = (if x < 0 then - \<lfloor>- x + 1/2\<rfloor> else \<lfloor>x + 1/2\<rfloor>)"

definition zero_packet :: source_packet where
  "zero_packet = \<lparr>flags = 0, payload_size = 0, payload = [], timestamp = 0\<rparr>"

text \<open>Lines 263--272: the packet \<open>DecodePacket\<close> builds for a non-empty payload.\<close>

definition make_packet :: "8 word list \<Rightarrow> nat \<Rightarrow> int \<Rightarrow> AVRational \<Rightarrow> source_packet" where
  "make_packet data nSize ts tb =
     (let pkt = zero_packet\<lparr>payload := data, payload_size := word_of_nat nSize\<rparr>
      in if ts \<noteq> AV_NOPTS_VALUE
         then pkt\<lparr>flags := flags pkt OR CUVID_PKT_TIMESTAMP,
                  timestamp := av_rescale_q ts tb CUVID_NATIVE_TIMEBASE\<rparr>
         else pkt)"

text \<open>Lines 240--243: the end-of-stream packet.\<close>

definition eos_packet :: source_packet where
  "eos_packet = zero_packet\<lparr>flags := flags zero_packet OR CUVID_PKT_ENDOFSTREAM\<rparr>"

text \<open>What the driver does with one packet: the callbacks it makes, in order, and
  the outcome of the call.\<close>

record parse_reply =
  reply_callbacks :: "parser_callback list"
  reply_outcome :: cu_call

datatype parse_caller = FromDecodePacket | FromFlushParser | FromDecVideoData

record parse_job =
  job_pending :: "pending list"
  job_outcome :: cu_call
  job_caller :: parse_caller

datatype feed_status = FeedBlocked parse_job cuvid_decode | FeedDone CUresult cuvid_decode

text \<open>
  After \<open>cuvidParseVideoData\<close> returns: the guard of each caller turns a structured
  exception into \<open>CUDA_ERROR_UNKNOWN\<close>; \<open>FlushParser\<close> then calls
  \<open>m_pFrameQueue->endDecode()\<close> (line 254) whatever the result; \<open>DecVideoData\<close>
  sets the error flag on failure (lines 66--68); \<open>DecodePacket\<close> only returns it.
\<close>

definition finish_parse :: "parse_caller \<Rightarrow> cu_call \<Rightarrow> cuvid_decode \<Rightarrow> fault + CUresult \<times> cuvid_decode" where
  "finish_parse caller c st =
     (case guarded ''cuvidParseVideoData error'' c st of
        (r, st1) \<Rightarrow>
          (case caller of
             FromDecodePacket \<Rightarrow> Inr (r, st1)
           | FromFlushParser \<Rightarrow>
               (case m_pFrameQueue st1 of
                  None \<Rightarrow> Inl NullFrameQueue
                | Some q \<Rightarrow> Inr (r, st1\<lparr>m_pFrameQueue := Some (endDecode q)\<rparr>))
           | FromDecVideoData \<Rightarrow>
               Inr (r, if r \<noteq> CUDA_SUCCESS then st1\<lparr>m_bError := True\<rparr> else st1)))"

definition run_job :: "parse_job \<Rightarrow> cuvid_decode \<Rightarrow> fault + feed_status" where
  "run_job j st =
     (case run_pending (job_pending j) st of
        Inl e \<Rightarrow> Inl e
      | Inr ([], st') \<Rightarrow>
          (case finish_parse (job_caller j) (job_outcome j) st' of
             Inl e \<Rightarrow> Inl e
           | Inr (r, st'') \<Rightarrow> Inr (FeedDone r st''))
      | Inr (ps, st') \<Rightarrow> Inr (FeedBlocked (j\<lparr>job_pending := ps\<rparr>) st'))"

definition parse_video_data ::
  "parse_caller \<Rightarrow> source_packet \<Rightarrow> parse_reply \<Rightarrow> cuvid_decode \<Rightarrow> fault + feed_status" where
  "parse_video_data caller pkt rep st =
     run_job \<lparr>job_pending = map Callback (reply_callbacks rep), job_outcome = reply_outcome rep,
              job_caller = caller\<rparr>
             (api (Api_cuvidParseVideoData pkt) st)"

definition FlushParser :: "parse_reply \<Rightarrow> cuvid_decode \<Rightarrow> fault + feed_status" where
  "FlushParser rep st = parse_video_data FromFlushParser eos_packet rep st"

definition DecodePacket ::
  "8 word list option \<Rightarrow> nat \<Rightarrow> int \<Rightarrow> AVRational \<Rightarrow> parse_reply \<Rightarrow> cuvid_decode \<Rightarrow> fault + feed_status" where
  "DecodePacket data nSize ts tb rep st =
     (case data of
        None \<Rightarrow> FlushParser rep st
      | Some bytes \<Rightarrow>
          (if nSize = 0 then FlushParser rep st
           else parse_video_data FromDecodePacket (make_packet bytes nSize ts tb) rep st))"

definition DecVideoData :: "source_packet \<Rightarrow> parse_reply \<Rightarrow> cuvid_decode \<Rightarrow> fault + feed_status" where
  "DecVideoData pkt rep st = parse_video_data FromDecVideoData pkt rep st"

text \<open>\<open>HandleVideoData\<close>: the trampoline returns \<open>curesult == CUDA_SUCCESS\<close>.\<close>

definition HandleVideoData :: "source_packet \<Rightarrow> parse_reply \<Rightarrow> cuvid_decode \<Rightarrow> fault + (int option \<times> cuvid_decode)" where
  "HandleVideoData pkt rep st =
     (case DecVideoData pkt rep st of
        Inl e \<Rightarrow> Inl e
      | Inr (FeedDone r st') \<Rightarrow> Inr (Some (if r = CUDA_SUCCESS then 1 else 0), st')
      | Inr (FeedBlocked j st') \<Rightarrow> Inr (None, st'))"

declare make_packet_def [session_simps] eos_packet_def [session_simps] finish_parse_def [session_simps]
  run_job_def [session_simps] parse_video_data_def [session_simps] FlushParser_def [session_simps]
  DecodePacket_def [session_simps] DecVideoData_def [session_simps]

definition feed_state :: "feed_status \<Rightarrow> cuvid_decode" where
  "feed_state s = (case s of FeedBlocked j st \<Rightarrow> st | FeedDone r st \<Rightarrow> st)"

definition ex_reply :: "cu_call \<Rightarrow> parse_reply" where
  "ex_reply c = \<lparr>reply_callbacks = [], reply_outcome = c\<rparr>"

section \<open>Packets and timestamps\<close>

text \<open>
  C15: the packet \<open>DecodePacket\<close> hands to the parser carries the payload
  unchanged, its size truncated to 32 bits (\<open>(uint32_t)nSize\<close>), the
  \<open>CUVID_PKT_TIMESTAMP\<close> flag exactly when a timestamp was given, never the
  end-of-stream flag, and the timestamp rescaled to the 10 MHz native time base (0
  when there is none).
\<close>

theorem make_packet_bits:
  "unat (payload_size (make_packet d n ts tb)) = n mod 2 ^ 32 \<and>
   (flags (make_packet d n ts tb) AND CUVID_PKT_TIMESTAMP \<noteq> 0) = (ts \<noteq> AV_NOPTS_VALUE) \<and>
   flags (make_packet d n ts tb) AND CUVID_PKT_ENDOFSTREAM = 0 \<and>
   timestamp (make_packet d n ts tb) = (if ts = AV_NOPTS_VALUE then 0 else av_rescale_q ts tb CUVID_NATIVE_TIMEBASE) \<and>
   payload (make_packet d n ts tb) = d"
  by (simp add: make_packet_def zero_packet_def CUVID_PKT_TIMESTAMP_def CUVID_PKT_ENDOFSTREAM_def
                unat_of_nat Let_def)

lemma eos_bits:
  "flags eos_packet AND CUVID_PKT_ENDOFSTREAM \<noteq> 0 \<and> payload_size eos_packet = 0 \<and> payload eos_packet = []"
  by (simp add: eos_packet_def zero_packet_def CUVID_PKT_ENDOFSTREAM_def)

lemma div_add_small: "0 \<le> r \<Longrightarrow> r < (c::int) \<Longrightarrow> (x * c + r) div c = x"
  by (simp add: div_add1_eq [symmetric])

lemma rescale_exact:
  assumes "0 < c" and "a * b = x * c"
  shows "rescale_near_inf a b c = x"
proof -
  have h: "0 \<le> c div 2" "c div 2 < c" using assms(1) by simp_all
  show ?thesis
  proof (cases "a * b < 0")
    case True
    have e: "- (a * b) + c div 2 = (- x) * c + c div 2" using assms(2) by simp
    have "(- (a * b) + c div 2) div c = - x" by (simp only: e div_add_small [OF h])
    then show ?thesis using True by (simp add: rescale_near_inf_def)
  next
    case False
    have e: "a * b + c div 2 = x * c + c div 2" using assms(2) by simp
    have "(a * b + c div 2) div c = x" by (simp only: e div_add_small [OF h])
    then show ?thesis using False by (simp add: rescale_near_inf_def)
  qed
qed

lemma floor_half_up:
  assumes "0 < c"
  shows "\<lfloor>of_int p / of_int c + 1/2 :: rat\<rfloor> = (p + c div 2) div c"
proof -
  have "of_int p / of_int c + 1/2 = (of_int (2 * p + c) / of_int (2 * c) :: rat)"
    using assms by (simp add: field_simps)
  then have "\<lfloor>of_int p / of_int c + 1/2 :: rat\<rfloor> = (2 * p + c) div (2 * c)"
    by (simp only: floor_divide_of_int_eq)
  also have "\<dots> = (2 * p + c) div 2 div c"
    using assms by (simp add: zdiv_zmult2_eq)
  also have "(2 * p + c) div 2 = p + c div 2" by simp
  finally show ?thesis .
qed

lemma rescale_near_inf_round:
  assumes "0 < c"
  shows "rescale_near_inf a b c = round_near_inf (of_int (a * b) / of_int c)"
proof -
  have neg: "(of_int (a * b) / of_int c < (0::rat)) = (a * b < 0)"
    using assms by (simp add: divide_less_0_iff del: of_int_mult)
  have m: "- (of_int (a * b) / of_int c) = (of_int (- (a * b)) / of_int c :: rat)" by simp
  show ?thesis
    using assms neg
    by (simp add: rescale_near_inf_def round_near_inf_def m floor_half_up del: of_int_minus of_int_mult)
qed

lemma av_rescale_rnd_range:
  assumes "0 < c" and "0 \<le> b" and "- INT64_MAX \<le> a"
  shows "av_rescale_rnd a b c =
           (if \<bar>rescale_near_inf a b c\<bar> \<le> INT64_MAX then rescale_near_inf a b c else INT64_MIN)"
  using assms by (simp add: av_rescale_rnd_def max_def Let_def)

lemma NOPTS_lt_iff: "AV_NOPTS_VALUE < ts \<longleftrightarrow> - INT64_MAX \<le> ts"
  unfolding AV_NOPTS_VALUE_def INT64_MAX_def by arith

text \<open>
  C16: for a stream time base \<open>1/k\<close> with \<open>k\<close> dividing \<open>10^7\<close> (milliseconds and
  microseconds do, 90 kHz does not) and a timestamp that is not the sentinel,
  rescaling to the native time base is exact multiplication when the product fits in
  64 bits and \<open>INT64_MIN\<close> otherwise; when it fits, rescaling back returns the
  original timestamp, and the packet \<open>DecodePacket\<close> builds carries the result.
\<close>

theorem timestamp_rescale_roundtrip:
  assumes "0 < k" and "k dvd 10000000" and "AV_NOPTS_VALUE < ts"
  shows "av_rescale_q ts \<lparr>av_num = 1, av_den = k\<rparr> CUVID_NATIVE_TIMEBASE =
           (if \<bar>ts * (10000000 div k)\<bar> \<le> INT64_MAX then ts * (10000000 div k) else INT64_MIN) \<and>
         (\<bar>ts * (10000000 div k)\<bar> \<le> INT64_MAX \<longrightarrow>
            av_rescale_q (av_rescale_q ts \<lparr>av_num = 1, av_den = k\<rparr> CUVID_NATIVE_TIMEBASE)
                         CUVID_NATIVE_TIMEBASE \<lparr>av_num = 1, av_den = k\<rparr> = ts) \<and>
         timestamp (make_packet d n ts \<lparr>av_num = 1, av_den = k\<rparr>) =
           av_rescale_q ts \<lparr>av_num = 1, av_den = k\<rparr> CUVID_NATIVE_TIMEBASE"
proof -
  from assms(2) obtain m where m: "10000000 = k * m" by (rule dvdE)
  have "(k * m) div k = m" using assms(1) by simp
  then have md: "10000000 div k = m" by (simp only: m)
  have "0 < k * m" using m by simp
  then have m1: "1 \<le> m" using assms(1) by (simp add: zero_less_mult_iff)
  have ts: "- INT64_MAX \<le> ts" using assms(3) by (simp add: NOPTS_lt_iff)
  have ex: "rescale_near_inf ts (1 * 10000000) (1 * k) = ts * m"
    by (rule rescale_exact) (use assms(1) m in \<open>simp_all add: algebra_simps\<close>)
  have fwd: "av_rescale_q ts \<lparr>av_num = 1, av_den = k\<rparr> CUVID_NATIVE_TIMEBASE =
               (if \<bar>ts * m\<bar> \<le> INT64_MAX then ts * m else INT64_MIN)"
    unfolding av_rescale_q_def CUVID_NATIVE_TIMEBASE_def
    using av_rescale_rnd_range [of "1 * k" "1 * 10000000" ts] assms(1) ts ex by simp
  have bwd: "av_rescale_q (ts * m) CUVID_NATIVE_TIMEBASE \<lparr>av_num = 1, av_den = k\<rparr> = ts"
    if fit: "\<bar>ts * m\<bar> \<le> INT64_MAX"
  proof -
    have ex2: "rescale_near_inf (ts * m) (1 * k) (1 * 10000000) = ts"
      by (rule rescale_exact) (use m in \<open>simp_all add: algebra_simps\<close>)
    have "\<bar>ts\<bar> \<le> \<bar>ts * m\<bar>" using m1 by (simp add: abs_mult mult_le_cancel_left1)
    with fit have "\<bar>ts\<bar> \<le> INT64_MAX" by simp
    moreover have "- INT64_MAX \<le> ts * m" using fit by simp
    ultimately show ?thesis
      unfolding av_rescale_q_def CUVID_NATIVE_TIMEBASE_def
      using av_rescale_rnd_range [of "1 * 10000000" "1 * k" "ts * m"] assms(1) ex2 by simp
  qed
  have "ts \<noteq> AV_NOPTS_VALUE" using assms(3) by simp
  then show ?thesis using fwd bwd md by (simp add: make_packet_def zero_packet_def Let_def)
qed

text \<open>
  C26: for every positive time base denominator and every 64-bit timestamp, the
  timestamp \<open>DecodePacket\<close> puts into the packet is: 0 without a timestamp;
  \<open>INT64_MIN\<close> for a negative time base numerator; otherwise the reference, the
  stream timestamp times the time base times \<open>10^7\<close> as an exact rational rounded to
  the nearest integer with halves away from zero, when it fits in 64 bits, and
  \<open>INT64_MIN\<close> when it does not. The integer arithmetic of \<open>av_rescale_q\<close> is that
  rounding.
\<close>

theorem packet_timestamp_rounds_to_nearest:
  assumes "0 < av_den tb" and "AV_NOPTS_VALUE \<le> ts"
  shows "timestamp (make_packet d n ts tb) =
           (if ts = AV_NOPTS_VALUE then 0
            else if av_num tb < 0 then INT64_MIN
            else (let r = round_near_inf (of_int ts * of_int (av_num tb) * 10000000 / of_int (av_den tb))
                  in if \<bar>r\<bar> \<le> INT64_MAX then r else INT64_MIN))"
proof (cases "ts = AV_NOPTS_VALUE")
  case True
  then show ?thesis by (simp add: make_packet_def zero_packet_def Let_def)
next
  case False
  with assms(2) have ts: "- INT64_MAX \<le> ts" by (simp add: NOPTS_lt_iff [symmetric])
  have r: "rescale_near_inf ts (av_num tb * 10000000) (1 * av_den tb) =
             round_near_inf (of_int ts * of_int (av_num tb) * 10000000 / of_int (av_den tb))"
    using rescale_near_inf_round [of "1 * av_den tb" ts "av_num tb * 10000000"] assms(1)
    by (simp add: mult.assoc)
  have "av_rescale_q ts tb CUVID_NATIVE_TIMEBASE =
          (if av_num tb < 0 then INT64_MIN
           else (let r = round_near_inf (of_int ts * of_int (av_num tb) * 10000000 / of_int (av_den tb))
                 in if \<bar>r\<bar> \<le> INT64_MAX then r else INT64_MIN))"
  proof (cases "av_num tb < 0")
    case True
    then show ?thesis by (simp add: av_rescale_q_def CUVID_NATIVE_TIMEBASE_def av_rescale_rnd_def)
  next
    case False
    then show ?thesis
      using av_rescale_rnd_range [of "1 * av_den tb" "av_num tb * 10000000" ts] assms(1) ts r
      by (simp add: av_rescale_q_def CUVID_NATIVE_TIMEBASE_def Let_def)
  qed
  with False show ?thesis by (simp add: make_packet_def zero_packet_def Let_def)
qed

section \<open>Flush and errors\<close>

lemma run_job_FeedDone:
  "run_job j st = Inr (FeedDone r st') \<Longrightarrow>
   \<exists>st1. run_pending (job_pending j) st = Inr ([], st1) \<and>
         finish_parse (job_caller j) (job_outcome j) st1 = Inr (r, st')"
  by (auto simp: run_job_def split: sum.splits prod.splits list.splits)

lemma finish_parse_flush:
  "finish_parse FromFlushParser c st = Inr (r, st') \<Longrightarrow>
   \<exists>q. m_pFrameQueue st = Some q \<and> m_pFrameQueue st' = Some (endDecode q)"
  by (auto simp: finish_parse_def guarded_def split: cu_call.splits option.splits)

lemma ended_pool_never_waits:
  "end_of_decode q \<Longrightarrow>
   (\<forall>i. waitUntilFrameAvailable i q = Inr StreamEnded) \<and> dequeue q \<noteq> NothingReady"
  by (simp add: waitUntilFrameAvailable_def dequeue_def)

lemma run_job_no_callbacks:
  "run_job \<lparr>job_pending = [], job_outcome = c, job_caller = caller\<rparr> st =
     (case finish_parse caller c st of Inl e \<Rightarrow> Inl e | Inr (r, st') \<Rightarrow> Inr (FeedDone r st'))"
  by (simp add: run_job_def)

lemma decode_calls_no_lock:
  "decode_calls cs \<Longrightarrow> count_list cs Api_cuvidCtxLock = 0 \<and> count_list cs Api_cuvidCtxUnlock = 0"
  by (auto simp: decode_calls_def count_list_0_iff)

lemma finish_parse_trace:
  "finish_parse caller c st = Inr (r, st') \<Longrightarrow> api_trace st' = api_trace st"
  by (auto simp: finish_parse_def guarded_def split: cu_call.splits parse_caller.splits option.splits)

lemma run_job_trace:
  "run_job j st = Inr s \<Longrightarrow> \<exists>new. api_trace (feed_state s) = api_trace st @ new \<and> decode_calls new"
  by (auto simp: run_job_def feed_state_def split: sum.splits prod.splits list.splits
           dest!: run_pending_trace finish_parse_trace)

lemma DecodePacket_trace:
  "DecodePacket data n ts tb rep st = Inr s \<Longrightarrow>
   \<exists>pkt new. api_trace (feed_state s) = api_trace st @ Api_cuvidParseVideoData pkt # new \<and> decode_calls new"
  by (auto simp: DecodePacket_def FlushParser_def parse_video_data_def split: option.splits if_splits
           dest!: run_job_trace)

lemma finish_parse_live:
  "m_pFrameQueue st \<noteq> None \<Longrightarrow> \<exists>r. finish_parse caller c st = Inr r"
  by (cases caller) (auto simp: finish_parse_def guarded_def split: cu_call.split)

lemma run_job_live:
  assumes "m_pFrameQueue st \<noteq> None"
  shows "\<exists>s. run_job j st = Inr s"
proof -
  obtain ps st' where rp: "run_pending (job_pending j) st = Inr (ps, st')"
    using run_pending_live [OF assms, of "job_pending j"] by auto
  have "m_pFrameQueue st' \<noteq> None"
    using run_pending_frame_inv [OF rp] assms by (simp add: cb_frame_def)
  then obtain res where "finish_parse (job_caller j) (job_outcome j) st' = Inr res"
    using finish_parse_live by blast
  with rp show ?thesis
    by (cases ps) (auto simp: run_job_def split: prod.split)
qed

text \<open>
  C14: feeding an empty payload is \<open>FlushParser\<close>, and once that call has
  returned the frame queue has ended: every later reservation answers
  \<open>StreamEnded\<close> and taking a frame never answers that nothing is ready.
\<close>

theorem DecodePacket_empty_is_flush:
  assumes "data = None \<or> nSize = 0" and "DecodePacket data nSize ts tb rep st = Inr (FeedDone r st')"
  shows "DecodePacket data nSize ts tb rep st = FlushParser rep st \<and>
         (\<exists>q. m_pFrameQueue st' = Some q \<and> end_of_decode q \<and>
              (\<forall>i. waitUntilFrameAvailable i q = Inr StreamEnded) \<and> dequeue q \<noteq> NothingReady)"
proof -
  have flush: "DecodePacket data nSize ts tb rep st = FlushParser rep st"
    using assms(1) by (auto simp: DecodePacket_def split: option.split)
  with assms(2) have "run_job \<lparr>job_pending = map Callback (reply_callbacks rep),
                              job_outcome = reply_outcome rep, job_caller = FromFlushParser\<rparr>
                        (api (Api_cuvidParseVideoData eos_packet) st) = Inr (FeedDone r st')"
    by (simp add: FlushParser_def parse_video_data_def)
  then obtain st1 where "finish_parse FromFlushParser (reply_outcome rep) st1 = Inr (r, st')"
    by (auto dest: run_job_FeedDone)
  then obtain q where "m_pFrameQueue st' = Some (endDecode q)"
    by (auto dest: finish_parse_flush)
  then show ?thesis
    using flush ended_pool_never_waits [of "endDecode q"] by (auto simp: endDecode_def)
qed

text \<open>
  C17: \<open>DecodePacket\<close> does not look at the sticky error flag: with the flag set
  the packet is still handed to \<open>cuvidParseVideoData\<close> and the driver's success
  is returned, where the specification asks for a fast \<open>InvalidState\<close> failure.
\<close>

theorem DecodePacket_ignores_sticky_error:
  assumes "m_bError st" and "nSize \<noteq> 0" and "reply_callbacks rep = []"
    and "reply_outcome rep = CallReturns CUDA_SUCCESS"
  shows "\<exists>st'. DecodePacket (Some d) nSize ts tb rep st = Inr (FeedDone CUDA_SUCCESS st') \<and>
           m_bError st' \<and> api_trace st' = api_trace st @ [Api_cuvidParseVideoData (make_packet d nSize ts tb)]"
  using assms
  by (simp add: DecodePacket_def parse_video_data_def run_job_def finish_parse_def guarded_def)

text \<open>
  C18: a failed \<open>cuvidParseVideoData\<close> (error code or structured exception) is
  returned by \<open>DecodePacket\<close> without setting the sticky error flag, while
  \<open>DecVideoData\<close> sets the flag for the same failure.
\<close>

theorem parse_failure_sticky_only_in_DecVideoData:
  assumes "nSize \<noteq> 0" and "reply_callbacks rep = []"
    and "reply_outcome rep \<noteq> CallReturns CUDA_SUCCESS" and "\<not> m_bError st"
  shows "(\<exists>r st'. DecodePacket (Some d) nSize ts tb rep st = Inr (FeedDone r st') \<and>
                  r \<noteq> CUDA_SUCCESS \<and> \<not> m_bError st') \<and>
         (\<exists>r st'. DecVideoData pkt rep st = Inr (FeedDone r st') \<and> r \<noteq> CUDA_SUCCESS \<and> m_bError st')"
  using assms
  by (cases "reply_outcome rep")
     (auto simp: DecodePacket_def DecVideoData_def parse_video_data_def run_job_def
                 finish_parse_def guarded_def)

text \<open>
  C27: the parser reads each callback's answer as a C flag: every callback that
  returns (the sequence, decode and display callbacks, and a resumed decode) answers 0
  or 1, and so does \<open>HandleVideoData\<close>.
\<close>

theorem callback_results_are_flags:
  "(case step_pending p st of Inr (CbReturn r st') \<Rightarrow> r \<in> {0, 1} | _ \<Rightarrow> True) \<and>
   (case HandleVideoData pkt rep st of Inr (Some r, st') \<Rightarrow> r \<in> {0, 1} | _ \<Rightarrow> True)"
proof -
  have dw: "case decode_after_wait pp dec s of Inr (CbReturn r s') \<Rightarrow> r \<in> {0, 1} | _ \<Rightarrow> True" for pp dec s
    by (auto simp: decode_after_wait_def Let_def split: option.split sum.split wait_result.split prod.split)
  have "case step_pending p st of Inr (CbReturn r st') \<Rightarrow> r \<in> {0, 1} | _ \<Rightarrow> True"
  proof (cases p)
    case (Callback cb)
    then show ?thesis
      using dw [of _ _ "AddMessage NV_LOG_TRACE ''DecPictureDecode idx'' st"]
      by (cases cb) (auto simp: step_pending_def handle_callback_def DecPictureDecode_def
                                DecVideoSequence_def DecPictureDisplay_def Let_def
                          split: option.split sum.split prod.split)
  next
    case (WaitingDecode pp dec)
    then show ?thesis using dw by (simp add: step_pending_def)
  qed
  moreover have "case HandleVideoData pkt rep st of Inr (Some r, st') \<Rightarrow> r \<in> {0, 1} | _ \<Rightarrow> True"
    by (auto simp: HandleVideoData_def split: sum.split feed_status.split)
  ultimately show ?thesis by blast
qed

theorem timestamp_rescale_roundtrip_witness:
  "0 < (1000::int) \<and> (1000::int) dvd 10000000 \<and> AV_NOPTS_VALUE < 42 \<and> AV_NOPTS_VALUE < 2 ^ 62 \<and>
   av_rescale_q 42 \<lparr>av_num = 1, av_den = 1000\<rparr> CUVID_NATIVE_TIMEBASE = 420000 \<and>
   av_rescale_q 420000 CUVID_NATIVE_TIMEBASE \<lparr>av_num = 1, av_den = 1000\<rparr> = 42 \<and>
   av_rescale_q (2 ^ 62) \<lparr>av_num = 1, av_den = 1000\<rparr> CUVID_NATIVE_TIMEBASE = INT64_MIN"
proof -
  have h: "0 < (1000::int)" "(1000::int) dvd 10000000" by simp_all
  have t: "AV_NOPTS_VALUE < 42" "AV_NOPTS_VALUE < 2 ^ 62" by (simp_all add: AV_NOPTS_VALUE_def)
  note c = timestamp_rescale_roundtrip [OF h t(1)]
  have fit: "\<bar>42 * (10000000 div 1000)\<bar> \<le> INT64_MAX" by (simp add: INT64_MAX_def)
  have c1: "av_rescale_q 42 \<lparr>av_num = 1, av_den = 1000\<rparr> CUVID_NATIVE_TIMEBASE = 420000"
    using conjunct1 [OF c] fit by simp
  have "av_rescale_q 420000 CUVID_NATIVE_TIMEBASE \<lparr>av_num = 1, av_den = 1000\<rparr> = 42"
    using conjunct1 [OF conjunct2 [OF c]] fit unfolding c1 by simp
  moreover have "\<not> \<bar>2 ^ 62 * (10000000 div 1000)\<bar> \<le> (INT64_MAX :: int)" by (simp add: INT64_MAX_def)
  then have "av_rescale_q (2 ^ 62) \<lparr>av_num = 1, av_den = 1000\<rparr> CUVID_NATIVE_TIMEBASE = INT64_MIN"
    using conjunct1 [OF timestamp_rescale_roundtrip [OF h t(2)]] by simp
  ultimately show ?thesis using h t c1 by simp
qed

theorem DecodePacket_empty_is_flush_witness:
  "\<exists>r st'. (None = (None :: 8 word list option) \<or> (5::nat) = 0) \<and>
     DecodePacket None 5 0 CUVID_NATIVE_TIMEBASE (ex_reply (CallReturns CUDA_SUCCESS))
       (ex_session (ex_pool [Free, Ready] False)) = Inr (FeedDone r st') \<and>
     DecodePacket None 5 0 CUVID_NATIVE_TIMEBASE (ex_reply (CallReturns CUDA_SUCCESS))
       (ex_session (ex_pool [Free, Ready] False)) =
       FlushParser (ex_reply (CallReturns CUDA_SUCCESS)) (ex_session (ex_pool [Free, Ready] False)) \<and>
     (\<exists>q. m_pFrameQueue st' = Some q \<and> end_of_decode q \<and>
          (\<forall>i. waitUntilFrameAvailable i q = Inr StreamEnded) \<and> dequeue q \<noteq> NothingReady)"
proof -
  have "\<exists>r st'. DecodePacket None 5 0 CUVID_NATIVE_TIMEBASE (ex_reply (CallReturns CUDA_SUCCESS))
       (ex_session (ex_pool [Free, Ready] False)) = Inr (FeedDone r st')"
    by (simp add: DecodePacket_def FlushParser_def parse_video_data_def run_job_def finish_parse_def
                  guarded_def ex_reply_def ex_session_def)
  then obtain r st' where e: "DecodePacket None 5 0 CUVID_NATIVE_TIMEBASE (ex_reply (CallReturns CUDA_SUCCESS))
       (ex_session (ex_pool [Free, Ready] False)) = Inr (FeedDone r st')" by blast
  have h: "None = (None :: 8 word list option) \<or> (5::nat) = 0" by simp
  show ?thesis using h e DecodePacket_empty_is_flush [OF h e] by blast
qed

theorem DecodePacket_ignores_sticky_error_witness:
  "m_bError ((ex_session (ex_pool [Free] False))\<lparr>m_bError := True\<rparr>) \<and> (3::nat) \<noteq> 0 \<and>
   reply_callbacks (ex_reply (CallReturns CUDA_SUCCESS)) = [] \<and>
   reply_outcome (ex_reply (CallReturns CUDA_SUCCESS)) = CallReturns CUDA_SUCCESS \<and>
   (\<exists>st'. DecodePacket (Some [1, 2, 3]) 3 AV_NOPTS_VALUE CUVID_NATIVE_TIMEBASE
            (ex_reply (CallReturns CUDA_SUCCESS)) ((ex_session (ex_pool [Free] False))\<lparr>m_bError := True\<rparr>) =
          Inr (FeedDone CUDA_SUCCESS st') \<and> m_bError st' \<and>
          api_trace st' = [Api_cuvidParseVideoData (make_packet [1, 2, 3] 3 AV_NOPTS_VALUE CUVID_NATIVE_TIMEBASE)])"
proof -
  have h: "m_bError ((ex_session (ex_pool [Free] False))\<lparr>m_bError := True\<rparr>)" "(3::nat) \<noteq> 0"
    "reply_callbacks (ex_reply (CallReturns CUDA_SUCCESS)) = []"
    "reply_outcome (ex_reply (CallReturns CUDA_SUCCESS)) = CallReturns CUDA_SUCCESS"
    by (simp_all add: ex_reply_def)
  show ?thesis
    using h DecodePacket_ignores_sticky_error [OF h, of "[1, 2, 3]" AV_NOPTS_VALUE CUVID_NATIVE_TIMEBASE]
    by (simp add: ex_session_def CuvidDecode_new_def)
qed

theorem parse_failure_sticky_only_in_DecVideoData_witness:
  "(3::nat) \<noteq> 0 \<and> reply_callbacks (ex_reply CallFaults) = [] \<and>
   reply_outcome (ex_reply CallFaults) \<noteq> CallReturns CUDA_SUCCESS \<and>
   \<not> m_bError (ex_session (ex_pool [Free] False)) \<and>
   (\<exists>r st'. DecodePacket (Some [1, 2, 3]) 3 0 CUVID_NATIVE_TIMEBASE (ex_reply CallFaults)
              (ex_session (ex_pool [Free] False)) = Inr (FeedDone r st') \<and>
            r \<noteq> CUDA_SUCCESS \<and> \<not> m_bError st') \<and>
   (\<exists>r st'. DecVideoData eos_packet (ex_reply CallFaults) (ex_session (ex_pool [Free] False)) =
              Inr (FeedDone r st') \<and> r \<noteq> CUDA_SUCCESS \<and> m_bError st')"
proof -
  have h: "(3::nat) \<noteq> 0" "reply_callbacks (ex_reply CallFaults) = []"
    "reply_outcome (ex_reply CallFaults) \<noteq> CallReturns CUDA_SUCCESS"
    "\<not> m_bError (ex_session (ex_pool [Free] False))"
    by (simp_all add: ex_reply_def ex_session_def CuvidDecode_new_def)
  show ?thesis
    using h parse_failure_sticky_only_in_DecVideoData [OF h, of "[1, 2, 3]" 0 CUVID_NATIVE_TIMEBASE eos_packet]
    by simp
qed

theorem packet_timestamp_rounds_to_nearest_witness:
  "timestamp (make_packet [] 1 (-3) \<lparr>av_num = 1, av_den = 20000000\<rparr>) = -2 \<and>
   timestamp (make_packet [] 1 1 \<lparr>av_num = -1, av_den = 1\<rparr>) = INT64_MIN"
proof -
  have h: "0 < av_den \<lparr>av_num = 1, av_den = 20000000::int\<rparr>" "0 < av_den \<lparr>av_num = -1, av_den = 1::int\<rparr>"
    by simp_all
  have t: "AV_NOPTS_VALUE \<le> (-3::int)" "AV_NOPTS_VALUE \<le> (1::int)"
    "(-3::int) \<noteq> AV_NOPTS_VALUE" "(1::int) \<noteq> AV_NOPTS_VALUE" by (simp_all add: AV_NOPTS_VALUE_def)
  have r: "round_near_inf (of_int (-3) * of_int 1 * 10000000 / of_int 20000000) = -2"
    by (simp add: round_near_inf_def)
  have "timestamp (make_packet [] 1 (-3) \<lparr>av_num = 1, av_den = 20000000\<rparr>) = -2"
    using packet_timestamp_rounds_to_nearest [OF h(1) t(1), of "[]" 1] t(3) r by (simp add: INT64_MAX_def)
  moreover have "timestamp (make_packet [] 1 1 \<lparr>av_num = -1, av_den = 1\<rparr>) = INT64_MIN"
    using packet_timestamp_rounds_to_nearest [OF h(2) t(2), of "[]" 1] t(4) by simp
  ultimately show ?thesis ..
qed

end
