(* ===== verification/Session_Lifecycle.thy ===== *)
theory Session_Lifecycle
  imports Packet_Feeder
begin

text \<open>
  Building and tearing down a decode session: \<open>check_if_nvcuvid_dll_available\<close>
  (CuvidDecode.cpp lines 15--22), \<open>CloseDecoder\<close> (117--134), the destructor (52--54),
  \<open>CreateDecoder\<close> (136--145) and \<open>InitDecode\<close> (147--237). \<open>InitDecode\<close> is
  split into the stages of its body, each a definition that ends in an early
  \<open>return\<close> or hands over to the next stage: the probe (147--158), the frame queue
  (160--167), the sequence header copy and the parser (169--192), the decoder under the
  context lock (194--227), and the sequence header packet (229--236).

  The host and the driver are inputs (\<open>init_env\<close>): whether \<open>nvcuvid.dll\<close> loads,
  whether \<open>new CUVIDFrameQueue\<close> succeeds, what \<open>cuvidCreateVideoParser\<close> and
  \<open>cuvidCreateDecoder\<close> return, and how the parser reacts to the header packet. A
  driver \<open>create\<close> call is taken to write its handle only on success.
\<close>

section \<open>Definitions\<close>

record host =
  nvcuvid_dll_present :: bool

text \<open>\<open>LoadLibrary(_T("nvcuvid.dll"))\<close>, then \<open>FreeLibrary\<close> on success.\<close>

definition check_if_nvcuvid_dll_available :: "host \<Rightarrow> bool" where
  "check_if_nvcuvid_dll_available h = nvcuvid_dll_present h"

definition CloseDecoder :: "cuvid_decode \<Rightarrow> cuvid_decode" where
  "CloseDecoder st0 =
     (let st1 = (if m_videoDecoder st0
                 then (api Api_cuvidDestroyDecoder st0)\<lparr>m_videoDecoder := False\<rparr> else st0);
          st2 = (if m_videoParser st1
                 then (api Api_cuvidDestroyVideoParser st1)\<lparr>m_videoParser := False\<rparr> else st1)
      in st2\<lparr>m_ctxLock := None, m_pPrintMes := False, m_pFrameQueue := None,
             m_decodedFrames := 0, m_bError := False\<rparr>)"

definition CuvidDecode_delete :: "cuvid_decode \<Rightarrow> cuvid_decode" where
  "CuvidDecode_delete st = CloseDecoder st"

definition CreateDecoder :: "cu_call \<Rightarrow> cuvid_decode \<Rightarrow> CUresult \<times> cuvid_decode" where
  "CreateDecoder c st =
     (case guarded ''cuvidCreateDecoder error'' c
             (api (Api_cuvidCreateDecoder (m_videoDecodeCreateInfo st)) st) of
        (r, st1) \<Rightarrow> (r, if r = CUDA_SUCCESS then st1\<lparr>m_videoDecoder := True\<rparr> else st1))"

record init_env =
  env_host :: host
  queue_alloc_ok :: bool
  create_parser_result :: CUresult
  create_decoder_call :: cu_call
  header_reply :: parse_reply

datatype init_status = InitDone CUresult cuvid_decode | InitBlocked parse_job cuvid_decode

text \<open>\<open>memcpy(dst, src, n)\<close> into a fixed buffer; reading or writing past either end
  is \<open>None\<close>.\<close>

definition memcpy_bytes :: "8 word list \<Rightarrow> 8 word list \<Rightarrow> nat \<Rightarrow> 8 word list option" where
  "memcpy_bytes dst src n =
     (if n \<le> length dst \<and> n \<le> length src then Some (take n src @ drop n dst) else None)"

text \<open>Lines 170--174: the sequence header copied into \<open>m_videoFormatEx\<close>.\<close>

definition init_format_ex :: "input_video_info \<Rightarrow> video_format_ex option" where
  "init_format_ex inp =
     (case codecExtra inp of
        None \<Rightarrow> Some zero_format_ex
      | Some extra \<Rightarrow>
          (if codecExtraSize inp = 0 then Some zero_format_ex
           else case memcpy_bytes (raw_seqhdr_data zero_format_ex) extra (codecExtraSize inp) of
                  None \<Rightarrow> None
                | Some raw \<Rightarrow> Some \<lparr>raw_seqhdr_data = raw,
                                    seqhdr_data_length = of_nat (codecExtraSize inp)\<rparr>))"

text \<open>Lines 176--185: \<open>CUVIDPARSERPARAMS\<close>.\<close>

definition init_parser_params :: "input_video_info \<Rightarrow> video_format_ex \<Rightarrow> parser_params" where
  "init_parser_params inp fx =
     \<lparr>parser_codec = codec inp, ulMaxNumDecodeSurfaces = of_nat cnMaximumSize,
      ulMaxDisplayDelay = 1, pExtVideoInfo = fx\<rparr>"

text \<open>Lines 195--220: \<open>CUVIDDECODECREATEINFO\<close>; C's conversions of \<open>int\<close> to
  \<open>unsigned long\<close> and to \<open>short\<close> are taken modulo the width.\<close>

definition init_create_info :: "input_video_info \<Rightarrow> CUvideoctxlock option \<Rightarrow> decode_create_info" where
  "init_create_info inp lock =
     zero_create_info\<lparr>
       CodecType := codec inp,
       ulWidth := word_of_int (if codedWidth inp \<noteq> 0 then codedWidth inp else width inp),
       ulHeight := word_of_int (if codedHeight inp \<noteq> 0 then codedHeight inp else height inp),
       ulNumDecodeSurfaces := of_nat cnMaximumSize,
       ChromaFormat := cudaVideoChromaFormat_420,
       OutputFormat := cudaVideoSurfaceFormat_NV12,
       ulTargetWidth := word_of_int (if 0 < dstWidth inp \<and> 0 < dstHeight inp then dstWidth inp else width inp),
       ulTargetHeight := word_of_int (if 0 < dstWidth inp \<and> 0 < dstHeight inp then dstHeight inp else height inp),
       display_area := \<lparr>rect_left = word_of_int (crop_left inp),
                        rect_top = word_of_int (crop_up inp),
                        rect_right = word_of_int (crop_right inp + codedWidth inp - width inp),
                        rect_bottom = word_of_int (crop_bottom inp + codedHeight inp - height inp)\<rparr>,
       ulNumOutputSurfaces := 1,
       ulCreationFlags := cudaVideoCreate_PreferCUVID,
       vidLock := lock\<rparr>"

text \<open>Lines 229--236: feed the sequence header, if there is one.\<close>

definition init_decode_header :: "init_env \<Rightarrow> CUresult \<Rightarrow> cuvid_decode \<Rightarrow> fault + init_status" where
  "init_decode_header env r st =
     (if seqhdr_data_length (m_videoFormatEx st) \<noteq> 0 then
        (case DecodePacket (Some (raw_seqhdr_data (m_videoFormatEx st)))
                (unat (seqhdr_data_length (m_videoFormatEx st))) AV_NOPTS_VALUE
                CUVID_NATIVE_TIMEBASE (header_reply env) st of
           Inl e \<Rightarrow> Inl e
         | Inr (FeedBlocked j st') \<Rightarrow> Inr (InitBlocked j st')
         | Inr (FeedDone r' st') \<Rightarrow>
             (if r' \<noteq> CUDA_SUCCESS
              then Inr (InitDone r' (AddMessage NV_LOG_ERROR ''Failed to decode header'' st'))
              else Inr (InitDone r' st')))
      else Inr (InitDone r st))"

text \<open>Lines 194--227: the decoder, created between \<open>cuvidCtxLock\<close> and
  \<open>cuvidCtxUnlock\<close>.\<close>

definition init_decoder :: "input_video_info \<Rightarrow> init_env \<Rightarrow> cuvid_decode \<Rightarrow> fault + init_status" where
  "init_decoder inp env st =
     (let st1 = (api Api_cuvidCtxLock st)\<lparr>m_videoDecodeCreateInfo := init_create_info inp (m_ctxLock st)\<rparr>
      in case CreateDecoder (create_decoder_call env) st1 of
        (r, st2) \<Rightarrow>
          (let st3 = api Api_cuvidCtxUnlock st2
           in if r \<noteq> CUDA_SUCCESS
              then Inr (InitDone r (AddMessage NV_LOG_ERROR ''Failed cuvidCreateDecoder'' st3))
              else init_decode_header env r (AddMessage NV_LOG_DEBUG ''created decoder'' st3)))"

text \<open>Lines 169--192: the sequence header buffer and the parser.\<close>

definition init_video_parser :: "input_video_info \<Rightarrow> init_env \<Rightarrow> cuvid_decode \<Rightarrow> fault + init_status" where
  "init_video_parser inp env st =
     (case init_format_ex inp of
        None \<Rightarrow> Inl BufferOverrun
      | Some fx \<Rightarrow>
          (let st1 = api (Api_cuvidCreateVideoParser (init_parser_params inp fx))
                       (st\<lparr>m_videoFormatEx := fx\<rparr>)
           in if create_parser_result env \<noteq> CUDA_SUCCESS
              then Inr (InitDone (create_parser_result env)
                                 (AddMessage NV_LOG_ERROR ''Failed cuvidCreateVideoParser'' st1))
              else init_decoder inp env
                     (AddMessage NV_LOG_DEBUG ''created video parser'' (st1\<lparr>m_videoParser := True\<rparr>))))"

text \<open>Lines 162--167: \<open>new CUVIDFrameQueue(m_ctxLock)\<close> and \<open>init(width, height)\<close>.
  \<open>new\<close> throws on failure, so the \<open>nullptr\<close> test of line 162 never fires.\<close>

definition init_frame_queue :: "input_video_info \<Rightarrow> init_env \<Rightarrow> cuvid_decode \<Rightarrow> fault + init_status" where
  "init_frame_queue inp env st =
     (if \<not> queue_alloc_ok env then Inl BadAlloc
      else case fq_init cnMaximumSize (width inp) (height inp) of
        Inl _ \<Rightarrow> Inl BadAlloc
      | Inr q \<Rightarrow> init_video_parser inp env
                   (AddMessage NV_LOG_DEBUG ''created frame queue'' (st\<lparr>m_pFrameQueue := Some q\<rparr>)))"

definition InitDecode ::
  "CUvideoctxlock option \<Rightarrow> input_video_info \<Rightarrow> bool \<Rightarrow> bool \<Rightarrow> init_env \<Rightarrow> cuvid_decode \<Rightarrow>
   fault + init_status" where
  "InitDecode ctxLock inp pLog ignore env st0 =
     (let st1 = (CloseDecoder st0)\<lparr>m_pPrintMes := pLog, m_bIgnoreDynamicFormatChange := ignore\<rparr>
      in if \<not> check_if_nvcuvid_dll_available (env_host env)
         then Inr (InitDone CUDA_ERROR_NOT_FOUND
                            (AddMessage NV_LOG_ERROR ''nvcuvid.dll does not exist.'' st1))
         else init_frame_queue inp env
                ((AddMessage NV_LOG_DEBUG ''nvcuvid.dll available'' st1)\<lparr>m_ctxLock := ctxLock\<rparr>))"

definition init_state :: "init_status \<Rightarrow> cuvid_decode" where
  "init_state s = (case s of InitDone r st \<Rightarrow> st | InitBlocked j st \<Rightarrow> st)"

text \<open>
  Fixtures for the witnesses: a host and driver that answer as given, and a 1920x1080 stream.
\<close>

definition ex_env :: "bool \<Rightarrow> cu_call \<Rightarrow> init_env" where
  "ex_env dll dec =
     \<lparr>env_host = \<lparr>nvcuvid_dll_present = dll\<rparr>, queue_alloc_ok = True,
      create_parser_result = CUDA_SUCCESS, create_decoder_call = dec,
      header_reply = ex_reply (CallReturns CUDA_SUCCESS)\<rparr>"

definition ex_input :: "8 word list option \<Rightarrow> nat \<Rightarrow> input_video_info" where
  "ex_input extra n =
     \<lparr>width = 1920, height = 1080, codedWidth = 0, codedHeight = 0, dstWidth = 0, dstHeight = 0,
      crop_left = 0, crop_up = 0, crop_right = 0, crop_bottom = 0, codec = 0,
      codecExtra = extra, codecExtraSize = n\<rparr>"

declare CloseDecoder_def [session_simps] CreateDecoder_def [session_simps]
  init_decode_header_def [session_simps] init_decoder_def [session_simps]
  init_video_parser_def [session_simps] init_frame_queue_def [session_simps]
  InitDecode_def [session_simps]


section \<open>Teardown\<close>

lemma CloseDecoder_fields [simp]:
  "m_pFrameQueue (CloseDecoder st) = None" "\<not> m_videoParser (CloseDecoder st)"
  "\<not> m_videoDecoder (CloseDecoder st)" "m_ctxLock (CloseDecoder st) = None"
  "\<not> m_pPrintMes (CloseDecoder st)" "m_decodedFrames (CloseDecoder st) = 0"
  "\<not> m_bError (CloseDecoder st)"
  "m_bIgnoreDynamicFormatChange (CloseDecoder st) = m_bIgnoreDynamicFormatChange st"
  "m_videoDecodeCreateInfo (CloseDecoder st) = m_videoDecodeCreateInfo st"
  "m_videoFormatEx (CloseDecoder st) = m_videoFormatEx st"
  "messages (CloseDecoder st) = messages st"
  by (simp_all add: CloseDecoder_def Let_def)

lemma CloseDecoder_trace:
  "api_trace (CloseDecoder st) =
     api_trace st @ (if m_videoDecoder st then [Api_cuvidDestroyDecoder] else [])
                  @ (if m_videoParser st then [Api_cuvidDestroyVideoParser] else [])"
  by (simp add: CloseDecoder_def Let_def)

lemma CloseDecoder_session_inv: "session_inv (CloseDecoder st)"
  by (simp add: session_inv_def)


text \<open>
  C10: \<open>CloseDecoder\<close> destroys the decoder before the parser, each only if
  it exists, and then leaves no frame queue, parser, decoder or context lock, a zero
  frame count and a clear error flag; it is idempotent. It does not reset the cached
  decoder descriptor \<open>m_videoDecodeCreateInfo\<close>, which keeps the last format.
\<close>

theorem CloseDecoder_releases_in_order:
  "api_trace (CloseDecoder st) =
     api_trace st @ (if m_videoDecoder st then [Api_cuvidDestroyDecoder] else [])
                  @ (if m_videoParser st then [Api_cuvidDestroyVideoParser] else []) \<and>
   m_pFrameQueue (CloseDecoder st) = None \<and> \<not> m_videoParser (CloseDecoder st) \<and>
   \<not> m_videoDecoder (CloseDecoder st) \<and> m_ctxLock (CloseDecoder st) = None \<and>
   \<not> m_bError (CloseDecoder st) \<and> m_decodedFrames (CloseDecoder st) = 0 \<and>
   m_videoDecodeCreateInfo (CloseDecoder st) = m_videoDecodeCreateInfo st \<and>
   CloseDecoder (CloseDecoder st) = CloseDecoder st"
  by (simp add: CloseDecoder_def Let_def)

text \<open>
  C7: \<open>FlushParser\<close> calls \<open>m_pFrameQueue->endDecode()\<close> without
  checking the pointer: on a freshly constructed object and after \<open>CloseDecoder\<close>,
  flushing (an empty \<open>DecodePacket\<close>) dereferences the null frame queue, whatever
  the parser answers.
\<close>

theorem FlushParser_without_queue_faults:
  "FlushParser rep (CloseDecoder st) = Inl NullFrameQueue \<and>
   FlushParser rep CuvidDecode_new = Inl NullFrameQueue"
proof -
  have flush: "FlushParser rep s = Inl NullFrameQueue" if "m_pFrameQueue s = None" for s
  proof -
    have q: "m_pFrameQueue (api (Api_cuvidParseVideoData eos_packet) s) = None" using that by simp
    from run_pending_no_queue [OF q, of "map Callback (reply_callbacks rep)"] show ?thesis
      by (auto simp: FlushParser_def parse_video_data_def run_job_def finish_parse_def guarded_def
               split: cu_call.split)
  qed
  show ?thesis by (simp add: flush CuvidDecode_new_def)
qed

section \<open>Initialisation: the driver trace\<close>

lemma InitDecode_probe_fails:
  "\<not> nvcuvid_dll_present (env_host env) \<Longrightarrow>
   InitDecode l inp pLog ign env st =
     Inr (InitDone CUDA_ERROR_NOT_FOUND
            (AddMessage NV_LOG_ERROR ''nvcuvid.dll does not exist.''
               ((CloseDecoder st)\<lparr>m_pPrintMes := pLog, m_bIgnoreDynamicFormatChange := ign\<rparr>)))"
  by (simp add: InitDecode_def check_if_nvcuvid_dll_available_def)

lemma init_decode_header_trace:
  "init_decode_header env r st = Inr s \<Longrightarrow>
   \<exists>new. api_trace (init_state s) = api_trace st @ new \<and>
         count_list new Api_cuvidCtxLock = 0 \<and> count_list new Api_cuvidCtxUnlock = 0"
proof -
  assume a: "init_decode_header env r st = Inr s"
  show ?thesis
  proof (cases "seqhdr_data_length (m_videoFormatEx st) = 0")
    case True
    with a show ?thesis by (auto simp: init_decode_header_def init_state_def intro: exI [of _ "[]"])
  next
    case False
    with a obtain fs where fs: "DecodePacket (Some (raw_seqhdr_data (m_videoFormatEx st)))
                (unat (seqhdr_data_length (m_videoFormatEx st))) AV_NOPTS_VALUE
                CUVID_NATIVE_TIMEBASE (header_reply env) st = Inr fs"
      and st': "api_trace (init_state s) = api_trace (feed_state fs)"
      by (auto simp: init_decode_header_def init_state_def feed_state_def
               split: sum.splits feed_status.splits if_splits)
    from DecodePacket_trace [OF fs] obtain pkt new
      where "api_trace (feed_state fs) = api_trace st @ Api_cuvidParseVideoData pkt # new"
        and "decode_calls new" by blast
    with st' show ?thesis
      by (intro exI [of _ "Api_cuvidParseVideoData pkt # new"]) (simp add: decode_calls_no_lock)
  qed
qed

lemma CreateDecoder_trace:
  "CreateDecoder c st = (r, st') \<Longrightarrow>
   api_trace st' = api_trace st @ [Api_cuvidCreateDecoder (m_videoDecodeCreateInfo st)]"
  by (auto simp: CreateDecoder_def guarded_def split: cu_call.splits if_splits)

lemma CreateDecoder_fields:
  "CreateDecoder c st = (r, st') \<Longrightarrow>
   m_videoDecoder st' = (m_videoDecoder st \<or> r = CUDA_SUCCESS) \<and>
   m_pFrameQueue st' = m_pFrameQueue st \<and> m_videoParser st' = m_videoParser st \<and>
   m_bError st' = m_bError st \<and> m_decodedFrames st' = m_decodedFrames st \<and>
   m_videoFormatEx st' = m_videoFormatEx st \<and> m_videoDecodeCreateInfo st' = m_videoDecodeCreateInfo st \<and>
   r = (case c of CallReturns x \<Rightarrow> x | CallFaults \<Rightarrow> CUDA_ERROR_UNKNOWN)"
  by (auto simp: CreateDecoder_def guarded_def split: cu_call.splits if_splits)

lemma init_decoder_trace:
  "init_decoder inp env st = Inr s \<Longrightarrow>
   \<exists>new. api_trace (init_state s) =
            api_trace st @ Api_cuvidCtxLock # Api_cuvidCreateDecoder (init_create_info inp (m_ctxLock st))
                         # Api_cuvidCtxUnlock # new \<and>
         count_list new Api_cuvidCtxLock = 0 \<and> count_list new Api_cuvidCtxUnlock = 0"
proof -
  assume a: "init_decoder inp env st = Inr s"
  let ?st1 = "(api Api_cuvidCtxLock st)\<lparr>m_videoDecodeCreateInfo := init_create_info inp (m_ctxLock st)\<rparr>"
  obtain r st2 where cd: "CreateDecoder (create_decoder_call env) ?st1 = (r, st2)" by (cases "CreateDecoder (create_decoder_call env) ?st1")
  have tr2: "api_trace (api Api_cuvidCtxUnlock st2) =
     api_trace st @ [Api_cuvidCtxLock, Api_cuvidCreateDecoder (init_create_info inp (m_ctxLock st)), Api_cuvidCtxUnlock]"
    using CreateDecoder_trace [OF cd] by simp
  show ?thesis
  proof (cases "r = CUDA_SUCCESS")
    case False
    with a cd tr2 show ?thesis
      by (auto simp: init_decoder_def init_state_def Let_def intro: exI [of _ "[]"])
  next
    case True
    with a cd have "init_decode_header env r (AddMessage NV_LOG_DEBUG ''created decoder'' (api Api_cuvidCtxUnlock st2)) = Inr s"
      by (simp add: init_decoder_def Let_def)
    from init_decode_header_trace [OF this] tr2 show ?thesis by auto
  qed
qed

lemma init_video_parser_trace:
  "init_video_parser inp env st = Inr s \<Longrightarrow>
   \<exists>new. api_trace (init_state s) = api_trace st @ new \<and>
         count_list new Api_cuvidCtxLock = count_list new Api_cuvidCtxUnlock \<and>
         count_list new Api_cuvidCtxLock \<le> 1"
proof -
  assume a: "init_video_parser inp env st = Inr s"
  then obtain fx where fx: "init_format_ex inp = Some fx"
    by (auto simp: init_video_parser_def split: option.splits)
  let ?st1 = "api (Api_cuvidCreateVideoParser (init_parser_params inp fx)) (st\<lparr>m_videoFormatEx := fx\<rparr>)"
  show ?thesis
  proof (cases "create_parser_result env = CUDA_SUCCESS")
    case False
    with a fx show ?thesis
      by (auto simp: init_video_parser_def init_state_def Let_def
               intro: exI [of _ "[Api_cuvidCreateVideoParser (init_parser_params inp fx)]"])
  next
    case True
    with a fx have "init_decoder inp env (AddMessage NV_LOG_DEBUG ''created video parser'' (?st1\<lparr>m_videoParser := True\<rparr>)) = Inr s"
      by (simp add: init_video_parser_def Let_def)
    from init_decoder_trace [OF this] obtain new where
      "api_trace (init_state s) = api_trace st @ Api_cuvidCreateVideoParser (init_parser_params inp fx)
         # Api_cuvidCtxLock # Api_cuvidCreateDecoder (init_create_info inp (m_ctxLock st)) # Api_cuvidCtxUnlock # new"
      "count_list new Api_cuvidCtxLock = 0" "count_list new Api_cuvidCtxUnlock = 0"
      by auto
    then show ?thesis
      by (intro exI [of _ "Api_cuvidCreateVideoParser (init_parser_params inp fx)
         # Api_cuvidCtxLock # Api_cuvidCreateDecoder (init_create_info inp (m_ctxLock st)) # Api_cuvidCtxUnlock # new"])
         simp
  qed
qed

lemma init_frame_queue_trace:
  "init_frame_queue inp env st = Inr s \<Longrightarrow>
   \<exists>new. api_trace (init_state s) = api_trace st @ new \<and>
         count_list new Api_cuvidCtxLock = count_list new Api_cuvidCtxUnlock \<and>
         count_list new Api_cuvidCtxLock \<le> 1"
  by (auto simp: init_frame_queue_def split: if_splits sum.splits dest!: init_video_parser_trace)


text \<open>
  C19: without \<open>nvcuvid.dll\<close>, \<open>InitDecode\<close> answers
  \<open>CUDA_ERROR_NOT_FOUND\<close> after tearing down the previous session, with no frame
  queue, parser or decoder and no driver call beyond the teardown's.
\<close>

theorem InitDecode_engine_unavailable:
  assumes "\<not> nvcuvid_dll_present (env_host env)"
  shows "\<exists>st'. InitDecode l inp pLog ign env st = Inr (InitDone CUDA_ERROR_NOT_FOUND st') \<and>
           m_pFrameQueue st' = None \<and> \<not> m_videoParser st' \<and> \<not> m_videoDecoder st' \<and>
           api_trace st' = api_trace (CloseDecoder st) \<and> session_inv st'"
  using InitDecode_probe_fails [OF assms] by (simp add: session_inv_def)

text \<open>
  C9: every run of \<open>InitDecode\<close> that returns issues, after the
  teardown, as many \<open>cuvidCtxUnlock\<close> as \<open>cuvidCtxLock\<close> calls, and at most one
  of each: the context lock taken around \<open>cuvidCreateDecoder\<close> is released on the
  failure path too.
\<close>

theorem InitDecode_releases_ctx_lock:
  assumes "InitDecode l inp pLog ign env st = Inr s"
  shows "\<exists>new. api_trace (init_state s) = api_trace (CloseDecoder st) @ new \<and>
           count_list new Api_cuvidCtxLock = count_list new Api_cuvidCtxUnlock \<and>
           count_list new Api_cuvidCtxLock \<le> 1"
proof (cases "nvcuvid_dll_present (env_host env)")
  case False
  with assms show ?thesis
    by (auto simp: InitDecode_probe_fails init_state_def intro: exI [of _ "[]"])
next
  case True
  with assms have "init_frame_queue inp env
      ((AddMessage NV_LOG_DEBUG ''nvcuvid.dll available''
          ((CloseDecoder st)\<lparr>m_pPrintMes := pLog, m_bIgnoreDynamicFormatChange := ign\<rparr>))\<lparr>m_ctxLock := l\<rparr>) = Inr s"
    by (simp add: InitDecode_def check_if_nvcuvid_dll_available_def)
  from init_frame_queue_trace [OF this] show ?thesis by (simp add: CloseDecoder_def Let_def)
qed

section \<open>Initialisation: outcomes\<close>

lemma init_format_ex_no_extra: "codecExtra inp = None \<Longrightarrow> init_format_ex inp = Some zero_format_ex"
  by (simp add: init_format_ex_def)

lemma seqhdr_data_length_zero [simp]: "seqhdr_data_length zero_format_ex = 0"
  by (simp add: zero_format_ex_def)

lemma cnMaximumSize_pos: "0 < cnMaximumSize"
  by (simp add: cnMaximumSize_def)

lemma fq_init_cnMaximumSize:
  "\<exists>q. fq_init cnMaximumSize w h = Inr q \<and> fq_inv q \<and> capacity q = cnMaximumSize"
  using cnMaximumSize_pos by (auto simp: fq_init_def intro: fq_init_inv)

lemma init_decoder_failed:
  assumes "create_decoder_call env \<noteq> CallReturns CUDA_SUCCESS" and "\<not> m_videoDecoder st"
  shows "\<exists>r st'. init_decoder inp env st = Inr (InitDone r st') \<and> r \<noteq> CUDA_SUCCESS \<and>
           m_videoParser st' = m_videoParser st \<and> \<not> m_videoDecoder st' \<and>
           m_pFrameQueue st' = m_pFrameQueue st"
proof -
  let ?st1 = "(api Api_cuvidCtxLock st)\<lparr>m_videoDecodeCreateInfo := init_create_info inp (m_ctxLock st)\<rparr>"
  obtain r st2 where cd: "CreateDecoder (create_decoder_call env) ?st1 = (r, st2)"
    by (cases "CreateDecoder (create_decoder_call env) ?st1")
  have r: "r \<noteq> CUDA_SUCCESS"
    using CreateDecoder_fields [OF cd] assms(1) by (cases "create_decoder_call env") auto
  show ?thesis
    using CreateDecoder_fields [OF cd] r assms(2) by (simp add: init_decoder_def Let_def cd)
qed

lemma init_format_ex_overflow:
  "codecExtra inp = Some extra \<Longrightarrow> seqhdr_capacity < codecExtraSize inp \<Longrightarrow> init_format_ex inp = None"
  by (simp add: init_format_ex_def memcpy_bytes_def zero_format_ex_def)

lemma init_format_ex_copy:
  assumes "codecExtra inp = Some extra" and "0 < codecExtraSize inp"
    and "codecExtraSize inp \<le> seqhdr_capacity" and "codecExtraSize inp \<le> length extra"
  shows "\<exists>fx. init_format_ex inp = Some fx \<and>
           take (codecExtraSize inp) (raw_seqhdr_data fx) = take (codecExtraSize inp) extra \<and>
           unat (seqhdr_data_length fx) = codecExtraSize inp"
proof -
  have "codecExtraSize inp < 2 ^ 32" using assms(3) by (simp add: seqhdr_capacity_def)
  then show ?thesis
    using assms by (simp add: init_format_ex_def memcpy_bytes_def zero_format_ex_def unat_of_nat)
qed

lemma init_decode_header_sends:
  assumes "seqhdr_data_length (m_videoFormatEx st) \<noteq> 0" and "m_pFrameQueue st \<noteq> None"
  shows "\<exists>s new. init_decode_header env r st = Inr s \<and>
           api_trace (init_state s) = api_trace st @
             Api_cuvidParseVideoData (make_packet (raw_seqhdr_data (m_videoFormatEx st))
               (unat (seqhdr_data_length (m_videoFormatEx st))) AV_NOPTS_VALUE CUVID_NATIVE_TIMEBASE) # new"
proof -
  let ?pkt = "make_packet (raw_seqhdr_data (m_videoFormatEx st))
               (unat (seqhdr_data_length (m_videoFormatEx st))) AV_NOPTS_VALUE CUVID_NATIVE_TIMEBASE"
  let ?j = "\<lparr>job_pending = map Callback (reply_callbacks (header_reply env)),
             job_outcome = reply_outcome (header_reply env), job_caller = FromDecodePacket\<rparr>"
  have n: "unat (seqhdr_data_length (m_videoFormatEx st)) \<noteq> 0"
    using assms(1) by (simp add: unat_eq_zero)
  have dp: "DecodePacket (Some (raw_seqhdr_data (m_videoFormatEx st)))
              (unat (seqhdr_data_length (m_videoFormatEx st))) AV_NOPTS_VALUE CUVID_NATIVE_TIMEBASE
              (header_reply env) st = run_job ?j (api (Api_cuvidParseVideoData ?pkt) st)"
    using n by (simp add: DecodePacket_def parse_video_data_def)
  obtain fs where fs: "run_job ?j (api (Api_cuvidParseVideoData ?pkt) st) = Inr fs"
    using run_job_live [of "api (Api_cuvidParseVideoData ?pkt) st" ?j] assms(2) by auto
  obtain new where tr: "api_trace (feed_state fs) = api_trace st @ Api_cuvidParseVideoData ?pkt # new"
    using run_job_trace [OF fs] by auto
  show ?thesis
    using assms(1) dp fs tr
    by (cases fs) (auto simp: init_decode_header_def init_state_def feed_state_def)
qed

lemma init_decoder_succeeds:
  "create_decoder_call env = CallReturns CUDA_SUCCESS \<Longrightarrow>
   \<exists>S. init_decoder inp env st = init_decode_header env CUDA_SUCCESS S \<and>
       m_videoFormatEx S = m_videoFormatEx st \<and> m_pFrameQueue S = m_pFrameQueue st \<and>
       api_trace S = api_trace st @ [Api_cuvidCtxLock, Api_cuvidCreateDecoder (init_create_info inp (m_ctxLock st)),
                                     Api_cuvidCtxUnlock]"
  apply (intro exI conjI)
     apply (simp add: init_decoder_def CreateDecoder_def guarded_def Let_def)
    apply simp_all
  done


text \<open>
  C8: when the engine, the allocation, the parser and the decoder all succeed
  (no sequence header), \<open>InitDecode\<close> answers \<open>CUDA_SUCCESS\<close> with a fresh
  frame queue of \<open>cnMaximumSize\<close> slots, a parser and a decoder, a clear error flag
  and the object invariant; the driver sees exactly parser creation, lock, decoder
  creation, unlock; and the parser's \<open>ulMaxNumDecodeSurfaces\<close>, the decoder's
  \<open>ulNumDecodeSurfaces\<close> and the frame queue's capacity agree.
\<close>

theorem InitDecode_success_sizes_agree:
  assumes "nvcuvid_dll_present (env_host env)" and "queue_alloc_ok env" and "codecExtra inp = None"
    and "create_parser_result env = CUDA_SUCCESS" and "create_decoder_call env = CallReturns CUDA_SUCCESS"
  shows "\<exists>st' q. InitDecode l inp pLog ign env st = Inr (InitDone CUDA_SUCCESS st') \<and>
     m_pFrameQueue st' = Some q \<and> fq_init cnMaximumSize (width inp) (height inp) = Inr q \<and>
     m_videoParser st' \<and> m_videoDecoder st' \<and> \<not> m_bError st' \<and> m_decodedFrames st' = 0 \<and>
     session_inv st' \<and> m_videoDecodeCreateInfo st' = init_create_info inp l \<and>
     api_trace st' = api_trace (CloseDecoder st) @
       [Api_cuvidCreateVideoParser (init_parser_params inp zero_format_ex), Api_cuvidCtxLock,
        Api_cuvidCreateDecoder (init_create_info inp l), Api_cuvidCtxUnlock] \<and>
     unat (ulNumDecodeSurfaces (init_create_info inp l)) = capacity q \<and>
     unat (ulMaxNumDecodeSurfaces (init_parser_params inp zero_format_ex)) = capacity q"
proof -
  obtain q where q: "fq_init cnMaximumSize (width inp) (height inp) = Inr q" "fq_inv q"
    "capacity q = cnMaximumSize"
    using fq_init_cnMaximumSize by blast
  have small: "unat (of_nat cnMaximumSize :: ulong) = cnMaximumSize"
    by (simp add: cnMaximumSize_def)
  show ?thesis
    using assms q small
    by (simp add: InitDecode_def check_if_nvcuvid_dll_available_def init_frame_queue_def
                  init_video_parser_def init_format_ex_no_extra init_decoder_def init_decode_header_def
                  CreateDecoder_def guarded_def CloseDecoder_trace session_inv_def Let_def
                  init_parser_params_def init_create_info_def zero_create_info_def)
qed

text \<open>
  C13: when \<open>cuvidCreateDecoder\<close> fails, \<open>InitDecode\<close> returns the
  error with the parser and the frame queue still allocated: the failure path does
  not release what it built, where the specification expects a failed
  initialisation to leave the session closed.
\<close>

theorem InitDecode_decoder_failure_keeps_parser:
  assumes "nvcuvid_dll_present (env_host env)" and "queue_alloc_ok env"
    and "init_format_ex inp = Some fx" and "create_parser_result env = CUDA_SUCCESS"
    and "create_decoder_call env \<noteq> CallReturns CUDA_SUCCESS"
  shows "\<exists>r st'. InitDecode l inp pLog ign env st = Inr (InitDone r st') \<and> r \<noteq> CUDA_SUCCESS \<and>
           m_videoParser st' \<and> \<not> m_videoDecoder st' \<and> m_pFrameQueue st' \<noteq> None"
proof -
  obtain q where q: "fq_init cnMaximumSize (width inp) (height inp) = Inr q"
    using fq_init_cnMaximumSize by blast
  let ?S = "AddMessage NV_LOG_DEBUG ''created video parser''
             (api (Api_cuvidCreateVideoParser (init_parser_params inp fx))
               (AddMessage NV_LOG_DEBUG ''created frame queue''
                 (AddMessage NV_LOG_DEBUG ''nvcuvid.dll available''
                   (CloseDecoder st\<lparr>m_pPrintMes := pLog, m_bIgnoreDynamicFormatChange := ign\<rparr>)
                  \<lparr>m_ctxLock := l, m_pFrameQueue := Some q\<rparr>)
                \<lparr>m_videoFormatEx := fx\<rparr>)
              \<lparr>m_videoParser := True\<rparr>)"
  have "\<not> m_videoDecoder ?S" by simp
  from init_decoder_failed [OF assms(5) this, of inp] show ?thesis
    using assms q
    by (auto simp: InitDecode_def check_if_nvcuvid_dll_available_def init_frame_queue_def
                   init_video_parser_def Let_def)
qed

text \<open>
  C11: a sequence header longer than the 1024 bytes of
  \<open>raw_seqhdr_data\<close> makes the unchecked \<open>memcpy\<close> of line 172 write past the
  buffer: \<open>InitDecode\<close> overruns it.
\<close>

theorem InitDecode_seqhdr_overflow:
  assumes "nvcuvid_dll_present (env_host env)" and "queue_alloc_ok env"
    and "codecExtra inp = Some extra" and "seqhdr_capacity < codecExtraSize inp"
  shows "InitDecode l inp pLog ign env st = Inl BufferOverrun"
proof -
  obtain q where q: "fq_init cnMaximumSize (width inp) (height inp) = Inr q"
    using fq_init_cnMaximumSize by blast
  show ?thesis
    using assms q init_format_ex_overflow [OF assms(3,4)]
    by (simp add: InitDecode_def check_if_nvcuvid_dll_available_def init_frame_queue_def
                  init_video_parser_def Let_def)
qed

text \<open>
  C12: a sequence header that fits is copied into \<open>m_videoFormatEx\<close>,
  handed to the parser, and fed once the decoder exists: the first packet after the
  creation calls carries exactly the header's bytes, with no flags.
\<close>

theorem InitDecode_sends_sequence_header:
  assumes "nvcuvid_dll_present (env_host env)" and "queue_alloc_ok env"
    and "create_parser_result env = CUDA_SUCCESS" and "create_decoder_call env = CallReturns CUDA_SUCCESS"
    and "codecExtra inp = Some extra" and "0 < codecExtraSize inp"
    and "codecExtraSize inp \<le> seqhdr_capacity" and "codecExtraSize inp \<le> length extra"
  shows "\<exists>s fx pkt new. InitDecode l inp pLog ign env st = Inr s \<and>
     api_trace (init_state s) = api_trace (CloseDecoder st) @
        [Api_cuvidCreateVideoParser (init_parser_params inp fx), Api_cuvidCtxLock,
         Api_cuvidCreateDecoder (init_create_info inp l), Api_cuvidCtxUnlock, Api_cuvidParseVideoData pkt] @ new \<and>
     take (codecExtraSize inp) (raw_seqhdr_data fx) = take (codecExtraSize inp) extra \<and>
     unat (seqhdr_data_length fx) = codecExtraSize inp \<and>
     take (unat (payload_size pkt)) (payload pkt) = take (codecExtraSize inp) extra \<and> flags pkt = 0"
proof -
  obtain q where q: "fq_init cnMaximumSize (width inp) (height inp) = Inr q"
    using fq_init_cnMaximumSize by blast
  obtain fx where fx: "init_format_ex inp = Some fx"
    "take (codecExtraSize inp) (raw_seqhdr_data fx) = take (codecExtraSize inp) extra"
    "unat (seqhdr_data_length fx) = codecExtraSize inp"
    using init_format_ex_copy [OF assms(5-8)] by blast
  let ?S0 = "AddMessage NV_LOG_DEBUG ''created video parser''
             (api (Api_cuvidCreateVideoParser (init_parser_params inp fx))
               (AddMessage NV_LOG_DEBUG ''created frame queue''
                 (AddMessage NV_LOG_DEBUG ''nvcuvid.dll available''
                   (CloseDecoder st\<lparr>m_pPrintMes := pLog, m_bIgnoreDynamicFormatChange := ign\<rparr>)
                  \<lparr>m_ctxLock := l, m_pFrameQueue := Some q\<rparr>)
                \<lparr>m_videoFormatEx := fx\<rparr>)
              \<lparr>m_videoParser := True\<rparr>)"
  have init: "InitDecode l inp pLog ign env st = init_decoder inp env ?S0"
    using assms(1-3) q fx(1)
    by (simp add: InitDecode_def check_if_nvcuvid_dll_available_def init_frame_queue_def
                  init_video_parser_def Let_def)
  obtain S where S: "init_decoder inp env ?S0 = init_decode_header env CUDA_SUCCESS S"
    "m_videoFormatEx S = fx" "m_pFrameQueue S = Some q"
    "api_trace S = api_trace ?S0 @ [Api_cuvidCtxLock, Api_cuvidCreateDecoder (init_create_info inp l),
                                   Api_cuvidCtxUnlock]"
    using init_decoder_succeeds [OF assms(4), of inp ?S0] by auto
  have len: "seqhdr_data_length (m_videoFormatEx S) \<noteq> 0"
    using S(2) fx(3) assms(6) by auto
  obtain s new where s: "init_decode_header env CUDA_SUCCESS S = Inr s"
    "api_trace (init_state s) = api_trace S @
       Api_cuvidParseVideoData (make_packet (raw_seqhdr_data fx) (codecExtraSize inp)
                                  AV_NOPTS_VALUE CUVID_NATIVE_TIMEBASE) # new"
    using init_decode_header_sends [OF len, of env CUDA_SUCCESS] S(2,3) fx(3) by auto
  have n32: "codecExtraSize inp mod 2 ^ 32 = codecExtraSize inp"
    using assms(7) by (simp add: seqhdr_capacity_def)
  show ?thesis
    using init S s fx n32
    by (intro exI [of _ s] exI [of _ fx] exI [of _ new]
              exI [of _ "make_packet (raw_seqhdr_data fx) (codecExtraSize inp) AV_NOPTS_VALUE CUVID_NATIVE_TIMEBASE"])
       (simp add: make_packet_def zero_packet_def unat_of_nat Let_def)
qed

section \<open>The decoder descriptor\<close>

text \<open>
  C20: when the input has no coded width, the decoder width falls back to the
  display width but the display area's right edge is computed from the raw coded width
  0: it is \<open>crop_right - width\<close>, a negative \<open>short\<close>.
\<close>

theorem init_create_info_uncoded_display_area:
  assumes "codedWidth inp = 0" and "0 \<le> crop_right inp" and "crop_right inp < width inp"
    and "width inp < 32768"
  shows "unat (ulWidth (init_create_info inp l)) = nat (width inp) \<and>
         sint (rect_right (display_area (init_create_info inp l))) = crop_right inp - width inp \<and>
         sint (rect_right (display_area (init_create_info inp l))) < 0"
proof -
  have w: "unat (word_of_int (width inp) :: ulong) = nat (width inp)"
    using assms by (simp add: unat_ulong_in_range)
  have r: "sint (word_of_int (crop_right inp - width inp) :: short) = crop_right inp - width inp"
    using assms by (intro sint_short_in_range) simp_all
  have ra: "rect_right (display_area (init_create_info inp l)) = word_of_int (crop_right inp - width inp)"
    using assms(1) by (simp add: init_create_info_def)
  have wa: "ulWidth (init_create_info inp l) = word_of_int (width inp)"
    using assms(1) by (simp add: init_create_info_def)
  show ?thesis
    using assms w r by (simp only: ra wa) simp
qed

section \<open>Witnesses\<close>

theorem InitDecode_engine_unavailable_witness:
  "\<not> nvcuvid_dll_present (env_host (ex_env False (CallReturns CUDA_SUCCESS))) \<and>
   (\<exists>st'. InitDecode None (ex_input None 0) True False (ex_env False (CallReturns CUDA_SUCCESS))
            CuvidDecode_new = Inr (InitDone CUDA_ERROR_NOT_FOUND st') \<and>
          m_pFrameQueue st' = None \<and> \<not> m_videoParser st' \<and> \<not> m_videoDecoder st' \<and>
          api_trace st' = api_trace (CloseDecoder CuvidDecode_new) \<and> session_inv st')"
proof -
  have h: "\<not> nvcuvid_dll_present (env_host (ex_env False (CallReturns CUDA_SUCCESS)))"
    by (simp add: ex_env_def)
  from InitDecode_engine_unavailable [OF h] h show ?thesis by blast
qed

theorem InitDecode_releases_ctx_lock_witness:
  "\<exists>s. InitDecode None (ex_input None 0) True False (ex_env True (CallReturns CUDA_SUCCESS))
         CuvidDecode_new = Inr s \<and>
       (\<exists>new. api_trace (init_state s) = api_trace (CloseDecoder CuvidDecode_new) @ new \<and>
              count_list new Api_cuvidCtxLock = count_list new Api_cuvidCtxUnlock \<and>
              count_list new Api_cuvidCtxLock \<le> 1)"
proof -
  have "\<exists>s. InitDecode None (ex_input None 0) True False (ex_env True (CallReturns CUDA_SUCCESS))
              CuvidDecode_new = Inr s"
    by (simp add: InitDecode_def check_if_nvcuvid_dll_available_def init_frame_queue_def fq_init_def
                  init_video_parser_def init_format_ex_def init_decoder_def CreateDecoder_def
                  guarded_def init_decode_header_def ex_env_def ex_input_def cnMaximumSize_def Let_def)
  then obtain s where s: "InitDecode None (ex_input None 0) True False (ex_env True (CallReturns CUDA_SUCCESS))
                            CuvidDecode_new = Inr s" by blast
  from InitDecode_releases_ctx_lock [OF s] s show ?thesis by blast
qed

theorem InitDecode_success_sizes_agree_witness:
  "nvcuvid_dll_present (env_host (ex_env True (CallReturns CUDA_SUCCESS))) \<and>
   queue_alloc_ok (ex_env True (CallReturns CUDA_SUCCESS)) \<and> codecExtra (ex_input None 0) = None \<and>
   create_parser_result (ex_env True (CallReturns CUDA_SUCCESS)) = CUDA_SUCCESS \<and>
   create_decoder_call (ex_env True (CallReturns CUDA_SUCCESS)) = CallReturns CUDA_SUCCESS \<and>
   (\<exists>st' q. InitDecode None (ex_input None 0) True False (ex_env True (CallReturns CUDA_SUCCESS))
              CuvidDecode_new = Inr (InitDone CUDA_SUCCESS st') \<and>
     m_pFrameQueue st' = Some q \<and> m_videoParser st' \<and> m_videoDecoder st' \<and> session_inv st' \<and>
     unat (ulNumDecodeSurfaces (init_create_info (ex_input None 0) None)) = capacity q \<and>
     capacity q = 20)"
proof -
  have h: "nvcuvid_dll_present (env_host (ex_env True (CallReturns CUDA_SUCCESS)))"
    "queue_alloc_ok (ex_env True (CallReturns CUDA_SUCCESS))" "codecExtra (ex_input None 0) = None"
    "create_parser_result (ex_env True (CallReturns CUDA_SUCCESS)) = CUDA_SUCCESS"
    "create_decoder_call (ex_env True (CallReturns CUDA_SUCCESS)) = CallReturns CUDA_SUCCESS"
    by (simp_all add: ex_env_def ex_input_def)
  from InitDecode_success_sizes_agree [OF h, of None True False CuvidDecode_new] h
  show ?thesis by (auto simp: session_inv_def cnMaximumSize_def)
qed

theorem InitDecode_decoder_failure_keeps_parser_witness:
  "nvcuvid_dll_present (env_host (ex_env True CallFaults)) \<and> queue_alloc_ok (ex_env True CallFaults) \<and>
   init_format_ex (ex_input None 0) = Some zero_format_ex \<and>
   create_parser_result (ex_env True CallFaults) = CUDA_SUCCESS \<and>
   create_decoder_call (ex_env True CallFaults) \<noteq> CallReturns CUDA_SUCCESS \<and>
   (\<exists>r st'. InitDecode None (ex_input None 0) True False (ex_env True CallFaults) CuvidDecode_new =
              Inr (InitDone r st') \<and> r \<noteq> CUDA_SUCCESS \<and>
            m_videoParser st' \<and> \<not> m_videoDecoder st' \<and> m_pFrameQueue st' \<noteq> None)"
proof -
  have h: "nvcuvid_dll_present (env_host (ex_env True CallFaults))" "queue_alloc_ok (ex_env True CallFaults)"
    "init_format_ex (ex_input None 0) = Some zero_format_ex"
    "create_parser_result (ex_env True CallFaults) = CUDA_SUCCESS"
    "create_decoder_call (ex_env True CallFaults) \<noteq> CallReturns CUDA_SUCCESS"
    by (simp_all add: ex_env_def ex_input_def init_format_ex_def)
  from InitDecode_decoder_failure_keeps_parser [OF h, of None True False CuvidDecode_new] h
  show ?thesis by blast
qed

theorem InitDecode_seqhdr_overflow_witness:
  "nvcuvid_dll_present (env_host (ex_env True (CallReturns CUDA_SUCCESS))) \<and>
   queue_alloc_ok (ex_env True (CallReturns CUDA_SUCCESS)) \<and>
   codecExtra (ex_input (Some (replicate 1500 7)) 1500) = Some (replicate 1500 7) \<and>
   seqhdr_capacity < codecExtraSize (ex_input (Some (replicate 1500 7)) 1500) \<and>
   InitDecode None (ex_input (Some (replicate 1500 7)) 1500) True False
     (ex_env True (CallReturns CUDA_SUCCESS)) CuvidDecode_new = Inl BufferOverrun"
proof -
  have h: "nvcuvid_dll_present (env_host (ex_env True (CallReturns CUDA_SUCCESS)))"
    "queue_alloc_ok (ex_env True (CallReturns CUDA_SUCCESS))"
    "codecExtra (ex_input (Some (replicate 1500 7)) 1500) = Some (replicate 1500 7)"
    "seqhdr_capacity < codecExtraSize (ex_input (Some (replicate 1500 7)) 1500)"
    by (simp_all add: ex_env_def ex_input_def seqhdr_capacity_def)
  from InitDecode_seqhdr_overflow [OF h] h show ?thesis by blast
qed

theorem InitDecode_sends_sequence_header_witness:
  "nvcuvid_dll_present (env_host (ex_env True (CallReturns CUDA_SUCCESS))) \<and>
   queue_alloc_ok (ex_env True (CallReturns CUDA_SUCCESS)) \<and>
   create_parser_result (ex_env True (CallReturns CUDA_SUCCESS)) = CUDA_SUCCESS \<and>
   create_decoder_call (ex_env True (CallReturns CUDA_SUCCESS)) = CallReturns CUDA_SUCCESS \<and>
   codecExtra (ex_input (Some [0, 0, 1, 182]) 4) = Some [0, 0, 1, 182] \<and>
   0 < codecExtraSize (ex_input (Some [0, 0, 1, 182]) 4) \<and>
   codecExtraSize (ex_input (Some [0, 0, 1, 182]) 4) \<le> seqhdr_capacity \<and>
   codecExtraSize (ex_input (Some [0, 0, 1, 182]) 4) \<le> length [0, 0, 1, 182::8 word] \<and>
   (\<exists>s fx pkt new. InitDecode None (ex_input (Some [0, 0, 1, 182]) 4) True False
                      (ex_env True (CallReturns CUDA_SUCCESS)) CuvidDecode_new = Inr s \<and>
      api_trace (init_state s) = api_trace (CloseDecoder CuvidDecode_new) @
        [Api_cuvidCreateVideoParser (init_parser_params (ex_input (Some [0, 0, 1, 182]) 4) fx), Api_cuvidCtxLock,
         Api_cuvidCreateDecoder (init_create_info (ex_input (Some [0, 0, 1, 182]) 4) None), Api_cuvidCtxUnlock,
         Api_cuvidParseVideoData pkt] @ new \<and>
      take 4 (raw_seqhdr_data fx) = [0, 0, 1, 182] \<and> unat (seqhdr_data_length fx) = 4 \<and>
      take (unat (payload_size pkt)) (payload pkt) = [0, 0, 1, 182] \<and> flags pkt = 0)"
proof -
  have h: "nvcuvid_dll_present (env_host (ex_env True (CallReturns CUDA_SUCCESS)))"
    "queue_alloc_ok (ex_env True (CallReturns CUDA_SUCCESS))"
    "create_parser_result (ex_env True (CallReturns CUDA_SUCCESS)) = CUDA_SUCCESS"
    "create_decoder_call (ex_env True (CallReturns CUDA_SUCCESS)) = CallReturns CUDA_SUCCESS"
    "codecExtra (ex_input (Some [0, 0, 1, 182]) 4) = Some [0, 0, 1, 182]"
    "0 < codecExtraSize (ex_input (Some [0, 0, 1, 182]) 4)"
    "codecExtraSize (ex_input (Some [0, 0, 1, 182]) 4) \<le> seqhdr_capacity"
    "codecExtraSize (ex_input (Some [0, 0, 1, 182]) 4) \<le> length [0, 0, 1, 182::8 word]"
    by (simp_all add: ex_env_def ex_input_def seqhdr_capacity_def)
  have n: "codecExtraSize (ex_input (Some [0, 0, 1, 182]) 4) = 4" by (simp add: ex_input_def)
  from InitDecode_sends_sequence_header [OF h, of None True False CuvidDecode_new] h
  show ?thesis unfolding n by simp
qed

theorem init_create_info_uncoded_display_area_witness:
  "codedWidth \<lparr>width = 1920, height = 1080, codedWidth = 0, codedHeight = 0, dstWidth = 0, dstHeight = 0,
               crop_left = 0, crop_up = 0, crop_right = 0, crop_bottom = 0, codec = 0, codecExtra = None,
               codecExtraSize = 0\<rparr> = 0 \<and>
   sint (rect_right (display_area (init_create_info
      \<lparr>width = 1920, height = 1080, codedWidth = 0, codedHeight = 0, dstWidth = 0, dstHeight = 0,
       crop_left = 0, crop_up = 0, crop_right = 0, crop_bottom = 0, codec = 0, codecExtra = None,
       codecExtraSize = 0\<rparr> None))) = -1920"
  using init_create_info_uncoded_display_area
    [of "\<lparr>width = 1920, height = 1080, codedWidth = 0, codedHeight = 0, dstWidth = 0, dstHeight = 0,
          crop_left = 0, crop_up = 0, crop_right = 0, crop_bottom = 0, codec = 0, codecExtra = None,
          codecExtraSize = 0\<rparr>" None]
  by simp


end
