(* ===== verification/Session_System.thy ===== *)
theory Session_System
  imports Session_Lifecycle
begin

text \<open>
  The session in its environment: a feeder thread that initialises, feeds packets and
  closes, the parse run that is blocked inside a decode callback, and a consumer that
  takes pictures from the frame queue (\<open>dequeue\<close>) and later releases them
  (\<open>releaseFrame\<close>). \<open>sys_step\<close> is one event of any of them, \<open>sys_reach\<close>
  the states reachable from a constructed object. The invariant \<open>sys_inv\<close> says that
  the object invariant holds and that the consumer's pictures are distinct ready
  slots outside the display FIFO, and that the ready slots are exactly those queued
  or held. Every event keeps it: the feeder's operations keep the consumer's slots
  (\<open>keeps_ready\<close>, \<open>feeder_pool\<close>), and the consumer's steps move a slot from the
  FIFO to its hands and from its hands to the free slots.
\<close>

section \<open>Definitions\<close>

definition keeps_ready :: "frame_queue \<Rightarrow> frame_queue \<Rightarrow> bool" where
  "keeps_ready q q' \<longleftrightarrow>
     capacity q' = capacity q \<and>
     count_list (slot_states q') Ready + length (queued q) =
       count_list (slot_states q) Ready + length (queued q') \<and>
     (\<forall>k < capacity q. slot_states q ! k = Ready \<and> k \<notin> set (queued_slots q) \<longrightarrow>
                      slot_states q' ! k = Ready \<and> k \<notin> set (queued_slots q'))"

definition feeder_pool :: "cuvid_decode \<Rightarrow> cuvid_decode \<Rightarrow> bool" where
  "feeder_pool st st' \<longleftrightarrow>
     (case (m_pFrameQueue st, m_pFrameQueue st') of
        (Some q, Some q') \<Rightarrow> keeps_ready q q'
      | (None, None) \<Rightarrow> True
      | _ \<Rightarrow> False)"

definition held_ok :: "frame_queue \<Rightarrow> disp_info list \<Rightarrow> bool" where
  "held_ok q hs \<longleftrightarrow>
     count_list (slot_states q) Ready = length (queued q) + length hs \<and>
     distinct (map picture_index hs) \<and>
     list_all (\<lambda>d. ready_entry q d \<and> nat (picture_index d) \<notin> set (queued_slots q)) hs"

text \<open>
  The session in its environment: the object, the parse run that is blocked in a
  decode callback (if any), and the pictures the consumer has taken and not yet
  released.
\<close>

record sys =
  sys_sess :: cuvid_decode
  sys_job :: "parse_job option"
  sys_held :: "disp_info list"

datatype sys_event =
    EvInit "CUvideoctxlock option" input_video_info bool bool init_env
  | EvFeed "8 word list option" nat int AVRational parse_reply
  | EvResume
  | EvTake
  | EvRelease nat
  | EvClose

definition sys_init :: sys where
  "sys_init = \<lparr>sys_sess = CuvidDecode_new, sys_job = None, sys_held = []\<rparr>"

definition feed_to_sys :: "sys \<Rightarrow> feed_status \<Rightarrow> sys" where
  "feed_to_sys s r =
     (case r of
        FeedBlocked j st \<Rightarrow> s\<lparr>sys_sess := st, sys_job := Some j\<rparr>
      | FeedDone _ st \<Rightarrow> s\<lparr>sys_sess := st, sys_job := None\<rparr>)"

text \<open>
  One event. \<open>None\<close>: the event cannot happen now (the feeder is blocked inside the
  parser, the consumer waits for a picture, or there is no frame queue for it).
  The consumer's \<open>take_ready\<close> and \<open>release\<close> are \<open>dequeue\<close> and
  \<open>releaseFrame\<close> on the object's frame queue.
\<close>

fun sys_step :: "sys_event \<Rightarrow> sys \<Rightarrow> (fault + sys) option" where
  "sys_step (EvInit l inp lg ign env) s =
     (if sys_job s \<noteq> None then None
      else Some (case InitDecode l inp lg ign env (sys_sess s) of
                   Inl e \<Rightarrow> Inl e
                 | Inr (InitDone r st) \<Rightarrow> Inr \<lparr>sys_sess = st, sys_job = None, sys_held = []\<rparr>
                 | Inr (InitBlocked j st) \<Rightarrow> Inr \<lparr>sys_sess = st, sys_job = Some j, sys_held = []\<rparr>))"
| "sys_step (EvFeed d n ts tb rep) s =
     (if sys_job s \<noteq> None then None
      else Some (case DecodePacket d n ts tb rep (sys_sess s) of
                   Inl e \<Rightarrow> Inl e
                 | Inr r \<Rightarrow> Inr (feed_to_sys s r)))"
| "sys_step EvResume s =
     (case sys_job s of
        None \<Rightarrow> None
      | Some j \<Rightarrow> Some (case run_job j (sys_sess s) of
                          Inl e \<Rightarrow> Inl e
                        | Inr r \<Rightarrow> Inr (feed_to_sys s r)))"
| "sys_step EvTake s =
     (case m_pFrameQueue (sys_sess s) of
        None \<Rightarrow> None
      | Some q \<Rightarrow>
          (case dequeue q of
             Taken d q' \<Rightarrow> Some (Inr (s\<lparr>sys_sess := (sys_sess s)\<lparr>m_pFrameQueue := Some q'\<rparr>,
                                       sys_held := sys_held s @ [d]\<rparr>))
           | NothingReady \<Rightarrow> None
           | EndOfStream \<Rightarrow> Some (Inr s)))"
| "sys_step (EvRelease i) s =
     (if length (sys_held s) \<le> i then None
      else case m_pFrameQueue (sys_sess s) of
        None \<Rightarrow> None
      | Some q \<Rightarrow>
          (case releaseFrame (picture_index (sys_held s ! i)) q of
             Inl _ \<Rightarrow> Some (Inr s)
           | Inr q' \<Rightarrow> Some (Inr (s\<lparr>sys_sess := (sys_sess s)\<lparr>m_pFrameQueue := Some q'\<rparr>,
                                     sys_held := take i (sys_held s) @ drop (Suc i) (sys_held s)\<rparr>))))"
| "sys_step EvClose s =
     (if sys_job s \<noteq> None then None
      else Some (Inr \<lparr>sys_sess = CloseDecoder (sys_sess s), sys_job = None, sys_held = []\<rparr>))"

inductive sys_reach :: "sys \<Rightarrow> bool" where
  start: "sys_reach sys_init"
| step: "sys_reach s \<Longrightarrow> sys_step ev s = Some (Inr s') \<Longrightarrow> sys_reach s'"

text \<open>
  The system invariant: the object invariant, and the consumer's pictures are
  distinct ready slots outside the display ring; without a frame queue nothing is
  held and no parse is blocked.
\<close>

definition sys_inv :: "sys \<Rightarrow> bool" where
  "sys_inv s \<longleftrightarrow>
     session_inv (sys_sess s) \<and>
     (case m_pFrameQueue (sys_sess s) of
        None \<Rightarrow> sys_held s = [] \<and> sys_job s = None
      | Some q \<Rightarrow> held_ok q (sys_held s))"

text \<open>A run of events; it stops at the first fault or at an event that cannot happen.\<close>

fun sys_run :: "sys_event list \<Rightarrow> sys \<Rightarrow> (fault + sys) option" where
  "sys_run [] s = Some (Inr s)"
| "sys_run (e # es) s = (case sys_step e s of Some (Inr s') \<Rightarrow> sys_run es s' | r \<Rightarrow> r)"

text \<open>Fixtures: a parse that decodes into slot \<open>i\<close> and displays it, and two runs
  of a session with a consumer.\<close>

definition ex_display_reply :: "int \<Rightarrow> parse_reply" where
  "ex_display_reply i =
     \<lparr>reply_callbacks = [DecodePictureCallback \<lparr>CurrPicIdx = i\<rparr> (CallReturns CUDA_SUCCESS),
                        DisplayPictureCallback (empty_disp_info\<lparr>picture_index := i\<rparr>)],
      reply_outcome = CallReturns CUDA_SUCCESS\<rparr>"

definition ex_consumer_events :: "sys_event list" where
  "ex_consumer_events =
     [EvInit None (ex_input None 0) True False (ex_env True (CallReturns CUDA_SUCCESS)),
      EvFeed (Some [1]) 1 0 CUVID_NATIVE_TIMEBASE (ex_display_reply 0),
      EvTake]"

section \<open>The feeder keeps the consumer's slots\<close>

lemma keeps_ready_refl [simp]: "keeps_ready q q"
  by (simp add: keeps_ready_def)

lemma keeps_ready_trans: "keeps_ready a b \<Longrightarrow> keeps_ready b c \<Longrightarrow> keeps_ready a c"
  unfolding keeps_ready_def by (elim conjE) (intro conjI; simp)

lemma nth_update_other:
  "xs ! k \<noteq> xs ! j \<Longrightarrow> xs[j := x] ! k = xs ! k"
  by (cases "k = j") simp_all

lemma keeps_ready_wait:
  "fq_inv q \<Longrightarrow> waitUntilFrameAvailable i q = Inr (Acquired q') \<Longrightarrow> keeps_ready q q'"
  by (auto simp: keeps_ready_def waitUntilFrameAvailable_Acquired nth_update_other fq_inv_def)

lemma keeps_ready_enqueue:
  assumes "fq_inv q" and "enqueue d q = Inr q'"
  shows "keeps_ready q q'"
proof -
  have qs: "queued_slots q' = queued_slots q @ [nat (picture_index d)]"
    using queued_enqueue [OF assms] by (simp add: queued_slots_def)
  from assms(2) have r: "slot_states q ! nat (picture_index d) = Reserved"
    and st': "slot_states q' = (slot_states q)[nat (picture_index d) := Ready]"
    and c: "capacity q' = capacity q"
    by (auto simp: enqueue_Inr)
  have l: "nat (picture_index d) < length (slot_states q)"
    using assms by (auto simp: enqueue_Inr fq_inv_def)
  have "queued q' = queued q @ [d]" by (rule queued_enqueue [OF assms])
  then show ?thesis
    unfolding keeps_ready_def qs st' c using r l by (auto simp: nth_update_other)
qed

lemma keeps_ready_endDecode [simp]: "keeps_ready q (endDecode q)"
  by (simp add: keeps_ready_def endDecode_def queued_slots_def)

lemma held_ok_keeps:
  "held_ok q hs \<Longrightarrow> keeps_ready q q' \<Longrightarrow> held_ok q' hs"
  unfolding held_ok_def keeps_ready_def ready_entry_def list_all_iff
  by (elim conjE) (intro conjI; auto)

lemma feeder_pool_refl [simp]: "feeder_pool st st"
  by (simp add: feeder_pool_def split: option.split)

lemma feeder_pool_trans: "feeder_pool a b \<Longrightarrow> feeder_pool b c \<Longrightarrow> feeder_pool a c"
  by (auto simp: feeder_pool_def split: option.splits intro: keeps_ready_trans)

lemma feeder_pool_same_queue:
  "m_pFrameQueue st' = m_pFrameQueue st \<Longrightarrow> feeder_pool st st'"
  by (simp add: feeder_pool_def split: option.split)

lemma decode_after_wait_feeder:
  assumes "session_inv st" and "decode_after_wait pp dec st = Inr s"
  shows "feeder_pool st (cb_state s)"
proof (cases "m_pFrameQueue st")
  case None
  with assms(2) show ?thesis by (simp add: decode_after_wait_def)
next
  case (Some q)
  have fq: "fq_inv q" using assms(1) Some by (simp add: session_inv_def)
  show ?thesis
  proof (cases "waitUntilFrameAvailable (CurrPicIdx pp) q")
    case (Inl e)
    with Some assms(2) show ?thesis
      by (auto simp: decode_after_wait_def guarded_def cb_state_def feeder_pool_def Let_def
               split: cu_call.splits if_splits)
  next
    case (Inr w)
    with Some assms(2) keeps_ready_wait [OF fq, of "CurrPicIdx pp"] show ?thesis
      by (cases w) (auto simp: decode_after_wait_def guarded_def cb_state_def feeder_pool_def Let_def
                         split: cu_call.splits if_splits)
  qed
qed

lemma DecPictureDisplay_feeder:
  assumes "session_inv st" and "DecPictureDisplay d st = Inr (r, st')"
  shows "feeder_pool st st'"
proof -
  from assms(2) obtain q where q: "m_pFrameQueue st = Some q"
    and st': "m_pFrameQueue st' = Some (case enqueue d q of Inl _ \<Rightarrow> q | Inr q' \<Rightarrow> q')"
    by (auto simp: DecPictureDisplay_def Let_def split: option.splits)
  have "fq_inv q" using assms(1) q by (simp add: session_inv_def)
  then show ?thesis
    using q st' keeps_ready_enqueue [of q d]
    by (auto simp: feeder_pool_def split: sum.split)
qed

lemma step_pending_feeder:
  assumes "session_inv st" and "step_pending p st = Inr s"
  shows "feeder_pool st (cb_state s)"
proof (cases p)
  case (Callback cb)
  show ?thesis
  proof (cases cb)
    case (SequenceCallback f)
    with Callback assms(2) have "cb_state s = snd (DecVideoSequence f st)"
      by (auto simp: step_pending_def handle_callback_def cb_state_def split: prod.splits)
    then show ?thesis using DecVideoSequence_frame [of f st] by (simp add: feeder_pool_same_queue)
  next
    case (DecodePictureCallback pp dec)
    with Callback assms(2) have "decode_after_wait pp dec (AddMessage NV_LOG_TRACE ''DecPictureDecode idx'' st) = Inr s"
      by (simp add: step_pending_def handle_callback_def DecPictureDecode_def)
    from decode_after_wait_feeder [OF _ this] assms(1) show ?thesis
      by (simp add: feeder_pool_def)
  next
    case (DisplayPictureCallback d)
    with Callback assms(2) obtain r st' where "DecPictureDisplay d st = Inr (r, st')" "s = CbReturn r st'"
      by (auto simp: step_pending_def handle_callback_def split: sum.splits prod.splits)
    with DecPictureDisplay_feeder [OF assms(1)] show ?thesis by (simp add: cb_state_def)
  qed
next
  case (WaitingDecode pp dec)
  with assms decode_after_wait_feeder show ?thesis by (simp add: step_pending_def)
qed

lemma run_pending_feeder:
  "session_inv st \<Longrightarrow> run_pending ps st = Inr (ps', st') \<Longrightarrow> feeder_pool st st'"
proof (induction ps st rule: run_pending.induct)
  case (1 st)
  then show ?case by simp
next
  case (2 p ps st)
  show ?case
  proof (cases "step_pending p st")
    case (Inl e)
    with "2.prems" show ?thesis by simp
  next
    case (Inr s)
    note fp = step_pending_feeder [OF "2.prems"(1) Inr]
    have inv: "session_inv (cb_state s)" using step_pending_frame_inv [OF Inr] "2.prems"(1) by simp
    show ?thesis
    proof (cases s)
      case (CbBlocked st1)
      with Inr "2.prems" fp show ?thesis by (auto simp: cb_state_def)
    next
      case (CbReturn r st1)
      with Inr "2.prems" have "run_pending ps st1 = Inr (ps', st')" by simp
      with "2.IH" [OF Inr CbReturn] inv fp CbReturn show ?thesis
        by (auto simp: cb_state_def intro: feeder_pool_trans)
    qed
  qed
qed

lemma finish_parse_feeder:
  assumes "session_inv st" and "finish_parse caller c st = Inr (r, st')"
  shows "feeder_pool st st' \<and> session_inv st'"
proof (cases caller)
  case FromFlushParser
  with assms(2) obtain q where q: "m_pFrameQueue st = Some q" "m_pFrameQueue st' = Some (endDecode q)"
    by (auto dest: finish_parse_flush)
  have "session_inv st'"
    using assms FromFlushParser q endDecode_inv
    by (auto simp: finish_parse_def guarded_def session_inv_def endDecode_def split: cu_call.splits)
  with q show ?thesis by (simp add: feeder_pool_def)
qed (use assms in \<open>auto simp: finish_parse_def guarded_def feeder_pool_same_queue session_inv_def
                           split: cu_call.splits if_splits option.splits\<close>)

lemma run_job_feeder:
  assumes "session_inv st" and "run_job j st = Inr s"
  shows "feeder_pool st (feed_state s) \<and> session_inv (feed_state s)"
proof -
  from assms(2) obtain ps st1 where rp: "run_pending (job_pending j) st = Inr (ps, st1)"
    by (auto simp: run_job_def split: sum.splits)
  have fp1: "feeder_pool st st1" using run_pending_feeder [OF assms(1) rp] .
  have inv1: "session_inv st1" using run_pending_frame_inv [OF rp] assms(1) by simp
  show ?thesis
  proof (cases ps)
    case Nil
    with assms(2) rp obtain r st2 where fin: "finish_parse (job_caller j) (job_outcome j) st1 = Inr (r, st2)"
      and "s = FeedDone r st2"
      by (auto simp: run_job_def split: sum.splits)
    with finish_parse_feeder [OF inv1 fin] fp1 show ?thesis
      by (auto simp: feed_state_def intro: feeder_pool_trans)
  next
    case (Cons p ps')
    with assms(2) rp have "s = FeedBlocked (j\<lparr>job_pending := ps\<rparr>) st1"
      by (simp add: run_job_def)
    with fp1 inv1 show ?thesis by (simp add: feed_state_def)
  qed
qed

lemma parse_video_data_feeder:
  "session_inv st \<Longrightarrow> parse_video_data caller pkt rep st = Inr s \<Longrightarrow>
   feeder_pool st (feed_state s) \<and> session_inv (feed_state s)"
  unfolding parse_video_data_def
  by (drule run_job_feeder [rotated]) (simp_all add: feeder_pool_def split: option.splits)

lemma DecodePacket_feeder:
  "session_inv st \<Longrightarrow> DecodePacket data n ts tb rep st = Inr s \<Longrightarrow>
   feeder_pool st (feed_state s) \<and> session_inv (feed_state s)"
  by (auto simp: DecodePacket_def FlushParser_def split: option.splits if_splits
           dest: parse_video_data_feeder)

section \<open>Initialisation establishes the object invariant\<close>

lemma init_decode_header_inv:
  assumes "session_inv st" and "m_pFrameQueue st = Some q" and "held_ok q []"
    and "init_decode_header env r st = Inr s"
  shows "session_inv (init_state s) \<and> (\<exists>q'. m_pFrameQueue (init_state s) = Some q' \<and> held_ok q' [])"
proof (cases "seqhdr_data_length (m_videoFormatEx st) = 0")
  case True
  with assms show ?thesis by (auto simp: init_decode_header_def init_state_def)
next
  case False
  with assms(4) obtain fs where fs: "DecodePacket (Some (raw_seqhdr_data (m_videoFormatEx st)))
                (unat (seqhdr_data_length (m_videoFormatEx st))) AV_NOPTS_VALUE
                CUVID_NATIVE_TIMEBASE (header_reply env) st = Inr fs"
      and st': "init_state s = feed_state fs \<or> init_state s = AddMessage NV_LOG_ERROR ''Failed to decode header'' (feed_state fs)"
    by (auto simp: init_decode_header_def init_state_def feed_state_def
             split: sum.splits feed_status.splits if_splits)
  from DecodePacket_feeder [OF assms(1) fs] assms(2,3) st' show ?thesis
    by (auto simp: feeder_pool_def split: option.splits intro: held_ok_keeps)
qed

lemma init_decoder_inv:
  assumes "session_inv st" and "m_pFrameQueue st = Some q" and "held_ok q []" and "m_videoParser st"
    and "init_decoder inp env st = Inr s"
  shows "session_inv (init_state s) \<and> (\<exists>q'. m_pFrameQueue (init_state s) = Some q' \<and> held_ok q' [])"
proof -
  let ?st1 = "(api Api_cuvidCtxLock st)\<lparr>m_videoDecodeCreateInfo := init_create_info inp (m_ctxLock st)\<rparr>"
  obtain r st2 where cd: "CreateDecoder (create_decoder_call env) ?st1 = (r, st2)"
    by (cases "CreateDecoder (create_decoder_call env) ?st1")
  have inv2: "session_inv (api Api_cuvidCtxUnlock st2)" "m_pFrameQueue st2 = Some q"
    using CreateDecoder_fields [OF cd] assms(1,2,4)
    by (auto simp: session_inv_def split: option.splits)
  show ?thesis
  proof (cases "r = CUDA_SUCCESS")
    case False
    with assms(3,5) cd inv2 show ?thesis by (auto simp: init_decoder_def init_state_def Let_def)
  next
    case True
    with assms(5) cd have "init_decode_header env r (AddMessage NV_LOG_DEBUG ''created decoder'' (api Api_cuvidCtxUnlock st2)) = Inr s"
      by (simp add: init_decoder_def Let_def)
    with inv2 assms(3) show ?thesis by (intro init_decode_header_inv) simp_all
  qed
qed

lemma init_frame_queue_inv:
  assumes "session_inv st" and "init_frame_queue inp env st = Inr s"
  shows "session_inv (init_state s) \<and> (\<exists>q'. m_pFrameQueue (init_state s) = Some q' \<and> held_ok q' [])"
proof -
  from assms(2) obtain q where q: "fq_init cnMaximumSize (width inp) (height inp) = Inr q"
    and vp: "init_video_parser inp env (AddMessage NV_LOG_DEBUG ''created frame queue'' (st\<lparr>m_pFrameQueue := Some q\<rparr>)) = Inr s"
    by (auto simp: init_frame_queue_def split: if_splits sum.splits)
  have fq: "fq_inv q" "capacity q = cnMaximumSize"
    using fq_init_inv [OF q] q cnMaximumSize_pos by (auto simp: fq_init_def)
  have h0: "held_ok q []"
    using q by (auto simp: fq_init_def held_ok_def queued_def split: if_splits)
  let ?st1 = "AddMessage NV_LOG_DEBUG ''created frame queue'' (st\<lparr>m_pFrameQueue := Some q\<rparr>)"
  from vp obtain fx where fx: "init_format_ex inp = Some fx"
    by (auto simp: init_video_parser_def split: option.splits)
  let ?st2 = "api (Api_cuvidCreateVideoParser (init_parser_params inp fx)) (?st1\<lparr>m_videoFormatEx := fx\<rparr>)"
  have inv2: "session_inv ?st2" "session_inv (?st2\<lparr>m_videoParser := True\<rparr>)"
    using assms(1) fq by (auto simp: session_inv_def)
  show ?thesis
  proof (cases "create_parser_result env = CUDA_SUCCESS")
    case False
    with vp fx inv2 h0 show ?thesis by (auto simp: init_video_parser_def init_state_def Let_def)
  next
    case True
    with vp fx have "init_decoder inp env (AddMessage NV_LOG_DEBUG ''created video parser'' (?st2\<lparr>m_videoParser := True\<rparr>)) = Inr s"
      by (simp add: init_video_parser_def Let_def)
    with inv2 h0 show ?thesis by (intro init_decoder_inv) simp_all
  qed
qed

lemma InitDecode_inv:
  assumes "InitDecode l inp lg ign env st = Inr s"
  shows "session_inv (init_state s) \<and>
         (\<forall>q. m_pFrameQueue (init_state s) = Some q \<longrightarrow> held_ok q []) \<and>
         (\<forall>j st'. s = InitBlocked j st' \<longrightarrow> m_pFrameQueue st' \<noteq> None)"
proof (cases "nvcuvid_dll_present (env_host env)")
  case False
  with assms show ?thesis by (auto simp: InitDecode_probe_fails init_state_def session_inv_def)
next
  case True
  let ?st = "(AddMessage NV_LOG_DEBUG ''nvcuvid.dll available''
               ((CloseDecoder st)\<lparr>m_pPrintMes := lg, m_bIgnoreDynamicFormatChange := ign\<rparr>))\<lparr>m_ctxLock := l\<rparr>"
  from True assms have "init_frame_queue inp env ?st = Inr s"
    by (simp add: InitDecode_def check_if_nvcuvid_dll_available_def)
  moreover have "session_inv ?st" by (simp add: session_inv_def)
  ultimately show ?thesis by (auto dest: init_frame_queue_inv simp: init_state_def)
qed

section \<open>The consumer's steps keep its slots\<close>

lemma parse_no_queue_done:
  assumes "m_pFrameQueue st = None" and "parse_video_data caller pkt rep st = Inr s"
  shows "\<exists>r st'. s = FeedDone r st' \<and> m_pFrameQueue st' = None"
proof -
  have q: "m_pFrameQueue (api (Api_cuvidParseVideoData pkt) st) = None" using assms(1) by simp
  from run_pending_no_queue [OF q, of "map Callback (reply_callbacks rep)"] assms(2) show ?thesis
    by (auto simp: parse_video_data_def run_job_def finish_parse_def guarded_def
             split: cu_call.splits parse_caller.splits if_splits)
qed

lemma DecodePacket_no_queue_done:
  "m_pFrameQueue st = None \<Longrightarrow> DecodePacket data n ts tb rep st = Inr s \<Longrightarrow>
   \<exists>r st'. s = FeedDone r st' \<and> m_pFrameQueue st' = None"
  by (auto simp: DecodePacket_def FlushParser_def split: option.splits if_splits
           dest: parse_no_queue_done)

lemma distinct_map_remove_nth:
  assumes "distinct (map f xs)" and "i < length xs"
  shows "distinct (map f (take i xs @ drop (Suc i) xs)) \<and>
         f (xs ! i) \<notin> f ` set (take i xs @ drop (Suc i) xs)"
proof -
  from assms(1) have "distinct (map f (take i xs @ xs ! i # drop (Suc i) xs))"
    by (simp only: id_take_nth_drop [OF assms(2), symmetric])
  then show ?thesis by auto
qed

lemma held_ok_take:
  assumes "fq_inv q" and "held_ok q hs" and "dequeue q = Taken d q'"
  shows "held_ok q' (hs @ [d])"
proof -
  have eq: "queued q = d # queued q'" by (rule queued_dequeue [OF assms(1,3)])
  have same: "slot_states q' = slot_states q" "capacity q' = capacity q"
    using assms(3) by (auto simp: dequeue_def split: if_splits)
  have re: "ready_entry q' = ready_entry q" by (rule ready_entry_cong) (simp_all add: same)
  have qs: "queued_slots q = nat (picture_index d) # queued_slots q'"
    using eq by (simp add: queued_slots_def)
  have dist: "distinct (queued_slots q)" and rd: "ready_entry q d"
    using assms(1) eq by (simp_all add: fq_inv_def)
  have "picture_index d \<notin> set (map picture_index hs)"
    using assms(2) qs by (auto simp: held_ok_def list_all_iff)
  moreover have "count_list (slot_states q') Ready = length (queued q') + length (hs @ [d])"
    using assms(2) eq same by (simp add: held_ok_def)
  ultimately show ?thesis
    using assms(2) qs dist rd by (auto simp: held_ok_def re list_all_iff)
qed

lemma held_ok_release:
  assumes "fq_inv q" and "held_ok q hs" and "i < length hs"
    and "releaseFrame (picture_index (hs ! i)) q = Inr q'"
  shows "held_ok q' (take i hs @ drop (Suc i) hs)"
proof -
  let ?k = "nat (picture_index (hs ! i))"
  have st': "slot_states q' = (slot_states q)[?k := Free]" "capacity q' = capacity q"
    and qq: "queued q' = queued q"
    using assms(4) queued_releaseFrame [OF assms(4)] by (auto simp: releaseFrame_Inr)
  have qs: "queued_slots q' = queued_slots q" by (simp add: queued_slots_def qq)
  have nn: "0 \<le> picture_index (hs ! i)" using assms(2,3) by (auto simp: held_ok_def list_all_iff ready_entry_def)
  have dm: "distinct (map picture_index (take i hs @ drop (Suc i) hs))"
    and ni: "picture_index (hs ! i) \<notin> picture_index ` set (take i hs @ drop (Suc i) hs)"
    using distinct_map_remove_nth [of picture_index hs i] assms(2,3) by (simp_all add: held_ok_def)
  have sub: "set (take i hs @ drop (Suc i) hs) \<subseteq> set hs"
    by (auto dest: in_set_takeD in_set_dropD)
  have other: "nat (picture_index h) \<noteq> ?k" if "h \<in> set (take i hs @ drop (Suc i) hs)" for h
  proof -
    have "0 \<le> picture_index h" using that sub assms(2) by (auto simp: held_ok_def list_all_iff ready_entry_def)
    moreover have "picture_index h \<noteq> picture_index (hs ! i)"
      using that ni by (metis image_eqI)
    ultimately show ?thesis using nn by simp
  qed
  have "ready_entry q' h \<and> nat (picture_index h) \<notin> set (queued_slots q')"
    if "h \<in> set (take i hs @ drop (Suc i) hs)" for h
    using other [OF that] not_sym [OF other [OF that]] sub that assms(2)
    by (auto simp: held_ok_def list_all_iff ready_entry_def st' qs)
  moreover have "count_list (slot_states q') Ready = length (queued q') + length (take i hs @ drop (Suc i) hs)"
  proof -
    have "?k < length (slot_states q)" "slot_states q ! ?k = Ready"
      using assms(1-3) by (auto simp: held_ok_def list_all_iff ready_entry_def fq_inv_def)
    then show ?thesis using assms(2,3) by (simp add: st' qq held_ok_def)
  qed
  ultimately show ?thesis using dm by (simp add: held_ok_def list_all_iff)
qed

section \<open>Every event keeps the system invariant\<close>

lemma sys_inv_feed:
  assumes "sys_inv s" and "feeder_pool (sys_sess s) (feed_state r)" and "session_inv (feed_state r)"
    and "m_pFrameQueue (sys_sess s) = None \<Longrightarrow> \<exists>c st'. r = FeedDone c st' \<and> m_pFrameQueue st' = None"
  shows "sys_inv (feed_to_sys s r)"
proof (cases "m_pFrameQueue (sys_sess s)")
  case None
  with assms(4) obtain c st' where "r = FeedDone c st'" "m_pFrameQueue st' = None" by blast
  with assms(1,3) None show ?thesis by (simp add: sys_inv_def feed_to_sys_def feed_state_def)
next
  case (Some q)
  with assms(2) obtain q' where q': "m_pFrameQueue (feed_state r) = Some q'" "keeps_ready q q'"
    by (auto simp: feeder_pool_def split: option.splits)
  have "held_ok q (sys_held s)" using assms(1) Some by (simp add: sys_inv_def)
  with q' assms(3) show ?thesis
    by (cases r) (auto simp: sys_inv_def feed_to_sys_def feed_state_def intro: held_ok_keeps)
qed

lemma sys_step_init_inv:
  "sys_step (EvInit l inp lg ign env) s = Some (Inr s') \<Longrightarrow> sys_inv s'"
  by (auto simp: sys_inv_def held_ok_def init_state_def
           split: if_splits sum.splits init_status.splits option.split dest!: InitDecode_inv)

lemma sys_step_feed_inv:
  assumes "sys_inv s" and "sys_step (EvFeed d n ts tb rep) s = Some (Inr s')"
  shows "sys_inv s'"
proof -
  from assms(2) obtain r where dp: "DecodePacket d n ts tb rep (sys_sess s) = Inr r"
    and s': "s' = feed_to_sys s r"
    by (auto split: if_splits sum.splits)
  have inv: "session_inv (sys_sess s)" using assms(1) by (simp add: sys_inv_def)
  from DecodePacket_feeder [OF inv dp] DecodePacket_no_queue_done [OF _ dp] s' assms(1)
  show ?thesis by (auto intro: sys_inv_feed)
qed

lemma sys_step_resume_inv:
  assumes "sys_inv s" and "sys_step EvResume s = Some (Inr s')"
  shows "sys_inv s'"
proof -
  from assms(2) obtain j r where j: "sys_job s = Some j" and rj: "run_job j (sys_sess s) = Inr r"
    and s': "s' = feed_to_sys s r"
    by (auto split: option.splits sum.splits)
  have inv: "session_inv (sys_sess s)" and q: "m_pFrameQueue (sys_sess s) \<noteq> None"
    using assms(1) j by (auto simp: sys_inv_def split: option.splits)
  from run_job_feeder [OF inv rj] q s' assms(1) show ?thesis by (auto intro: sys_inv_feed)
qed

lemma sys_step_take_inv:
  assumes "sys_inv s" and "sys_step EvTake s = Some (Inr s')"
  shows "sys_inv s'"
proof -
  from assms(2) obtain q where q: "m_pFrameQueue (sys_sess s) = Some q"
    by (auto split: option.splits)
  have fq: "fq_inv q" "capacity q = cnMaximumSize" and h: "held_ok q (sys_held s)"
    using assms(1) q by (simp_all add: sys_inv_def session_inv_def)
  show ?thesis
  proof (cases "dequeue q")
    case (Taken d q')
    have "capacity q' = capacity q" using Taken by (auto simp: dequeue_def split: if_splits)
    with Taken assms q fq held_ok_take [OF fq(1) h Taken] dequeue_inv [OF fq(1) Taken]
    show ?thesis by (auto simp: sys_inv_def session_inv_def)
  qed (use assms q in auto)
qed

lemma sys_step_release_inv:
  assumes "sys_inv s" and "sys_step (EvRelease i) s = Some (Inr s')"
  shows "sys_inv s'"
proof -
  from assms(2) obtain q where q: "m_pFrameQueue (sys_sess s) = Some q" and i: "i < length (sys_held s)"
    by (auto split: if_splits option.splits)
  have fq: "fq_inv q" "capacity q = cnMaximumSize" and h: "held_ok q (sys_held s)"
    using assms(1) q by (simp_all add: sys_inv_def session_inv_def)
  show ?thesis
  proof (cases "releaseFrame (picture_index (sys_held s ! i)) q")
    case (Inr q')
    have nq: "nat (picture_index (sys_held s ! i)) \<notin> set (queued_slots q)"
      using h i by (auto simp: held_ok_def list_all_iff)
    have "capacity q' = capacity q" using Inr by (auto simp: releaseFrame_Inr)
    with Inr assms q i fq held_ok_release [OF fq(1) h i Inr] releaseFrame_inv [OF fq(1) Inr nq]
    show ?thesis by (auto simp: sys_inv_def session_inv_def)
  qed (use assms q i in auto)
qed

lemma sys_step_inv:
  assumes "sys_inv s" and "sys_step ev s = Some (Inr s')"
  shows "sys_inv s'"
proof (cases ev)
  case (EvInit l inp lg ign env)
  with assms(2) show ?thesis by (simp only: sys_step_init_inv)
next
  case (EvFeed d n ts tb rep)
  with assms show ?thesis by (simp only: sys_step_feed_inv)
next
  case EvResume
  with assms show ?thesis by (simp only: sys_step_resume_inv)
next
  case EvTake
  with assms show ?thesis by (simp only: sys_step_take_inv)
next
  case (EvRelease i)
  with assms show ?thesis by (simp only: sys_step_release_inv)
next
  case EvClose
  with assms(2) show ?thesis
    by (auto simp: sys_inv_def CloseDecoder_session_inv split: if_splits)
qed

lemma sys_init_inv: "sys_inv sys_init"
  by (simp add: sys_inv_def sys_init_def CuvidDecode_new_def session_inv_def)

section \<open>Reachable states\<close>

lemma sys_reach_inv: "sys_reach s \<Longrightarrow> sys_inv s"
  by (induction rule: sys_reach.induct) (auto intro: sys_init_inv sys_step_inv)

lemma sys_run_reach: "sys_reach s \<Longrightarrow> sys_run es s = Some (Inr s') \<Longrightarrow> sys_reach s'"
proof (induction es arbitrary: s)
  case Nil
  then show ?case by simp
next
  case (Cons e es)
  then show ?case
    by (auto split: option.splits sum.splits intro: sys_reach.step)
qed

section \<open>Properties of the session with a consumer\<close>

lemmas sys_eval_simps = sys_init_def ex_display_reply_def ex_env_def ex_input_def
      InitDecode_def check_if_nvcuvid_dll_available_def init_frame_queue_def fq_init_def
      init_video_parser_def init_format_ex_def init_decoder_def CreateDecoder_def guarded_def
      init_decode_header_def cnMaximumSize_def Let_def feed_to_sys_def
      DecodePacket_def FlushParser_def parse_video_data_def run_job_def finish_parse_def
      step_pending_def handle_callback_def DecPictureDecode_def decode_after_wait_def DecPictureDisplay_def
      fq_simps dequeue_def empty_disp_info_def

lemma ex_consumer_state:
  "\<exists>s q. sys_run ex_consumer_events sys_init = Some (Inr s) \<and> m_pFrameQueue (sys_sess s) = Some q \<and>
         \<not> end_of_decode q \<and> sys_held s = [empty_disp_info]"
  by (simp add: ex_consumer_events_def sys_eval_simps)

text \<open>
  C21: in every reachable state of a session with a consumer, the frame queue
  is well formed with \<open>cnMaximumSize\<close> slots, its free count is the capacity less
  the reserved and ready slots, and no ready slot leaks: each one is either waiting in
  the display FIFO or held by the consumer.
\<close>

theorem reachable_slots_accounted:
  assumes "sys_reach s" and "m_pFrameQueue (sys_sess s) = Some q"
  shows "fq_inv q \<and> capacity q = cnMaximumSize \<and>
         count_list (slot_states q) Ready = length (queued q) + length (sys_held s) \<and>
         available q = capacity q - (count_list (slot_states q) Reserved + count_list (slot_states q) Ready)"
proof -
  have i: "sys_inv s" by (rule sys_reach_inv [OF assms(1)])
  then have fq: "fq_inv q" "capacity q = cnMaximumSize" and h: "held_ok q (sys_held s)"
    using assms(2) by (simp_all add: sys_inv_def session_inv_def)
  show ?thesis
    using fq h fq_inv_slot_counts [OF fq(1)] by (simp add: held_ok_def fq_inv_def)
qed

theorem reachable_slots_accounted_witness:
  "\<exists>s q. sys_run ex_consumer_events sys_init = Some (Inr s) \<and> sys_reach s \<and>
     m_pFrameQueue (sys_sess s) = Some q \<and> fq_inv q \<and>
     count_list (slot_states q) Ready = length (queued q) + length (sys_held s) \<and> length (sys_held s) = 1"
proof -
  obtain s q where r: "sys_run ex_consumer_events sys_init = Some (Inr s)"
    and q: "m_pFrameQueue (sys_sess s) = Some q" and h: "sys_held s = [empty_disp_info]"
    using ex_consumer_state by blast
  have reach: "sys_reach s" by (rule sys_run_reach [OF sys_reach.start r])
  from reachable_slots_accounted [OF reach q] r q h reach show ?thesis by auto
qed

text \<open>
  C22: while the stream is live, a decode callback aimed at a slot the consumer
  holds blocks without a driver call: the decoder cannot overwrite a picture that is
  being read.
\<close>

theorem held_slot_blocks_decoder:
  assumes "sys_reach s" and "m_pFrameQueue (sys_sess s) = Some q" and "\<not> end_of_decode q"
    and "d \<in> set (sys_held s)" and "CurrPicIdx pp = picture_index d"
  shows "DecPictureDecode pp dec (sys_sess s) =
           Inr (CbBlocked (AddMessage NV_LOG_TRACE ''DecPictureDecode idx'' (sys_sess s)))"
proof -
  have "held_ok q (sys_held s)" using sys_reach_inv [OF assms(1)] assms(2) by (simp add: sys_inv_def)
  then have "ready_entry q d" using assms(4) by (simp add: held_ok_def list_all_iff)
  then have "waitUntilFrameAvailable (CurrPicIdx pp) q = Inr MustWait"
    using assms(3,5) by (simp add: waitUntilFrameAvailable_MustWait ready_entry_def)
  then show ?thesis using assms(2) by (simp add: DecPictureDecode_def decode_after_wait_def)
qed

theorem held_slot_blocks_decoder_witness:
  "\<exists>s q. sys_run ex_consumer_events sys_init = Some (Inr s) \<and> sys_reach s \<and>
     m_pFrameQueue (sys_sess s) = Some q \<and> \<not> end_of_decode q \<and> empty_disp_info \<in> set (sys_held s) \<and>
     DecPictureDecode \<lparr>CurrPicIdx = 0\<rparr> (CallReturns CUDA_SUCCESS) (sys_sess s) =
       Inr (CbBlocked (AddMessage NV_LOG_TRACE ''DecPictureDecode idx'' (sys_sess s)))"
proof -
  obtain s q where r: "sys_run ex_consumer_events sys_init = Some (Inr s)"
    and q: "m_pFrameQueue (sys_sess s) = Some q" "\<not> end_of_decode q"
    and h: "sys_held s = [empty_disp_info]"
    using ex_consumer_state by blast
  have reach: "sys_reach s" by (rule sys_run_reach [OF sys_reach.start r])
  have d: "empty_disp_info \<in> set (sys_held s)" using h by simp
  have c: "CurrPicIdx \<lparr>CurrPicIdx = 0\<rparr> = picture_index empty_disp_info" by (simp add: empty_disp_info_def)
  from held_slot_blocks_decoder [OF reach q d c] r q reach d show ?thesis by blast
qed

end
