(* ===== verification/Session_Progress.thy ===== *)
theory Session_Progress
  imports Session_System
begin

text \<open>
  Progress and ordering of the whole session (\<open>src/NVEncCore/src/CuvidDecode.cpp\<close>
  with the frame queue it feeds), stated over the system model of \<open>Session_System\<close>:
  when a parse blocked in \<open>waitUntilFrameAvailable\<close> resumes (a consumer release
  of the slot), when it never does (a slot still reserved by the same stream), that a
  \<open>DecodePacket\<close> whose pictures all have free slots of their own returns, and that
  the display callbacks publish pictures in the order \<open>HandlePictureDisplay\<close> is
  called. The event lists \<open>ex_*\<close> are concrete runs used by the witnesses.
\<close>

section \<open>Definitions\<close>

definition consumer_event :: "sys_event \<Rightarrow> bool" where
  "consumer_event e = (case e of EvTake \<Rightarrow> True | EvRelease _ \<Rightarrow> True | _ \<Rightarrow> False)"

definition ex_disp :: "int \<Rightarrow> disp_info" where
  "ex_disp i = empty_disp_info\<lparr>picture_index := i\<rparr>"

definition ex_decode :: "int \<Rightarrow> parser_callback" where
  "ex_decode i = DecodePictureCallback \<lparr>CurrPicIdx = i\<rparr> (CallReturns CUDA_SUCCESS)"

definition ex_feed :: "parser_callback list \<Rightarrow> sys_event" where
  "ex_feed cbs = EvFeed (Some [1]) 1 0 CUVID_NATIVE_TIMEBASE
                   \<lparr>reply_callbacks = cbs, reply_outcome = CallReturns CUDA_SUCCESS\<rparr>"

definition ex_open :: sys_event where
  "ex_open = EvInit None (ex_input None 0) True False (ex_env True (CallReturns CUDA_SUCCESS))"

text \<open>Open, decode and display slot 0, the consumer takes it, then a decode aimed at
  slot 0 blocks.\<close>

definition ex_blocked_on_held :: "sys_event list" where
  "ex_blocked_on_held =
     [ex_open, ex_feed [ex_decode 0, DisplayPictureCallback (ex_disp 0)], EvTake, ex_feed [ex_decode 0]]"

text \<open>Open, decode and display slot 1, decode slot 0, then decode slot 0 again: the
  second decode blocks on the slot the first one reserved.\<close>

definition ex_blocked_on_reserved :: "sys_event list" where
  "ex_blocked_on_reserved =
     [ex_open, ex_feed [ex_decode 1, DisplayPictureCallback (ex_disp 1), ex_decode 0, ex_decode 0]]"

text \<open>The slots the decode callbacks of one parse aim at, and the condition that each
  gets a slot of its own that is free when the parse starts.\<close>

fun decode_targets :: "parser_callback list \<Rightarrow> int list" where
  "decode_targets [] = []"
| "decode_targets (DecodePictureCallback pp dec # cbs) = CurrPicIdx pp # decode_targets cbs"
| "decode_targets (_ # cbs) = decode_targets cbs"

definition targets_free :: "frame_queue \<Rightarrow> int list \<Rightarrow> bool" where
  "targets_free q is \<longleftrightarrow> distinct is \<and>
     list_all (\<lambda>i. case slot_index (capacity q) i of None \<Rightarrow> True | Some k \<Rightarrow> slot_states q ! k = Free) is"

section \<open>Consumer steps\<close>

lemma held_release_ok:
  assumes "sys_inv s" and "i < length (sys_held s)" and "m_pFrameQueue (sys_sess s) = Some q"
  shows "\<exists>q'. releaseFrame (picture_index (sys_held s ! i)) q = Inr q' \<and>
           slot_states q' = (slot_states q)[nat (picture_index (sys_held s ! i)) := Free] \<and>
           end_of_decode q' = end_of_decode q \<and> capacity q' = capacity q \<and>
           sys_step (EvRelease i) s =
             Some (Inr (s\<lparr>sys_sess := (sys_sess s)\<lparr>m_pFrameQueue := Some q'\<rparr>,
                          sys_held := take i (sys_held s) @ drop (Suc i) (sys_held s)\<rparr>))"
proof -
  have "held_ok q (sys_held s)" using assms(1,3) by (simp add: sys_inv_def)
  then have "ready_entry q (sys_held s ! i)" using assms(2) by (simp add: held_ok_def list_all_length)
  then obtain q' where q': "releaseFrame (picture_index (sys_held s ! i)) q = Inr q'"
    by (auto simp: ready_entry_def releaseFrame_Inr)
  moreover have "slot_states q' = (slot_states q)[nat (picture_index (sys_held s ! i)) := Free]"
    "end_of_decode q' = end_of_decode q" "capacity q' = capacity q"
    using q' by (auto simp: releaseFrame_Inr)
  ultimately show ?thesis using assms(2,3) by simp
qed

lemma consumer_step_keeps_reserved:
  assumes "consumer_event e" and "sys_step e s = Some (Inr s')"
    and "m_pFrameQueue (sys_sess s) = Some q" and "k < length (slot_states q)"
    and "slot_states q ! k = Reserved"
  shows "\<exists>q'. m_pFrameQueue (sys_sess s') = Some q' \<and> slot_states q' ! k = Reserved \<and>
              end_of_decode q' = end_of_decode q \<and> capacity q' = capacity q \<and>
              length (slot_states q') = length (slot_states q) \<and> sys_job s' = sys_job s"
proof (cases e)
  case EvTake
  with assms show ?thesis
    by (auto simp: consumer_event_def dequeue_def split: take_result.splits if_splits)
next
  case (EvRelease i)
  with assms show ?thesis
    by (auto simp: consumer_event_def releaseFrame_Inr nth_update_other split: if_splits sum.splits)
qed (use assms in \<open>simp_all add: consumer_event_def\<close>)

lemma reach_blocked_queue:
  "sys_reach s \<Longrightarrow> sys_job s = Some j \<Longrightarrow> \<exists>q. m_pFrameQueue (sys_sess s) = Some q"
  using sys_reach_inv by (fastforce simp: sys_inv_def split: option.splits)

lemma decode_after_wait_free:
  assumes "m_pFrameQueue st = Some q" and "slot_index (capacity q) (CurrPicIdx pp) = Some k"
    and "slot_states q ! k = Free"
  shows "\<exists>r st'. decode_after_wait pp dec st = Inr (CbReturn r st') \<and>
           api_trace st' = api_trace st @ [Api_cuvidDecodePicture (CurrPicIdx pp)]"
  using assms
  by (cases dec) (auto simp: decode_after_wait_def waitUntilFrameAvailable_def guarded_def Let_def)

section \<open>Progress of a blocked parse\<close>

text \<open>
  C23: a parse blocked because its next picture's slot is held by the consumer
  resumes once the consumer gives that picture back: in every reachable state the
  release succeeds and the pending decode then issues its \<open>cuvidDecodePicture\<close>
  instead of blocking again.
\<close>

theorem release_unblocks_decoder:
  assumes "sys_reach s" and "sys_job s = Some j" and "job_pending j = WaitingDecode pp dec # ps"
    and "i < length (sys_held s)" and "picture_index (sys_held s ! i) = CurrPicIdx pp"
  shows "\<exists>s' r st'. sys_step (EvRelease i) s = Some (Inr s') \<and>
           step_pending (WaitingDecode pp dec) (sys_sess s') = Inr (CbReturn r st') \<and>
           api_trace st' = api_trace (sys_sess s') @ [Api_cuvidDecodePicture (CurrPicIdx pp)]"
proof -
  obtain q where q: "m_pFrameQueue (sys_sess s) = Some q"
    using reach_blocked_queue [OF assms(1,2)] by blast
  have inv: "sys_inv s" by (rule sys_reach_inv [OF assms(1)])
  obtain q' where rel: "releaseFrame (picture_index (sys_held s ! i)) q = Inr q'"
    and st: "slot_states q' = (slot_states q)[nat (picture_index (sys_held s ! i)) := Free]"
    and cap: "capacity q' = capacity q"
    and step: "sys_step (EvRelease i) s =
             Some (Inr (s\<lparr>sys_sess := (sys_sess s)\<lparr>m_pFrameQueue := Some q'\<rparr>,
                          sys_held := take i (sys_held s) @ drop (Suc i) (sys_held s)\<rparr>))"
    using held_release_ok [OF inv assms(4) q] by blast
  let ?k = "nat (CurrPicIdx pp)"
  have k: "0 \<le> CurrPicIdx pp" "?k < capacity q" "?k < length (slot_states q)"
    using rel assms(5) inv q by (auto simp: releaseFrame_Inr sys_inv_def session_inv_def fq_inv_def)
  have "slot_index (capacity q') (CurrPicIdx pp) = Some ?k" "slot_states q' ! ?k = Free"
    using k cap st assms(5) by (simp_all add: slot_index_def)
  from decode_after_wait_free [OF _ this, of "(sys_sess s)\<lparr>m_pFrameQueue := Some q'\<rparr>" dec] step
  show ?thesis by (simp add: step_pending_def)
qed

text \<open>
  C24: a decode that waits for a slot still reserved by an earlier decode of the
  same stream (decoded, its display callback not yet made) waits for good: no
  sequence of the consumer's takes and releases frees a reserved slot, so the pending
  decode still blocks after any of them. Progress relies on the parser never
  targeting a slot before it has displayed it.
\<close>

theorem reserved_wait_outlasts_consumer:
  assumes "m_pFrameQueue (sys_sess s) = Some q" and "\<not> end_of_decode q"
    and "slot_index (capacity q) (CurrPicIdx pp) = Some k" and "slot_states q ! k = Reserved"
    and "length (slot_states q) = capacity q"
    and "list_all consumer_event evs" and "sys_run evs s = Some (Inr s')"
  shows "step_pending (WaitingDecode pp dec) (sys_sess s') = Inr (CbBlocked (sys_sess s'))"
  using assms
proof (induction evs arbitrary: s q)
  case Nil
  then show ?case
    by (simp add: step_pending_def decode_after_wait_def waitUntilFrameAvailable_def)
next
  case (Cons e evs)
  from Cons.prems(7) obtain s1 where s1: "sys_step e s = Some (Inr s1)" "sys_run evs s1 = Some (Inr s')"
    by (auto split: option.splits sum.splits)
  have kl: "k < length (slot_states q)" using Cons.prems(3,5) by (auto simp: slot_index_def split: if_splits)
  from consumer_step_keeps_reserved [OF _ s1(1) Cons.prems(1) kl Cons.prems(4)] Cons.prems(6)
  obtain q1 where "m_pFrameQueue (sys_sess s1) = Some q1" "slot_states q1 ! k = Reserved"
      "end_of_decode q1 = end_of_decode q" "capacity q1 = capacity q"
      "length (slot_states q1) = length (slot_states q)"
    by auto
  with Cons.IH [of s1 q1] Cons.prems s1(2) show ?case by (simp add: slot_index_def)
qed

lemmas progress_eval_simps = sys_eval_simps ex_open_def ex_feed_def ex_decode_def ex_disp_def

lemma ex_blocked_on_held_state:
  "\<exists>s j. sys_run ex_blocked_on_held sys_init = Some (Inr s) \<and> sys_job s = Some j \<and>
         job_pending j = [WaitingDecode \<lparr>CurrPicIdx = 0\<rparr> (CallReturns CUDA_SUCCESS)] \<and>
         sys_held s = [ex_disp 0]"
  by (simp add: ex_blocked_on_held_def progress_eval_simps)

theorem release_unblocks_decoder_witness:
  "\<exists>s j. sys_run ex_blocked_on_held sys_init = Some (Inr s) \<and> sys_reach s \<and> sys_job s = Some j \<and>
     job_pending j = WaitingDecode \<lparr>CurrPicIdx = 0\<rparr> (CallReturns CUDA_SUCCESS) # [] \<and>
     0 < length (sys_held s) \<and> picture_index (sys_held s ! 0) = CurrPicIdx \<lparr>CurrPicIdx = 0\<rparr> \<and>
     (\<exists>s' r st'. sys_step (EvRelease 0) s = Some (Inr s') \<and>
        step_pending (WaitingDecode \<lparr>CurrPicIdx = 0\<rparr> (CallReturns CUDA_SUCCESS)) (sys_sess s') =
          Inr (CbReturn r st') \<and>
        api_trace st' = api_trace (sys_sess s') @ [Api_cuvidDecodePicture (CurrPicIdx \<lparr>CurrPicIdx = 0\<rparr>)])"
proof -
  obtain s j where r: "sys_run ex_blocked_on_held sys_init = Some (Inr s)" and j: "sys_job s = Some j"
    and p: "job_pending j = [WaitingDecode \<lparr>CurrPicIdx = 0\<rparr> (CallReturns CUDA_SUCCESS)]"
    and h: "sys_held s = [ex_disp 0]"
    using ex_blocked_on_held_state by blast
  have reach: "sys_reach s" by (rule sys_run_reach [OF sys_reach.start r])
  have p': "job_pending j = WaitingDecode \<lparr>CurrPicIdx = 0\<rparr> (CallReturns CUDA_SUCCESS) # []" using p by simp
  have l: "0 < length (sys_held s)" and pi: "picture_index (sys_held s ! 0) = CurrPicIdx \<lparr>CurrPicIdx = 0\<rparr>"
    using h by (simp_all add: ex_disp_def empty_disp_info_def)
  from release_unblocks_decoder [OF reach j p' l pi] r reach j p' l pi show ?thesis by blast
qed

lemma ex_blocked_on_reserved_state:
  "\<exists>s q. sys_run ex_blocked_on_reserved sys_init = Some (Inr s) \<and>
         m_pFrameQueue (sys_sess s) = Some q \<and> \<not> end_of_decode q \<and>
         slot_index (capacity q) 0 = Some 0 \<and> slot_states q ! 0 = Reserved \<and>
         length (slot_states q) = capacity q \<and>
         (\<exists>s'. sys_run [EvTake, EvRelease 0] s = Some (Inr s'))"
  by (simp add: ex_blocked_on_reserved_def progress_eval_simps)

theorem reserved_wait_outlasts_consumer_witness:
  "\<exists>s q s'. sys_run ex_blocked_on_reserved sys_init = Some (Inr s) \<and>
     m_pFrameQueue (sys_sess s) = Some q \<and> \<not> end_of_decode q \<and>
     slot_index (capacity q) (CurrPicIdx \<lparr>CurrPicIdx = 0\<rparr>) = Some 0 \<and> slot_states q ! 0 = Reserved \<and>
     length (slot_states q) = capacity q \<and> list_all consumer_event [EvTake, EvRelease 0] \<and>
     sys_run [EvTake, EvRelease 0] s = Some (Inr s') \<and>
     step_pending (WaitingDecode \<lparr>CurrPicIdx = 0\<rparr> (CallReturns CUDA_SUCCESS)) (sys_sess s') =
       Inr (CbBlocked (sys_sess s'))"
proof -
  obtain s q s' where r: "sys_run ex_blocked_on_reserved sys_init = Some (Inr s)"
    and q: "m_pFrameQueue (sys_sess s) = Some q" "\<not> end_of_decode q"
    and k: "slot_index (capacity q) 0 = Some 0" "slot_states q ! 0 = Reserved"
    and l: "length (slot_states q) = capacity q"
    and r': "sys_run [EvTake, EvRelease 0] s = Some (Inr s')"
    using ex_blocked_on_reserved_state by blast
  have k': "slot_index (capacity q) (CurrPicIdx \<lparr>CurrPicIdx = 0\<rparr>) = Some 0" using k by simp
  have c: "list_all consumer_event [EvTake, EvRelease 0]" by (simp add: consumer_event_def)
  from reserved_wait_outlasts_consumer [OF q k' k(2) l c r'] r q k' k l c r' show ?thesis by blast
qed

section \<open>Pictures reach the consumer in display order\<close>

text \<open>
  C25: the display callbacks publish in the order the parser makes them: a run of
  display callbacks for distinct reserved slots appends exactly those pictures, in that
  order, to the frame queue's FIFO, counts each one, and keeps the object invariant.
\<close>

theorem display_callbacks_fifo:
  assumes "session_inv st" and "m_pFrameQueue st = Some q" and "distinct (map picture_index ds)"
    and "\<forall>d \<in> set ds. 0 \<le> picture_index d \<and> nat (picture_index d) < capacity q \<and>
                      slot_states q ! nat (picture_index d) = Reserved"
  shows "\<exists>st' q'. run_pending (map (\<lambda>d. Callback (DisplayPictureCallback d)) ds) st = Inr ([], st') \<and>
           m_pFrameQueue st' = Some q' \<and> queued q' = queued q @ ds \<and>
           m_decodedFrames st' = m_decodedFrames st + int (length ds) \<and> session_inv st'"
  using assms
proof (induction ds arbitrary: st q)
  case Nil
  then show ?case by simp
next
  case (Cons d ds)
  have fq: "fq_inv q" "capacity q = cnMaximumSize" using Cons.prems(1,2) by (simp_all add: session_inv_def)
  obtain q1 where e: "enqueue d q = Inr q1"
    using Cons.prems(4) by (auto simp: enqueue_Inr)
  let ?st1 = "(AddMessage NV_LOG_TRACE ''DecPictureDisplay idx'' st)\<lparr>m_pFrameQueue := Some q1,
                m_decodedFrames := m_decodedFrames st + 1\<rparr>"
  have disp: "DecPictureDisplay d st = Inr (1, ?st1)"
    using Cons.prems(2) e by (simp add: DecPictureDisplay_def)
  have q1: "queued q1 = queued q @ [d]" by (rule queued_enqueue [OF fq(1) e])
  have fq1: "fq_inv q1" by (rule enqueue_inv [OF fq(1) e])
  have st1: "slot_states q1 = (slot_states q)[nat (picture_index d) := Ready]" "capacity q1 = capacity q"
    using e by (auto simp: enqueue_Inr)
  have inv1: "session_inv ?st1" using Cons.prems(1) fq fq1 st1 by (simp add: session_inv_def)
  have rest: "\<forall>d' \<in> set ds. 0 \<le> picture_index d' \<and> nat (picture_index d') < capacity q1 \<and>
                slot_states q1 ! nat (picture_index d') = Reserved"
  proof
    fix d' assume d': "d' \<in> set ds"
    then have "picture_index d' \<noteq> picture_index d" using Cons.prems(3) by (metis distinct.simps(2) image_eqI list.set_map list.simps(9))
    moreover have "0 \<le> picture_index d'" "0 \<le> picture_index d" using Cons.prems(4) d' by auto
    ultimately have "nat (picture_index d') \<noteq> nat (picture_index d)" by simp
    then show "0 \<le> picture_index d' \<and> nat (picture_index d') < capacity q1 \<and>
               slot_states q1 ! nat (picture_index d') = Reserved"
      using Cons.prems(4) d' st1 by simp
  qed
  from Cons.IH [OF inv1 _ _ rest] Cons.prems(3) obtain st' q' where
    r: "run_pending (map (\<lambda>d. Callback (DisplayPictureCallback d)) ds) ?st1 = Inr ([], st')"
    "m_pFrameQueue st' = Some q'" "queued q' = queued q1 @ ds"
    "m_decodedFrames st' = m_decodedFrames ?st1 + int (length ds)" "session_inv st'"
    by auto
  show ?case
    using disp r q1 by (simp add: step_pending_def handle_callback_def)
qed

theorem display_callbacks_fifo_witness:
  "\<exists>st' q'. run_pending (map (\<lambda>d. Callback (DisplayPictureCallback d)) [ex_disp 1, ex_disp 0])
              (ex_session (ex_pool (Reserved # Reserved # replicate 18 Free) False)) = Inr ([], st') \<and>
     m_pFrameQueue st' = Some q' \<and> queued q' = [ex_disp 1, ex_disp 0] \<and>
     m_decodedFrames st' = 2 \<and> session_inv st'"
proof -
  let ?q = "ex_pool (Reserved # Reserved # replicate 18 Free) False"
  have h: "session_inv (ex_session ?q)"
    by (simp add: session_inv_def ex_session_def ex_pool_def fq_inv_def queued_def queued_slots_def
                  ring_list_def cnMaximumSize_def)
  have q: "m_pFrameQueue (ex_session ?q) = Some ?q" by (simp add: ex_session_def)
  have d: "distinct (map picture_index [ex_disp 1, ex_disp 0])" by (simp add: ex_disp_def)
  have r: "\<forall>d \<in> set [ex_disp 1, ex_disp 0]. 0 \<le> picture_index d \<and> nat (picture_index d) < capacity ?q \<and>
             slot_states ?q ! nat (picture_index d) = Reserved"
    by (simp add: ex_disp_def ex_pool_def)
  from display_callbacks_fifo [OF h q d r] show ?thesis
    by (simp add: ex_pool_def queued_def ring_list_def ex_session_def CuvidDecode_new_def)
qed

section \<open>A parse whose pictures have free slots returns\<close>

lemma targets_free_update:
  assumes "targets_free q is" and "length (slot_states q) = capacity q"
    and "\<forall>i \<in> set is. slot_index (capacity q) i \<noteq> Some k"
  shows "targets_free (q\<lparr>slot_states := (slot_states q)[k := s], available := a\<rparr>) is"
    and "targets_free (q\<lparr>slot_states := (slot_states q)[k := s], display_ring := r,
                         frames_in_queue := n\<rparr>) is"
  using assms by (auto simp: targets_free_def list_all_iff split: option.splits)

lemma callback_free_target_returns:
  assumes "m_pFrameQueue st = Some q" and "length (slot_states q) = capacity q"
    and "targets_free q (decode_targets (cb # cbs))"
  shows "\<exists>r st' q'. handle_callback cb st = Inr (CbReturn r st') \<and> m_pFrameQueue st' = Some q' \<and>
           length (slot_states q') = capacity q' \<and> targets_free q' (decode_targets cbs)"
proof (cases cb)
  case (SequenceCallback f)
  then show ?thesis using assms DecVideoSequence_frame [of f st]
    by (simp add: handle_callback_def split_def)
next
  case (DisplayPictureCallback d)
  have fr: "targets_free q (decode_targets cbs)" using assms(3) DisplayPictureCallback by simp
  show ?thesis
  proof (cases "enqueue d q")
    case (Inl e)
    with DisplayPictureCallback assms show ?thesis
      by (simp add: handle_callback_def DecPictureDisplay_def)
  next
    case (Inr q1)
    then have "\<forall>i \<in> set (decode_targets cbs). slot_index (capacity q) i \<noteq> Some (nat (picture_index d))"
      using assms(3) DisplayPictureCallback
      by (auto simp: enqueue_Inr targets_free_def list_all_iff split: option.splits)
    moreover have "targets_free q1 (decode_targets cbs)" "length (slot_states q1) = capacity q1"
      using Inr assms(2) targets_free_update(2) [OF fr assms(2) calculation] by (auto simp: enqueue_Inr)
    ultimately show ?thesis using Inr DisplayPictureCallback assms(1)
      by (simp add: handle_callback_def DecPictureDisplay_def)
  qed
next
  case (DecodePictureCallback pp dec)
  let ?i = "CurrPicIdx pp"
  have fr: "targets_free q (decode_targets cbs)" and i: "?i \<notin> set (decode_targets cbs)"
    and ifree: "\<forall>k. slot_index (capacity q) ?i = Some k \<longrightarrow> slot_states q ! k = Free"
    using assms(3) DecodePictureCallback by (auto simp: targets_free_def)
  have keep: "\<exists>r st'. decode_after_wait pp dec st0 = Inr (CbReturn r st') \<and> m_pFrameQueue st' = Some q'"
    if "m_pFrameQueue st0 = Some q'" and "waitUntilFrameAvailable ?i q' \<noteq> Inr MustWait"
      and "\<forall>q''. waitUntilFrameAvailable ?i q' \<noteq> Inr (Acquired q'')" for st0 q'
    using that by (auto simp: decode_after_wait_def guarded_def Let_def
                        split: sum.splits wait_result.splits cu_call.splits)
  show ?thesis
  proof (cases "end_of_decode q \<or> slot_index (capacity q) ?i = None")
    case True
    then have "waitUntilFrameAvailable ?i q \<noteq> Inr MustWait" "\<forall>q''. waitUntilFrameAvailable ?i q \<noteq> Inr (Acquired q'')"
      by (auto simp: waitUntilFrameAvailable_def)
    with keep [of "AddMessage NV_LOG_TRACE ''DecPictureDecode idx'' st" q] assms(1,2) fr DecodePictureCallback
    show ?thesis by (auto simp: handle_callback_def DecPictureDecode_def)
  next
    case False
    then obtain k where k: "slot_index (capacity q) ?i = Some k" "\<not> end_of_decode q" by auto
    let ?q1 = "q\<lparr>slot_states := (slot_states q)[k := Reserved], available := available q - 1\<rparr>"
    have w: "waitUntilFrameAvailable ?i q = Inr (Acquired ?q1)"
      using k ifree by (simp add: waitUntilFrameAvailable_def)
    have "\<forall>j \<in> set (decode_targets cbs). slot_index (capacity q) j \<noteq> Some k"
      using k(1) i by (auto simp: slot_index_def split: if_splits) (metis nat_eq_iff2)
    then have fr1: "targets_free ?q1 (decode_targets cbs)"
      by (rule targets_free_update(1) [OF fr assms(2)])
    from w assms(1,2) fr1 DecodePictureCallback show ?thesis
      by (auto simp: handle_callback_def DecPictureDecode_def decode_after_wait_def guarded_def Let_def
               split: cu_call.splits)
  qed
qed

lemma run_free_targets_returns:
  assumes "m_pFrameQueue st = Some q" and "length (slot_states q) = capacity q"
    and "targets_free q (decode_targets cbs)"
  shows "\<exists>st' q'. run_pending (map Callback cbs) st = Inr ([], st') \<and> m_pFrameQueue st' = Some q'"
  using assms
proof (induction cbs arbitrary: st q)
  case Nil
  then show ?case by simp
next
  case (Cons cb cbs)
  from callback_free_target_returns [OF Cons.prems] obtain r st1 q1
    where "handle_callback cb st = Inr (CbReturn r st1)" "m_pFrameQueue st1 = Some q1"
      "length (slot_states q1) = capacity q1" "targets_free q1 (decode_targets cbs)" by blast
  with Cons.IH [of st1 q1] show ?case by (simp add: step_pending_def)
qed

text \<open>
  C28: a call of DecodePacket returns: when every picture the parser decodes in
  this call targets its own slot, free in the frame queue when the call starts (or
  outside the queue), none of the parser's callbacks waits, and DecodePacket comes
  back to its caller with the parser's result instead of blocking.
\<close>

theorem DecodePacket_free_targets_returns:
  assumes "session_inv st" and "m_pFrameQueue st = Some q"
    and "targets_free q (decode_targets (reply_callbacks rep))"
  shows "\<exists>r st'. DecodePacket data nSize ts tb rep st = Inr (FeedDone r st')"
proof -
  have len: "length (slot_states q) = capacity q"
    using assms(1,2) by (simp add: session_inv_def fq_inv_length)
  have run: "\<exists>st' q'. run_pending (map Callback (reply_callbacks rep)) (api c st) = Inr ([], st') \<and>
               m_pFrameQueue st' = Some q'" for c
    using run_free_targets_returns [OF _ len assms(3)] assms(2) by simp
  have "\<exists>r st'. parse_video_data caller pkt rep st = Inr (FeedDone r st')" for caller pkt
    using run [of "Api_cuvidParseVideoData pkt"]
    by (auto simp: parse_video_data_def run_job_def finish_parse_def dest!: guarded_frame
             split: parse_caller.split prod.split)
  then show ?thesis by (simp add: DecodePacket_def FlushParser_def split: option.split)
qed

theorem DecodePacket_free_targets_returns_witness:
  "session_inv (ex_session (ex_pool (replicate 20 Free) False)) \<and>
   targets_free (ex_pool (replicate 20 Free) False)
     (decode_targets [DecodePictureCallback \<lparr>CurrPicIdx = 0\<rparr> (CallReturns CUDA_SUCCESS),
                      DisplayPictureCallback (empty_disp_info\<lparr>picture_index := 0\<rparr>),
                      DecodePictureCallback \<lparr>CurrPicIdx = 1\<rparr> (CallReturns CUDA_SUCCESS)]) \<and>
   (\<exists>r st'. DecodePacket (Some [1, 2]) 2 0 CUVID_NATIVE_TIMEBASE
              \<lparr>reply_callbacks = [DecodePictureCallback \<lparr>CurrPicIdx = 0\<rparr> (CallReturns CUDA_SUCCESS),
                 DisplayPictureCallback (empty_disp_info\<lparr>picture_index := 0\<rparr>),
                 DecodePictureCallback \<lparr>CurrPicIdx = 1\<rparr> (CallReturns CUDA_SUCCESS)],
               reply_outcome = CallReturns CUDA_SUCCESS\<rparr>
              (ex_session (ex_pool (replicate 20 Free) False)) = Inr (FeedDone r st'))"
proof -
  have h: "session_inv (ex_session (ex_pool (replicate 20 Free) False))"
    by (simp add: session_inv_def ex_session_def ex_pool_def fq_inv_def queued_def queued_slots_def
                  ring_list_def cnMaximumSize_def)
  have q: "m_pFrameQueue (ex_session (ex_pool (replicate 20 Free) False)) = Some (ex_pool (replicate 20 Free) False)"
    by (simp add: ex_session_def)
  have t: "targets_free (ex_pool (replicate 20 Free) False)
     (decode_targets [DecodePictureCallback \<lparr>CurrPicIdx = 0\<rparr> (CallReturns CUDA_SUCCESS),
                      DisplayPictureCallback (empty_disp_info\<lparr>picture_index := 0\<rparr>),
                      DecodePictureCallback \<lparr>CurrPicIdx = 1\<rparr> (CallReturns CUDA_SUCCESS)])"
    by (simp add: targets_free_def ex_pool_def slot_index_def)
  from DecodePacket_free_targets_returns [OF h q] t h show ?thesis by simp
qed

end
