(* ===== verification/Session_Phases.thy ===== *)
theory Session_Phases
  imports Session_Progress
begin

text \<open>
  The specification's session lifecycle (section 4.2: Uninitialized, Initializing,
  Running, Draining, Closed) as an abstraction of the object of
  \<open>src/NVEncCore/src/CuvidDecode.cpp\<close>. The phase is read off the frame queue:
  none (the constructor's state and the state \<open>CloseDecoder\<close> leaves, which the
  code does not tell apart), a live one, or an ended one (\<open>endDecode\<close> in
  \<open>FlushParser\<close>). Initializing is the transient inside \<open>InitDecode\<close>.
  \<open>lifecycle_step\<close> is the specification's transition relation per event, and the
  lemmas show that each layer of the code (callbacks, a parse, the stages of
  \<open>InitDecode\<close>, one system event) moves the phase only along it.
\<close>

section \<open>Phases and the specification's transitions\<close>

datatype phase = Closed | Running | Draining

definition phase_of :: "cuvid_decode \<Rightarrow> phase" where
  "phase_of st =
     (case m_pFrameQueue st of
        None \<Rightarrow> Closed
      | Some q \<Rightarrow> if end_of_decode q then Draining else Running)"

definition ends_stream :: "sys_event \<Rightarrow> sys \<Rightarrow> bool" where
  "ends_stream ev s =
     (case ev of
        EvFeed d n ts tb rep \<Rightarrow> d = None \<or> n = 0
      | EvResume \<Rightarrow> (case sys_job s of Some j \<Rightarrow> job_caller j = FromFlushParser | None \<Rightarrow> False)
      | _ \<Rightarrow> False)"

fun lifecycle_step :: "sys_event \<Rightarrow> bool \<Rightarrow> phase \<Rightarrow> phase \<Rightarrow> bool" where
  "lifecycle_step (EvInit l inp lg ign env) fl p p' \<longleftrightarrow> p' = Closed \<or> p' = Running"
| "lifecycle_step EvClose fl p p' \<longleftrightarrow> p' = Closed"
| "lifecycle_step EvTake fl p p' \<longleftrightarrow> p' = p"
| "lifecycle_step (EvRelease i) fl p p' \<longleftrightarrow> p' = p"
| "lifecycle_step (EvFeed d n ts tb rep) fl p p' \<longleftrightarrow> p' = p \<or> (fl \<and> p = Running \<and> p' = Draining)"
| "lifecycle_step EvResume fl p p' \<longleftrightarrow> p' = p \<or> (fl \<and> p = Running \<and> p' = Draining)"

definition ex_flush :: sys_event where
  "ex_flush = EvFeed None 0 0 CUVID_NATIVE_TIMEBASE
                \<lparr>reply_callbacks = [], reply_outcome = CallReturns CUDA_SUCCESS\<rparr>"

section \<open>Each layer keeps or advances the phase\<close>

lemma phase_of_same_queue:
  "m_pFrameQueue st' = m_pFrameQueue st \<Longrightarrow> phase_of st' = phase_of st"
  by (simp add: phase_of_def)

lemma phase_of_fields [simp]:
  "phase_of (AddMessage l m st) = phase_of st"
  "phase_of (api c st) = phase_of st"
  by (simp_all add: phase_of_def)

lemma decode_after_wait_phase:
  "decode_after_wait pp dec st = Inr s \<Longrightarrow> phase_of (cb_state s) = phase_of st"
  by (auto simp: decode_after_wait_def guarded_def phase_of_def cb_state_def Let_def
                 waitUntilFrameAvailable_def
           split: option.splits sum.splits wait_result.splits cu_call.splits if_splits)

lemma DecPictureDisplay_phase:
  "DecPictureDisplay d st = Inr (r, st') \<Longrightarrow> phase_of st' = phase_of st"
  by (auto simp: DecPictureDisplay_def phase_of_def enqueue_def Let_def
           split: option.splits sum.splits if_splits)

lemma handle_callback_phase:
  assumes "handle_callback cb st = Inr s"
  shows "phase_of (cb_state s) = phase_of st"
proof (cases cb)
  case (SequenceCallback f)
  with assms show ?thesis
    using phase_of_same_queue [OF DecVideoSequence_frame [THEN conjunct1, of f st]]
    by (auto simp: handle_callback_def cb_state_def split_def)
next
  case (DecodePictureCallback pp dec)
  with assms decode_after_wait_phase show ?thesis
    by (simp add: handle_callback_def DecPictureDecode_def)
next
  case (DisplayPictureCallback d)
  with assms show ?thesis
    by (auto simp: handle_callback_def cb_state_def dest!: DecPictureDisplay_phase split: sum.splits)
qed

lemma step_pending_phase:
  "step_pending p st = Inr s \<Longrightarrow> phase_of (cb_state s) = phase_of st"
  by (cases p) (auto simp: step_pending_def dest: handle_callback_phase decode_after_wait_phase)

lemma run_pending_phase:
  "run_pending ps st = Inr (ps', st') \<Longrightarrow> phase_of st' = phase_of st"
proof (induction ps st rule: run_pending.induct)
  case (1 st)
  then show ?case by simp
next
  case (2 p ps st)
  then show ?case
    by (auto simp: cb_state_def split: sum.splits cb_status.splits
             dest!: step_pending_phase)
qed

lemma run_job_phase:
  assumes "run_job j st = Inr r"
  shows "phase_of (feed_state r) = phase_of st \<or>
         (job_caller j = FromFlushParser \<and> phase_of st = Running \<and> phase_of (feed_state r) = Draining)"
proof (cases "run_pending (job_pending j) st")
  case (Inl e)
  with assms show ?thesis by (simp add: run_job_def)
next
  case (Inr res)
  obtain ps st' where res: "res = (ps, st')" by (cases res)
  have ph: "phase_of st' = phase_of st" using Inr res run_pending_phase by simp
  show ?thesis
  proof (cases ps)
    case Nil
    obtain r1 st1 where g: "guarded ''cuvidParseVideoData error'' (job_outcome j) st' = (r1, st1)"
      by (cases "guarded ''cuvidParseVideoData error'' (job_outcome j) st'")
    have "phase_of st1 = phase_of st'" using guarded_frame [OF g] by auto
    with assms Inr res Nil g ph show ?thesis
      by (auto simp: run_job_def finish_parse_def feed_state_def phase_of_def endDecode_def
               split: parse_caller.splits option.splits if_splits)
  next
    case (Cons p ps')
    with assms Inr res ph show ?thesis by (auto simp: run_job_def feed_state_def)
  qed
qed

lemma parse_video_data_phase:
  assumes "parse_video_data caller pkt rep st = Inr r"
  shows "phase_of (feed_state r) = phase_of st \<or>
         (caller = FromFlushParser \<and> phase_of st = Running \<and> phase_of (feed_state r) = Draining)"
  using assms run_job_phase [of "\<lparr>job_pending = map Callback (reply_callbacks rep),
          job_outcome = reply_outcome rep, job_caller = caller\<rparr>" "api (Api_cuvidParseVideoData pkt) st" r]
  by (simp add: parse_video_data_def)

lemma DecodePacket_phase:
  assumes "DecodePacket d n ts tb rep st = Inr r"
  shows "phase_of (feed_state r) = phase_of st \<or>
         ((d = None \<or> n = 0) \<and> phase_of st = Running \<and> phase_of (feed_state r) = Draining)"
  using assms
  by (auto simp: DecodePacket_def FlushParser_def dest!: parse_video_data_phase split: option.splits if_splits)

lemma init_decode_header_phase:
  assumes "init_decode_header env r st = Inr x" and "phase_of st = Running"
  shows "phase_of (init_state x) = Running"
proof (cases "seqhdr_data_length (m_videoFormatEx st) = 0")
  case True
  with assms show ?thesis by (auto simp: init_decode_header_def init_state_def)
next
  case False
  then have "unat (seqhdr_data_length (m_videoFormatEx st)) \<noteq> 0" by (simp add: unat_eq_zero)
  with assms False DecodePacket_phase [of "Some (raw_seqhdr_data (m_videoFormatEx st))"
      "unat (seqhdr_data_length (m_videoFormatEx st))" AV_NOPTS_VALUE CUVID_NATIVE_TIMEBASE
      "header_reply env" st]
  show ?thesis
    by (auto simp: init_decode_header_def init_state_def feed_state_def
             split: sum.splits feed_status.splits if_splits)
qed

lemma init_decoder_phase:
  assumes "init_decoder inp env st = Inr x" and "phase_of st = Running"
  shows "phase_of (init_state x) = Running"
proof -
  obtain r st2 where c: "CreateDecoder (create_decoder_call env)
     ((api Api_cuvidCtxLock st)\<lparr>m_videoDecodeCreateInfo := init_create_info inp (m_ctxLock st)\<rparr>) = (r, st2)"
    by fastforce
  have "phase_of st2 = Running"
    using CreateDecoder_fields [OF c] assms(2) by (simp add: phase_of_def)
  then have "phase_of (AddMessage NV_LOG_DEBUG ''created decoder'' (api Api_cuvidCtxUnlock st2)) = Running"
    by simp
  with assms(1) c show ?thesis
    by (auto simp: init_decoder_def init_state_def Let_def dest!: init_decode_header_phase split: if_splits)
qed

lemma init_frame_queue_phase:
  assumes "init_frame_queue inp env st = Inr x"
  shows "phase_of (init_state x) = Running"
proof -
  obtain q where q: "fq_init cnMaximumSize (width inp) (height inp) = Inr q" "queue_alloc_ok env"
    using assms by (auto simp: init_frame_queue_def split: sum.splits if_splits)
  then have "\<not> end_of_decode q" by (auto simp: fq_init_def split: if_splits)
  then have run: "phase_of (AddMessage NV_LOG_DEBUG ''created frame queue'' (st\<lparr>m_pFrameQueue := Some q\<rparr>)) = Running"
    by (simp add: phase_of_def)
  from assms q have "init_video_parser inp env
     (AddMessage NV_LOG_DEBUG ''created frame queue'' (st\<lparr>m_pFrameQueue := Some q\<rparr>)) = Inr x"
    by (simp add: init_frame_queue_def)
  with run show ?thesis
    by (auto simp: init_video_parser_def init_state_def phase_of_def Let_def
             split: option.splits if_splits dest!: init_decoder_phase)
qed

lemma InitDecode_phase:
  "InitDecode l inp lg ign env st = Inr x \<Longrightarrow> phase_of (init_state x) = Closed \<or> phase_of (init_state x) = Running"
  by (auto simp: InitDecode_def init_state_def phase_of_def Let_def CloseDecoder_def
           dest!: init_frame_queue_phase split: if_splits)

section \<open>The session follows the lifecycle\<close>

lemma feed_to_sys_sess [simp]: "sys_sess (feed_to_sys s r) = feed_state r"
  by (simp add: feed_to_sys_def feed_state_def split: feed_status.split)

text \<open>
  C29: every event of the session moves it along the specification's lifecycle
  (section 4.2), read off the object as Closed (no frame queue: before InitDecode or
  after CloseDecoder), Running (a live frame queue) or Draining (the frame queue ended):
  InitDecode leaves it Closed or Running, CloseDecoder leaves it Closed, the consumer's
  take and release keep the phase, and a feed or the resumption of a blocked parse
  keeps the phase except that a flush (an empty packet) may take Running to Draining.
  Draining is left only through InitDecode or CloseDecoder.
\<close>

theorem sys_step_follows_lifecycle:
  assumes "sys_step ev s = Some (Inr s')"
  shows "lifecycle_step ev (ends_stream ev s) (phase_of (sys_sess s)) (phase_of (sys_sess s'))"
proof (cases ev)
  case (EvInit l inp lg ign env)
  with assms InitDecode_phase [of l inp lg ign env "sys_sess s"] show ?thesis
    by (auto simp: init_state_def split: if_splits sum.splits init_status.splits)
next
  case (EvFeed d n ts tb rep)
  with assms DecodePacket_phase [of d n ts tb rep "sys_sess s"] show ?thesis
    by (auto simp: ends_stream_def split: if_splits sum.splits)
next
  case EvResume
  with assms obtain j r where j: "sys_job s = Some j" "run_job j (sys_sess s) = Inr r" "s' = feed_to_sys s r"
    by (auto split: option.splits sum.splits)
  with EvResume run_job_phase [OF j(2)] show ?thesis by (simp add: ends_stream_def)
next
  case EvTake
  with assms show ?thesis
    by (auto simp: phase_of_def dequeue_def split: option.splits take_result.splits if_splits)
next
  case (EvRelease i)
  with assms show ?thesis
    by (auto simp: phase_of_def releaseFrame_Inr split: option.splits sum.splits if_splits)
next
  case EvClose
  with assms show ?thesis by (auto simp: phase_of_def split: if_splits)
qed

theorem sys_step_follows_lifecycle_witness:
  "\<exists>s1 s2 s3. sys_step ex_open sys_init = Some (Inr s1) \<and> sys_step ex_flush s1 = Some (Inr s2) \<and>
     phase_of (sys_sess s1) = Running \<and> phase_of (sys_sess s2) = Draining \<and>
     lifecycle_step ex_flush (ends_stream ex_flush s1) Running Draining \<and>
     sys_step (ex_feed []) sys_init = Some (Inr s3) \<and>
     lifecycle_step (ex_feed []) (ends_stream (ex_feed []) sys_init) Closed (phase_of (sys_sess s3))"
proof -
  have "\<exists>s1 s2 s3. sys_step ex_open sys_init = Some (Inr s1) \<and> sys_step ex_flush s1 = Some (Inr s2) \<and>
    phase_of (sys_sess s1) = Running \<and> phase_of (sys_sess s2) = Draining \<and>
    sys_step (ex_feed []) sys_init = Some (Inr s3) \<and> phase_of (sys_sess sys_init) = Closed"
    by (simp add: progress_eval_simps ex_flush_def phase_of_def endDecode_def CuvidDecode_new_def)
  then obtain s1 s2 s3 where r: "sys_step ex_open sys_init = Some (Inr s1)" "sys_step ex_flush s1 = Some (Inr s2)"
    "phase_of (sys_sess s1) = Running" "phase_of (sys_sess s2) = Draining"
    "sys_step (ex_feed []) sys_init = Some (Inr s3)" "phase_of (sys_sess sys_init) = Closed"
    by blast
  with sys_step_follows_lifecycle [OF r(2)] sys_step_follows_lifecycle [OF r(5)] show ?thesis by auto
qed

end
