(* ===== verification/Spec2Isabelle.thy ===== *)
theory Spec2Isabelle
  imports Session_Phases
begin

text \<open>
  A verification development of NVEnc's hardware decode orchestration,
  src/NVEncCore/src/CuvidDecode.cpp (class \<open>CuvidDecode\<close>).

  \<^bold>\<open>The program.\<close> \<open>CuvidDecode\<close> feeds compressed packets to the NVDEC
  parser (\<open>DecodePacket\<close>, \<open>FlushParser\<close>, \<open>DecVideoData\<close>); the parser calls back,
  synchronously and in an order it chooses, into \<open>DecVideoSequence\<close> (format
  negotiation), \<open>DecPictureDecode\<close> (wait for the target slot of the frame queue,
  then \<open>cuvidDecodePicture\<close>) and \<open>DecPictureDisplay\<close> (publish the picture to the
  frame queue); a consumer drains the frame queue and releases slots.
  \<open>InitDecode\<close> and \<open>CloseDecoder\<close> build and tear down the parser, the decoder and
  the frame queue.

  \<^bold>\<open>The library.\<close>
  \<^item> \<open>Cuvid_Prelude\<close>: machine types (\<open>short\<close>, \<open>ulong\<close>, \<open>uint32\<close> as words),
    counting lemmas on arrays of slot states, bounded rings read as lists.
  \<^item> \<open>Frame_Queue\<close>: the frame slot pool \<open>CUVIDFrameQueue\<close>, modelled from the
    specification because its class is not among the sources: slots
    \<open>Free\<close>/\<open>Reserved\<close>/\<open>Ready\<close>, a display ring, a free count, an ended flag;
    \<open>waitUntilFrameAvailable\<close>, \<open>enqueue\<close>, \<open>dequeue\<close>, \<open>releaseFrame\<close>,
    \<open>endDecode\<close>. Its invariant \<open>fq_inv\<close> is kept by every operation, the ring
    refines an abstract FIFO pool (\<open>fq_abs\<close>), and runs of pool operations
    (\<open>pool_run\<close>) hand out pictures in publish order.
  \<^item> \<open>Cuvid_State\<close>: the members of \<open>CuvidDecode\<close> as the record
    \<open>cuvid_decode\<close>, the CUVID structures, \<open>AddMessage\<close> (a message log),
    the driver call trace \<open>api_trace\<close>, the \<open>__try/__except\<close> guard (\<open>guarded\<close>),
    and the object invariant \<open>session_inv\<close>.
  \<^item> \<open>Format_Negotiation\<close>: \<open>DecVideoSequence\<close> (lines 90--107).
  \<^item> \<open>Decode_Callbacks\<close>: \<open>DecPictureDecode\<close> (72--88), \<open>DecPictureDisplay\<close>
    (109--115), the trampolines (30--43), and \<open>run_pending\<close>, the callbacks of one
    \<open>cuvidParseVideoData\<close> run in order until one blocks. Lemmas: the frame
    conditions of each callback (\<open>cb_frame\<close>), preservation of \<open>session_inv\<close>, the
    driver calls a callback may make (only \<open>cuvidDecodePicture\<close>), no fault while a
    frame queue exists, and a \<open>NullFrameQueue\<close> fault or a clean run without one.
    Claims C1--C3, C5, C6.
  \<^item> \<open>Packet_Feeder\<close>: \<open>DecodePacket\<close> (258--283), \<open>FlushParser\<close> (239--256),
    \<open>DecVideoData\<close> (56--70), \<open>HandleVideoData\<close> (25--28). A parse is a
    \<open>parse_job\<close>: the pending callbacks, the driver's answer and the caller;
    \<open>run_job\<close> runs it to \<open>FeedDone\<close> or to \<open>FeedBlocked\<close> (resumable once a slot
    is released). The timestamp goes through libavutil's \<open>av_rescale_q\<close>, modelled
    from its source and documentation as \<open>av_rescale_rnd\<close> with
    \<open>AV_ROUND_NEAR_INF\<close>: \<open>INT64_MIN\<close> for a negative numerator or a
    non-positive denominator and for a result outside 64 bits, the exact rounding
    \<open>rescale_near_inf\<close> otherwise. Claims C14--C18, C26, C27: flush ends the
    frame queue, the packet's bits and 32-bit size, exact timestamp rescaling for time
    bases dividing 10 MHz (and \<open>INT64_MIN\<close> past 64 bits), the two divergent error
    policies, the equivalence of the rescaled timestamp with rounding the exact
    rational quotient (\<open>round_near_inf\<close>, halves away from zero) within the 64-bit
    range, and that every answer a callback gives the parser is the flag 0 or 1.
  \<^item> \<open>Session_Lifecycle\<close>: \<open>check_if_nvcuvid_dll_available\<close> (15--22),
    \<open>CloseDecoder\<close> (117--134), the destructor (52--54), \<open>CreateDecoder\<close>
    (136--145) and \<open>InitDecode\<close> (147--237) split into its stages
    (\<open>init_frame_queue\<close>, \<open>init_video_parser\<close>, \<open>init_decoder\<close>,
    \<open>init_decode_header\<close>) with every early return; the host and the driver's
    answers are the record \<open>init_env\<close>. Claims C7--C13, C19, C20: teardown order
    and idempotence, the null frame queue in \<open>FlushParser\<close> after teardown, the
    successful initialisation and its agreeing surface counts, balanced context
    locking on every path, the sequence header's overflow and its exact delivery,
    the resources left behind by a failed decoder creation, the missing engine, and
    the display area computed from a zero coded width.

  \<^item> \<open>Session_System\<close>: the object with its callers and its consumer, which
    are outside the sources and modelled from the specification: \<open>sys_step\<close> takes
    one event (\<open>EvInit\<close>, \<open>EvFeed\<close>, \<open>EvResume\<close> of a blocked parse,
    \<open>EvTake\<close> and \<open>EvRelease\<close> of the consumer, \<open>EvClose\<close>), \<open>sys_reach\<close> is the
    inductive set of reachable states and \<open>sys_inv\<close> its invariant, proved by rule
    induction from one lemma per event. Claims C21, C22: no ready slot leaks and the
    free count is capacity less reserved and ready slots; a decode aimed at a held
    slot blocks while the stream is live (after a flush it no longer does, C5).
  \<^item> \<open>Session_Progress\<close>: progress and ordering over \<open>sys_step\<close>. Claims
    C23--C25: releasing a held picture unblocks a parse waiting for its slot (the
    pending decode then calls \<open>cuvidDecodePicture\<close>); a parse waiting for a slot
    still reserved by the same stream stays blocked after any consumer events; display
    callbacks append to the FIFO in callback order and count each picture.
    Claim C28 (termination of a call): a \<open>DecodePacket\<close> whose decode callbacks
    each aim at a slot of their own that is free when the call starts
    (\<open>targets_free\<close> of \<open>decode_targets\<close>) never waits and returns
    \<open>FeedDone\<close>.
  \<^item> \<open>Session_Phases\<close>: the specification's session lifecycle as an abstraction
    \<open>phase_of\<close> (Closed, Running, Draining, read off the frame queue) with its
    transition relation \<open>lifecycle_step\<close>; each layer (callbacks, \<open>run_job\<close>, the
    stages of \<open>InitDecode\<close>) moves the phase only along it. Claim C29: every
    \<open>sys_step\<close> refines a lifecycle transition; its witness also shows a feed on a
    Closed session accepted rather than refused.

  \<^bold>\<open>Modelling choices.\<close> The driver is an input: each driver call's outcome is a
  \<open>cu_call\<close> (a result code or a structured exception), and the callbacks a parse
  triggers are a list. Blocking is a value: a decode callback whose slot is in use
  answers \<open>CbBlocked\<close> and stays pending. Null dereferences, buffer overruns and
  escaping C++ exceptions are the \<open>fault\<close> values; a null frame queue met inside
  a callback is modelled as such a fault, although on Windows the \<open>__try\<close> around
  \<open>cuvidParseVideoData\<close> may catch the access violation (no claim relies on it). Messages keep their level and
  format string, not the formatted arguments. Every loop of the model is structural
  recursion on a list (the pending callbacks, the pool operations, the events of a
  run), so every function is total by construction and no fuel is needed; the only
  unbounded wait of the program, \<open>waitUntilFrameAvailable\<close>, is the value
  \<open>CbBlocked\<close>, and when it ends is stated by C23, C24 and C28. C conversions (\<open>(uint32_t)nSize\<close>, \<open>int\<close> to \<open>unsigned long\<close> and to
  \<open>short\<close>) are word conversions that wrap.

  \<^bold>\<open>Not modelled.\<close> The internals of the NVDEC driver, of libavutil (only
  \<open>av_rescale_q\<close>, as its documented contract: its 128-bit path for operands
  above \<open>INT_MAX\<close> is taken to answer \<open>INT64_MIN\<close> exactly when the result is
  not representable; \<open>AVRational\<close> fields are 32-bit \<open>int\<close>s in C and
  unbounded here) and of the logger; the frame queue's locking and
  condition variables (its operations are atomic steps, blocking a value); the
  consumer's own processing of a picture between take and release; concurrency below
  the granularity of one event (each callback and each consumer operation is atomic,
  as the frame queue's lock makes it).
\<close>

end
